(* ===== verification/Gateway_Prelude.thy ===== *)
theory Gateway_Prelude
  imports Main "HOL-Library.Word" "HOL-Library.Multiset"
begin

text \<open>
  Shared vocabulary of the development: the machine types of the gateway, faults as values,
  and the model of \<open>std::map\<close> as a key-sorted association list together with the interface
  (a locale) that the components use.
\<close>

named_theorems fault_simps \<open>rules for computations that may end in a fault\<close>

section \<open>Machine types\<close>

text \<open>
  Time points and durations of \<open>std::chrono::steady_clock\<close> are signed 64-bit tick counts
  (nanoseconds). They are mathematical integers here; \<open>duration_max\<close> is
  \<open>duration::max()\<close>.
\<close>

type_synonym time = int
type_synonym duration = int
type_synonym u16 = "16 word"

definition duration_max :: duration where
  "duration_max = 2 ^ 63 - 1"

abbreviation msec :: "int \<Rightarrow> duration" where
  "msec n \<equiv> n * 1000000"

section \<open>Faults\<close>

text \<open>
  What ends a C++ computation without a value: a failed \<open>assert\<close>, a read through an end or
  singular iterator (undefined behaviour), or an exception that leaves the component.
\<close>

datatype fault =
    AssertionFailed
  | DerefEnd
  | SingularIterator
  | NullPointer
  | ContextException

fun bindE :: "'e + 'a \<Rightarrow> ('a \<Rightarrow> 'e + 'b) \<Rightarrow> 'e + 'b" where
  "bindE (Inl e) f = Inl e"
| "bindE (Inr x) f = f x"

lemma bindE_Inr_iff [fault_simps]:
  "bindE m f = Inr y \<longleftrightarrow> (\<exists>x. m = Inr x \<and> f x = Inr y)"
  by (cases m) auto

lemma bindE_Inl_iff [fault_simps]:
  "bindE m f = Inl e \<longleftrightarrow> m = Inl e \<or> (\<exists>x. m = Inr x \<and> f x = Inl e)"
  by (cases m) auto

lemma bindE_assoc: "bindE (bindE m f) g = bindE m (\<lambda>x. bindE (f x) g)"
  by (cases m) auto

lemma bindE_Inr_right [simp]: "bindE m Inr = m"
  by (cases m) auto

text \<open>A loop that stops at the first exception.\<close>

fun foldE :: "('a \<Rightarrow> 's \<Rightarrow> 'e + 's) \<Rightarrow> 'a list \<Rightarrow> 's \<Rightarrow> 'e + 's" where
  "foldE f [] s = Inr s"
| "foldE f (x # xs) s = bindE (f x s) (foldE f xs)"

lemma foldE_append: "foldE f (xs @ ys) s = bindE (foldE f xs s) (foldE f ys)"
proof (induction xs arbitrary: s)
  case (Cons x xs)
  then show ?case by (cases "f x s") simp_all
qed simp

text \<open>What one round keeps, the loop keeps; \<open>R\<close> relates the states before and after.\<close>

lemma foldE_keeps:
  assumes "foldE f xs s = Inr t" and "P s"
    and "\<And>x s t. x \<in> set xs \<Longrightarrow> P s \<Longrightarrow> f x s = Inr t \<Longrightarrow> P t"
  shows "P t"
  using assms
proof (induction xs arbitrary: s)
  case (Cons x xs)
  then obtain u where u: "f x s = Inr u" "foldE f xs u = Inr t" by (auto simp: bindE_Inr_iff)
  have "P u" using Cons.prems u by auto
  then show ?case using Cons u by auto
qed simp

lemma foldE_related:
  assumes "foldE f xs s = Inr t" and "\<And>s. R s s" and "\<And>s t u. R s t \<Longrightarrow> R t u \<Longrightarrow> R s u"
    and "\<And>x s t. x \<in> set xs \<Longrightarrow> f x s = Inr t \<Longrightarrow> R s t"
  shows "R s t"
  using assms(1,4)
proof (induction xs arbitrary: s)
  case Nil
  then show ?case using assms(2) by simp
next
  case (Cons x xs)
  then obtain u where u: "f x s = Inr u" "foldE f xs u = Inr t" by (auto simp: bindE_Inr_iff)
  have "R s u" "R u t" using Cons u by auto
  then show ?case by (rule assms(3))
qed

section \<open>Ordered maps\<close>

text \<open>
  \<open>std::map\<close> keeps its entries sorted by key and its iterators survive insertions. An
  iterator is modelled by the key it points at, \<open>end()\<close> by \<open>None\<close>.
\<close>

type_synonym ('k, 'v) omap = "('k \<times> 'v) list"

definition omap_ok :: "('k::linorder, 'v) omap \<Rightarrow> bool" where
  "omap_ok m \<longleftrightarrow> sorted_wrt (<) (map fst m)"

fun omap_put :: "'k::linorder \<Rightarrow> 'v \<Rightarrow> ('k, 'v) omap \<Rightarrow> ('k, 'v) omap" where
  "omap_put k v [] = [(k, v)]"
| "omap_put k v ((k', v') # m) =
     (if k < k' then (k, v) # (k', v') # m
      else if k = k' then (k, v) # m
      else (k', v') # omap_put k v m)"

text \<open>\<open>std::map::insert\<close> leaves an existing entry alone.\<close>

definition omap_insert :: "'k::linorder \<Rightarrow> 'v \<Rightarrow> ('k, 'v) omap \<Rightarrow> ('k, 'v) omap" where
  "omap_insert k v m = (case map_of m k of None \<Rightarrow> omap_put k v m | Some _ \<Rightarrow> m)"

text \<open>\<open>m[k]\<close> used as a place: a default entry appears when there is none.\<close>

definition omap_modify ::
  "'v \<Rightarrow> ('v \<Rightarrow> 'v) \<Rightarrow> 'k::linorder \<Rightarrow> ('k, 'v) omap \<Rightarrow> ('k, 'v) omap" where
  "omap_modify d f k m = omap_put k (f (case map_of m k of None \<Rightarrow> d | Some v \<Rightarrow> v)) m"

definition omap_erase :: "'k \<Rightarrow> ('k, 'v) omap \<Rightarrow> ('k, 'v) omap" where
  "omap_erase k m = filter (\<lambda>e. fst e \<noteq> k) m"

definition omap_begin :: "('k, 'v) omap \<Rightarrow> 'k option" where
  "omap_begin m = (case m of [] \<Rightarrow> None | e # _ \<Rightarrow> Some (fst e))"

fun omap_next :: "'k \<Rightarrow> ('k, 'v) omap \<Rightarrow> 'k option" where
  "omap_next k [] = None"
| "omap_next k ((k', v') # m) = (if k = k' then omap_begin m else omap_next k m)"

lemma map_of_omap_put: "omap_ok m \<Longrightarrow> map_of (omap_put k v m) = (map_of m)(k \<mapsto> v)"
proof (induction k v m rule: omap_put.induct)
  case (1 k v)
  then show ?case by (auto simp: fun_eq_iff)
next
  case (2 k v k' v' m)
  then show ?case by (auto simp: omap_ok_def fun_eq_iff)
qed

lemma set_keys_omap_put: "fst ` set (omap_put k v m) = insert k (fst ` set m)"
  by (induction k v m rule: omap_put.induct) auto

lemma omap_ok_Nil [simp]: "omap_ok []"
  by (simp add: omap_ok_def)

lemma omap_ok_put [intro]: "omap_ok m \<Longrightarrow> omap_ok (omap_put k v m)"
proof (induction k v m rule: omap_put.induct)
  case (1 k v)
  then show ?case by (simp add: omap_ok_def)
next
  case (2 k v k' v' m)
  then show ?case
    by (auto simp: omap_ok_def set_keys_omap_put)
qed

lemma omap_ok_erase [intro]: "omap_ok m \<Longrightarrow> omap_ok (omap_erase k m)"
  by (induction m) (auto simp: omap_ok_def omap_erase_def)

lemma omap_ok_distinct: "omap_ok m \<Longrightarrow> distinct (map fst m)"
  by (auto simp: omap_ok_def strict_sorted_iff)

lemma map_of_omap_erase: "map_of (omap_erase k m) = (map_of m)(k := None)"
  by (induction m) (auto simp: omap_erase_def fun_eq_iff)

text \<open>The interface the components rely on, and what follows from it.\<close>

locale kv_store =
  fixes empty :: "'m"
    and look :: "'m \<Rightarrow> 'k \<Rightarrow> 'v option"
    and put :: "'k \<Rightarrow> 'v \<Rightarrow> 'm \<Rightarrow> 'm"
    and erase :: "'k \<Rightarrow> 'm \<Rightarrow> 'm"
    and ok :: "'m \<Rightarrow> bool"
  assumes look_empty: "look empty = (\<lambda>_. None)"
    and look_put: "ok m \<Longrightarrow> look (put k v m) = (look m)(k \<mapsto> v)"
    and look_erase: "ok m \<Longrightarrow> look (erase k m) = (look m)(k := None)"
    and ok_empty: "ok empty"
    and ok_put: "ok m \<Longrightarrow> ok (put k v m)"
    and ok_erase: "ok m \<Longrightarrow> ok (erase k m)"
begin

lemma look_put_same: "ok m \<Longrightarrow> look (put k v m) k = Some v"
  by (simp add: look_put)

lemma look_put_other: "ok m \<Longrightarrow> k' \<noteq> k \<Longrightarrow> look (put k v m) k' = look m k'"
  by (simp add: look_put)

lemma look_erase_same: "ok m \<Longrightarrow> look (erase k m) k = None"
  by (simp add: look_erase)

lemma erase_put: "ok m \<Longrightarrow> look m k = None \<Longrightarrow> look (erase k (put k v m)) = look m"
  by (auto simp: look_erase look_put ok_put fun_eq_iff)

lemma ok_fold_put: "ok m \<Longrightarrow> ok (fold (\<lambda>(k, v). put k v) xs m)"
  by (induction xs arbitrary: m) (auto intro: ok_put)

end

interpretation omap: kv_store "[]" map_of omap_put omap_erase omap_ok
  by unfold_locales (auto simp: map_of_omap_put map_of_omap_erase)

lemma omap_ok_insert [intro]: "omap_ok m \<Longrightarrow> omap_ok (omap_insert k v m)"
  by (auto simp: omap_insert_def split: option.splits)

lemma omap_ok_modify [intro]: "omap_ok m \<Longrightarrow> omap_ok (omap_modify d f k m)"
  by (auto simp: omap_modify_def)

lemma map_of_omap_insert:
  "omap_ok m \<Longrightarrow>
   map_of (omap_insert k v m) =
     (map_of m)(k \<mapsto> (case map_of m k of None \<Rightarrow> v | Some v' \<Rightarrow> v'))"
  by (auto simp: omap_insert_def map_of_omap_put fun_eq_iff split: option.splits)

lemma map_of_omap_modify:
  "omap_ok m \<Longrightarrow>
   map_of (omap_modify d f k m) =
     (map_of m)(k \<mapsto> f (case map_of m k of None \<Rightarrow> d | Some v \<Rightarrow> v))"
  by (auto simp: omap_modify_def map_of_omap_put)

lemma omap_in_set_iff: "omap_ok m \<Longrightarrow> (k, v) \<in> set m \<longleftrightarrow> map_of m k = Some v"
  by (simp add: omap_ok_distinct)

text \<open>
  Sums over the entries of a map: replacing an entry exchanges its contribution. The multisets
  of commands queued for the slaves are such sums.
\<close>

definition omap_sum :: "('k \<times> 'v \<Rightarrow> 'a::comm_monoid_add) \<Rightarrow> ('k, 'v) omap \<Rightarrow> 'a" where
  "omap_sum h m = sum_list (map h m)"

lemma omap_ok_Cons:
  "omap_ok ((k, v) # m) \<longleftrightarrow> omap_ok m \<and> (\<forall>k' \<in> fst ` set m. k < k')"
  by (auto simp: omap_ok_def)

lemma omap_ok_Cons_notin: "omap_ok ((k', v) # m) \<Longrightarrow> k \<le> k' \<Longrightarrow> map_of m k = None"
  by (force simp: omap_ok_Cons map_of_eq_None_iff)

lemma omap_sum_put:
  "omap_ok m \<Longrightarrow>
   omap_sum h (omap_put k v m) + (case map_of m k of None \<Rightarrow> 0 | Some v' \<Rightarrow> h (k, v')) =
   omap_sum h m + h (k, v)"
proof (induction k v m rule: omap_put.induct)
  case (1 k v)
  then show ?case by (simp add: omap_sum_def)
next
  case (2 k v k' v' m)
  consider "k < k'" | "k = k'" | "k' < k" by (rule linorder_cases)
  then show ?case
  proof cases
    case 1
    then have "map_of ((k', v') # m) k = None"
      using omap_ok_Cons_notin [OF "2.prems", of k] by auto
    with 1 show ?thesis by (simp add: omap_sum_def add_ac)
  next
    case 2
    then show ?thesis by (simp add: omap_sum_def add_ac)
  next
    case 3
    with "2.IH" "2.prems" show ?thesis
      by (auto simp: omap_sum_def omap_ok_Cons add_ac split: option.splits)
  qed
qed

lemma omap_sum_modify:
  assumes "omap_ok m"
    and "h (k, f (case map_of m k of None \<Rightarrow> d | Some v \<Rightarrow> v)) =
         (case map_of m k of None \<Rightarrow> 0 | Some v \<Rightarrow> h (k, v)) + (x :: 'a::cancel_comm_monoid_add)"
  shows "omap_sum h (omap_modify d f k m) = omap_sum h m + x"
proof -
  let ?old = "case map_of m k of None \<Rightarrow> 0 | Some v \<Rightarrow> h (k, v)"
  have "omap_sum h (omap_modify d f k m) + ?old = omap_sum h m + x + ?old"
    using omap_sum_put [OF assms(1), of h k "f (case map_of m k of None \<Rightarrow> d | Some v \<Rightarrow> v)"]
      assms(2)
    by (simp add: omap_modify_def add_ac)
  then show ?thesis by simp
qed

lemma mset_concat_entries: "mset (concat (map g m)) = omap_sum (\<lambda>e. mset (g e)) m"
  by (induction m) (simp_all add: omap_sum_def)

end
