(* ===== verification/Modbus_Types.thy ===== *)
theory Modbus_Types
  imports Gateway_Prelude
begin

text \<open>
  \<open>libmodmqttsrv/modbus_types.hpp\<close> and \<open>.cpp\<close>: register types, write modes, the address
  ranges every Modbus message carries, and \<open>PublishMode\<close> of \<open>common.hpp\<close>. The class
  hierarchy \<open>ModbusAddressRange\<close>, \<open>ModbusMessageBase\<close> is a hierarchy of extensible
  records, so that an operation of the base class applies to every message.
\<close>

section \<open>Enumerations\<close>

datatype register_type = COIL | BIT | HOLDING | INPUT

fun register_type_code :: "register_type \<Rightarrow> int" where
  "register_type_code COIL = 1"
| "register_type_code BIT = 2"
| "register_type_code HOLDING = 3"
| "register_type_code INPUT = 4"

lemma register_type_code_inj: "register_type_code a = register_type_code b \<Longrightarrow> a = b"
  by (cases a; cases b) simp_all

datatype write_mode = AUTO | FORCE_MULTIPLE_REGISTERS

datatype publish_mode = ON_CHANGE | EVERY_POLL | ONCE

text \<open>
  How often a mode publishes: \<open>ONCE\<close> least, then \<open>ON_CHANGE\<close>, then \<open>EVERY_POLL\<close>. The
  order makes the merge of two modes their maximum.
\<close>

fun publish_rank :: "publish_mode \<Rightarrow> nat" where
  "publish_rank ONCE = 0"
| "publish_rank ON_CHANGE = 1"
| "publish_rank EVERY_POLL = 2"

lemma publish_rank_inj: "publish_rank a = publish_rank b \<longleftrightarrow> a = b"
  by (cases a; cases b) simp_all

instantiation publish_mode :: linorder
begin

definition less_eq_publish_mode :: "publish_mode \<Rightarrow> publish_mode \<Rightarrow> bool" where
  "a \<le> b \<longleftrightarrow> publish_rank a \<le> publish_rank b"

definition less_publish_mode :: "publish_mode \<Rightarrow> publish_mode \<Rightarrow> bool" where
  "a < b \<longleftrightarrow> publish_rank a < publish_rank b"

instance
  by standard
    (auto simp: less_eq_publish_mode_def less_publish_mode_def publish_rank_inj)

end

section \<open>Address ranges\<close>

record addr_range =
  mRegister :: int
  mCount :: int
  mRegisterType :: register_type

record modbus_msg = addr_range +
  mSlaveId :: int
  mCommandId :: int

definition firstRegister :: "'a addr_range_scheme \<Rightarrow> int" where
  "firstRegister r = mRegister r"

definition lastRegister :: "'a addr_range_scheme \<Rightarrow> int" where
  "lastRegister r = (mRegister r + mCount r) - 1"

definition overlaps :: "'a addr_range_scheme \<Rightarrow> 'b addr_range_scheme \<Rightarrow> bool" where
  "overlaps this poll =
     (if mRegisterType this \<noteq> mRegisterType poll then False
      else firstRegister this \<le> lastRegister poll \<and> firstRegister poll \<le> lastRegister this)"

definition merge_range ::
  "'a addr_range_scheme \<Rightarrow> 'b addr_range_scheme \<Rightarrow> 'a addr_range_scheme" where
  "merge_range this other =
     (let first = (if firstRegister this \<le> firstRegister other
                   then firstRegister this else firstRegister other);
          last = (if lastRegister other \<le> lastRegister this
                  then lastRegister this else lastRegister other)
      in this\<lparr>mRegister := first, mCount := last - first + 1\<rparr>)"

definition isConsecutiveOf :: "'a addr_range_scheme \<Rightarrow> 'b addr_range_scheme \<Rightarrow> bool" where
  "isConsecutiveOf this other \<longleftrightarrow>
     lastRegister this + 1 = firstRegister other \<or> lastRegister other + 1 = firstRegister this"

definition range_isSameAs :: "'a addr_range_scheme \<Rightarrow> 'b addr_range_scheme \<Rightarrow> bool" where
  "range_isSameAs this other =
     (if mRegisterType this \<noteq> mRegisterType other then False
      else mRegister this = mRegister other \<and> mCount this = mCount other)"

definition contains :: "'a addr_range_scheme \<Rightarrow> 'b addr_range_scheme \<Rightarrow> bool" where
  "contains this other =
     (if mRegisterType this \<noteq> mRegisterType other then False
      else firstRegister this \<le> firstRegister other \<and> lastRegister other \<le> lastRegister this)"

definition hasCommandId :: "'a modbus_msg_scheme \<Rightarrow> bool" where
  "hasCommandId m \<longleftrightarrow> mCommandId m \<noteq> 0"

definition isRpc :: "'a modbus_msg_scheme \<Rightarrow> bool" where
  "isRpc m \<longleftrightarrow> mCommandId m < 0"

lemmas range_defs =
  firstRegister_def lastRegister_def overlaps_def merge_range_def isConsecutiveOf_def
  range_isSameAs_def contains_def

section \<open>What a range denotes\<close>

text \<open>The registers a range addresses, as the specification of the operations above.\<close>

definition regs :: "'a addr_range_scheme \<Rightarrow> int set" where
  "regs r = {firstRegister r .. lastRegister r}"

definition range_wf :: "'a addr_range_scheme \<Rightarrow> bool" where
  "range_wf r \<longleftrightarrow> 0 < mCount r"

lemma merge_range_type [simp]: "mRegisterType (merge_range r s) = mRegisterType r"
  by (simp add: merge_range_def Let_def)

lemma merge_range_slave [simp]:
  "mSlaveId (merge_range r s) = mSlaveId (r :: 'a modbus_msg_scheme)"
  by (simp add: merge_range_def Let_def)

lemma merge_range_command [simp]:
  "mCommandId (merge_range r s) = mCommandId (r :: 'a modbus_msg_scheme)"
  by (simp add: merge_range_def Let_def)

lemma merge_range_first [simp]:
  "firstRegister (merge_range r s) = min (firstRegister r) (firstRegister s)"
  by (simp add: merge_range_def Let_def firstRegister_def min_def)

lemma merge_range_last [simp]:
  "lastRegister (merge_range r s) = max (lastRegister r) (lastRegister s)"
  by (auto simp: merge_range_def Let_def firstRegister_def lastRegister_def max_def)

lemma range_wf_iff: "range_wf r \<longleftrightarrow> firstRegister r \<le> lastRegister r"
  by (auto simp: range_wf_def range_defs)

lemma range_wf_merge: "range_wf r \<Longrightarrow> range_wf (merge_range r s)"
  by (auto simp: range_wf_iff)

lemma regs_nonempty: "range_wf r \<longleftrightarrow> regs r \<noteq> {}"
  by (auto simp: range_wf_iff regs_def)

lemma overlaps_sym: "overlaps r s \<longleftrightarrow> overlaps s r"
  by (auto simp: overlaps_def)

lemma overlaps_regs:
  "range_wf r \<Longrightarrow> range_wf s \<Longrightarrow>
   overlaps r s \<longleftrightarrow> mRegisterType r = mRegisterType s \<and> regs r \<inter> regs s \<noteq> {}"
  by (auto simp: overlaps_def regs_def range_wf_iff)

lemma contains_regs:
  "range_wf s \<Longrightarrow>
   contains r s \<longleftrightarrow> mRegisterType r = mRegisterType s \<and> regs s \<subseteq> regs r"
  by (auto simp: contains_def regs_def range_wf_iff)

lemma regs_merge_hull: "regs r \<union> regs s \<subseteq> regs (merge_range r s)"
  by (auto simp: regs_def)

lemma regs_merge_touching:
  "range_wf r \<Longrightarrow> range_wf s \<Longrightarrow> overlaps r s \<or> isConsecutiveOf r s \<Longrightarrow>
   regs (merge_range r s) = regs r \<union> regs s"
  by (auto simp: regs_def overlaps_def isConsecutiveOf_def range_wf_iff split: if_splits)

end
