(* ===== verification/Poll_Specification.thy ===== *)
theory Poll_Specification
  imports Modbus_Types
begin

text \<open>
  \<open>MsgRegisterPoll\<close> and \<open>MsgRegisterPollSpecification\<close> of
  \<open>libmodmqttsrv/modbus_messages.hpp\<close> and \<open>.cpp\<close>: the poll groups of a Modbus network and
  how requested registers are merged into them.
\<close>

section \<open>Poll requests\<close>

record msg_register_poll = modbus_msg +
  mRefreshMsec :: int
  mPublishMode :: publish_mode

definition INVALID_REFRESH :: int where
  "INVALID_REFRESH = - 1"

definition new_register_poll ::
  "int \<Rightarrow> int \<Rightarrow> register_type \<Rightarrow> int \<Rightarrow> msg_register_poll" where
  "new_register_poll slave reg ty n =
     \<lparr>mRegister = reg, mCount = n, mRegisterType = ty, mSlaveId = slave, mCommandId = 0,
      mRefreshMsec = INVALID_REFRESH, mPublishMode = ON_CHANGE\<rparr>"

definition merge_refresh :: "int \<Rightarrow> int \<Rightarrow> int" where
  "merge_refresh this other =
     (if this = INVALID_REFRESH then other
      else if other \<noteq> INVALID_REFRESH \<and> other < this then other
      else this)"

fun merge_publish_mode :: "publish_mode \<Rightarrow> publish_mode \<Rightarrow> publish_mode" where
  "merge_publish_mode EVERY_POLL other = EVERY_POLL"
| "merge_publish_mode ON_CHANGE other = (if other = EVERY_POLL then other else ON_CHANGE)"
| "merge_publish_mode ONCE other = other"

definition merge_poll ::
  "msg_register_poll \<Rightarrow> msg_register_poll \<Rightarrow> msg_register_poll" where
  "merge_poll this other =
     (merge_range this other)
       \<lparr>mRefreshMsec := merge_refresh (mRefreshMsec this) (mRefreshMsec other),
        mPublishMode := merge_publish_mode (mPublishMode this) (mPublishMode other)\<rparr>"

definition poll_isSameAs :: "msg_register_poll \<Rightarrow> msg_register_poll \<Rightarrow> bool" where
  "poll_isSameAs this other =
     (if \<not> range_isSameAs this other then False
      else if mSlaveId this \<noteq> mSlaveId other then False
      else mRegister this = mRegister other \<and> mCount this = mCount other)"

section \<open>The specification of a network\<close>

record poll_spec =
  specNetworkName :: string
  specRegisters :: "msg_register_poll list"

text \<open>
  The loop of \<open>merge(const MsgRegisterPoll&)\<close>: it walks the registers, moves those of the same
  slave that overlap the new poll into \<open>overlaped\<close> and leaves the others in place.
\<close>

fun extract_overlaped ::
  "msg_register_poll \<Rightarrow> msg_register_poll list
    \<Rightarrow> msg_register_poll list \<times> msg_register_poll list" where
  "extract_overlaped poll [] = ([], [])"
| "extract_overlaped poll (r # rs) =
     (let (overlaped, rest) = extract_overlaped poll rs
      in if mSlaveId poll = mSlaveId r \<and> overlaps poll r then (r # overlaped, rest)
         else (overlaped, r # rest))"

definition merge_registers ::
  "msg_register_poll list \<Rightarrow> msg_register_poll \<Rightarrow> msg_register_poll list" where
  "merge_registers rs poll =
     (let (overlaped, rest) = extract_overlaped poll rs
      in if overlaped = [] then rest @ [poll]
         else rest @ [foldl merge_poll poll overlaped])"

definition spec_merge :: "poll_spec \<Rightarrow> msg_register_poll \<Rightarrow> poll_spec" where
  "spec_merge s poll = s\<lparr>specRegisters := merge_registers (specRegisters s) poll\<rparr>"

definition spec_merge_list :: "poll_spec \<Rightarrow> msg_register_poll list \<Rightarrow> poll_spec" where
  "spec_merge_list s lst = foldl spec_merge s lst"

definition empty_spec :: "string \<Rightarrow> poll_spec" where
  "empty_spec network = \<lparr>specNetworkName = network, specRegisters = []\<rparr>"

text \<open>
  \<open>group()\<close>: the registers are collected per slave and register type, sorted by register
  number, and runs of consecutive ranges are merged. The order of equal elements after
  \<open>std::sort\<close> is unspecified, so the sorting function is a parameter.
\<close>

type_synonym reg_type_map = "(int, msg_register_poll list) omap"

definition collect_registers :: "msg_register_poll list \<Rightarrow> (int, reg_type_map) omap" where
  "collect_registers rs =
     foldl (\<lambda>m r. omap_modify []
              (omap_modify [] (\<lambda>q. q @ [r]) (register_type_code (mRegisterType r)))
              (mSlaveId r) m) [] rs"

fun group_run :: "msg_register_poll \<Rightarrow> msg_register_poll list \<Rightarrow> msg_register_poll list" where
  "group_run g [] = [g]"
| "group_run g (r # rs) =
     (if isConsecutiveOf g r then group_run (merge_poll g r) rs
      else g # group_run r rs)"

fun group_sorted :: "msg_register_poll list \<Rightarrow> msg_register_poll list" where
  "group_sorted [] = []"
| "group_sorted (r # rs) = group_run r rs"

definition group_registers ::
  "(msg_register_poll list \<Rightarrow> msg_register_poll list)
    \<Rightarrow> msg_register_poll list \<Rightarrow> msg_register_poll list" where
  "group_registers std_sort rs =
     concat (map (\<lambda>slave. concat (map (\<lambda>regtype. group_sorted (std_sort (snd regtype)))
                                     (snd slave)))
                 (collect_registers rs))"

definition spec_group ::
  "(msg_register_poll list \<Rightarrow> msg_register_poll list) \<Rightarrow> poll_spec \<Rightarrow> poll_spec" where
  "spec_group std_sort s = s\<lparr>specRegisters := group_registers std_sort (specRegisters s)\<rparr>"

section \<open>Merging two polls\<close>

lemma merge_publish_mode_max: "merge_publish_mode a b = max a b"
  by (cases a; cases b) (simp_all add: max_def less_eq_publish_mode_def)

lemma merge_poll_bounds [simp]:
  "firstRegister (merge_poll a b) = min (firstRegister a) (firstRegister b)"
  "lastRegister (merge_poll a b) = max (lastRegister a) (lastRegister b)"
proof -
  have "firstRegister (merge_poll a b) = firstRegister (merge_range a b)"
    and "lastRegister (merge_poll a b) = lastRegister (merge_range a b)"
    by (simp_all add: merge_poll_def firstRegister_def lastRegister_def)
  then show "firstRegister (merge_poll a b) = min (firstRegister a) (firstRegister b)"
    and "lastRegister (merge_poll a b) = max (lastRegister a) (lastRegister b)"
    by simp_all
qed

lemma merge_poll_sel [simp]:
  "mRegisterType (merge_poll a b) = mRegisterType a"
  "mSlaveId (merge_poll a b) = mSlaveId a"
  "mRefreshMsec (merge_poll a b) = merge_refresh (mRefreshMsec a) (mRefreshMsec b)"
  "mPublishMode (merge_poll a b) = max (mPublishMode a) (mPublishMode b)"
  by (simp_all add: merge_poll_def merge_publish_mode_max)

lemma overlaps_merge_poll: "overlaps a c \<Longrightarrow> overlaps (merge_poll a b) c"
  by (auto simp: overlaps_def split: if_splits)

lemma range_wf_merge_poll: "range_wf a \<Longrightarrow> range_wf (merge_poll a b)"
  by (auto simp: range_wf_iff)

lemma regs_merge_poll_subset: "regs a \<union> regs b \<subseteq> regs (merge_poll a b)"
  by (auto simp: regs_def)

lemma regs_merge_poll:
  "range_wf a \<Longrightarrow> range_wf b \<Longrightarrow> overlaps a b \<or> isConsecutiveOf a b \<Longrightarrow>
   regs (merge_poll a b) = regs a \<union> regs b"
  by (auto simp: regs_def overlaps_def isConsecutiveOf_def range_wf_iff split: if_splits)

text \<open>
  A group \<open>g\<close> serves a request \<open>p\<close>: it polls all registers of the request, at least as often
  as asked and publishing at least as eagerly.
\<close>

definition serves :: "msg_register_poll \<Rightarrow> msg_register_poll \<Rightarrow> bool" where
  "serves g p \<longleftrightarrow> mSlaveId g = mSlaveId p \<and> contains g p \<and> mPublishMode p \<le> mPublishMode g \<and>
     (mRefreshMsec p = INVALID_REFRESH \<or>
      mRefreshMsec g \<noteq> INVALID_REFRESH \<and> mRefreshMsec g \<le> mRefreshMsec p)"

lemma serves_refl [simp]: "serves p p"
  by (simp add: serves_def contains_def)

lemma serves_merge_left: "serves g p \<Longrightarrow> serves (merge_poll g b) p"
  by (auto simp: serves_def contains_def merge_refresh_def le_max_iff_disj split: if_splits)

lemma serves_merge_right:
  "serves b p \<Longrightarrow> mSlaveId g = mSlaveId b \<Longrightarrow> mRegisterType g = mRegisterType b \<Longrightarrow>
   serves (merge_poll g b) p"
  by (auto simp: serves_def contains_def merge_refresh_def le_max_iff_disj split: if_splits)

section \<open>Merging a poll into a specification\<close>

text \<open>Two groups clash when a register of one slave would be polled by both.\<close>

definition clash :: "msg_register_poll \<Rightarrow> msg_register_poll \<Rightarrow> bool" where
  "clash a b \<longleftrightarrow> mSlaveId a = mSlaveId b \<and> overlaps a b"

fun groups_ok :: "msg_register_poll list \<Rightarrow> bool" where
  "groups_ok [] = True"
| "groups_ok (r # rs) = (range_wf r \<and> list_all (\<lambda>s. \<not> clash r s) rs \<and> groups_ok rs)"

text \<open>The registers of a slave and a type that some group polls.\<close>

definition covered :: "msg_register_poll list \<Rightarrow> int \<Rightarrow> register_type \<Rightarrow> int set" where
  "covered rs slave ty =
     (\<Union>r \<in> {r \<in> set rs. mSlaveId r = slave \<and> mRegisterType r = ty}. regs r)"

lemma clash_sym: "clash a b \<longleftrightarrow> clash b a"
  unfolding clash_def using overlaps_sym [of a b] by auto

lemma clash_same: "clash a b \<Longrightarrow> mSlaveId b = mSlaveId a \<and> mRegisterType b = mRegisterType a"
  by (simp add: clash_def overlaps_def split: if_splits)

lemma extract_overlaped_filter:
  "extract_overlaped poll rs = (filter (clash poll) rs, filter (\<lambda>r. \<not> clash poll r) rs)"
  by (induction rs) (auto simp: clash_def)

lemma merge_registers_eq:
  "merge_registers rs poll =
     filter (\<lambda>r. \<not> clash poll r) rs @ [foldl merge_poll poll (filter (clash poll) rs)]"
  by (simp add: merge_registers_def extract_overlaped_filter)

lemma groups_ok_append:
  "groups_ok (xs @ ys) \<longleftrightarrow>
   groups_ok xs \<and> groups_ok ys \<and> (\<forall>x \<in> set xs. \<forall>y \<in> set ys. \<not> clash x y)"
  by (induction xs) (auto simp: list_all_iff)

lemma groups_ok_filter: "groups_ok rs \<Longrightarrow> groups_ok (filter P rs)"
  by (induction rs) (auto simp: list_all_iff)

lemma groups_ok_wf: "groups_ok rs \<Longrightarrow> r \<in> set rs \<Longrightarrow> range_wf r"
  by (induction rs) auto

lemma groups_ok_clash:
  "groups_ok rs \<Longrightarrow> a \<in> set rs \<Longrightarrow> b \<in> set rs \<Longrightarrow> clash a b \<Longrightarrow> a = b"
  by (induction rs) (auto simp: list_all_iff dest: clash_sym [THEN iffD1])

lemma groups_ok_distinct: "groups_ok rs \<Longrightarrow> distinct rs"
  by (induction rs) (auto simp: list_all_iff clash_def overlaps_def range_wf_iff)

text \<open>Merging ranges that all touch the first one yields exactly their union.\<close>

lemma foldl_merge_poll_sel:
  "mSlaveId (foldl merge_poll p os) = mSlaveId p"
  "mRegisterType (foldl merge_poll p os) = mRegisterType p"
  by (induction os arbitrary: p) auto

lemma foldl_merge_poll_regs:
  assumes "range_wf p" and "\<forall>r \<in> set os. range_wf r \<and> overlaps p r"
  shows "range_wf (foldl merge_poll p os) \<and>
         regs (foldl merge_poll p os) = regs p \<union> (\<Union>r \<in> set os. regs r)"
  using assms
proof (induction os arbitrary: p)
  case Nil
  then show ?case by simp
next
  case (Cons a os)
  let ?p = "merge_poll p a"
  have eq: "regs ?p = regs p \<union> regs a"
    using Cons.prems by (intro regs_merge_poll) auto
  have wf: "range_wf ?p"
    using Cons.prems by (simp add: range_wf_merge_poll)
  have "\<forall>r \<in> set os. range_wf r \<and> overlaps ?p r"
    using Cons.prems by (auto intro: overlaps_merge_poll)
  from Cons.IH [OF wf this] show ?case
    by (auto simp: eq)
qed

lemma foldl_merge_poll_serves:
  assumes "\<forall>r \<in> set os. mSlaveId r = mSlaveId p \<and> mRegisterType r = mRegisterType p"
  shows "serves p q \<or> (\<exists>r \<in> set os. serves r q) \<Longrightarrow> serves (foldl merge_poll p os) q"
  using assms
proof (induction os arbitrary: p)
  case Nil
  then show ?case by simp
next
  case (Cons a os)
  have "serves (merge_poll p a) q \<or> (\<exists>r \<in> set os. serves r q)"
    using Cons.prems by (auto intro: serves_merge_left serves_merge_right)
  moreover have "\<forall>r \<in> set os. mSlaveId r = mSlaveId (merge_poll p a) \<and>
      mRegisterType r = mRegisterType (merge_poll p a)"
    using Cons.prems by simp
  ultimately show ?case
    using Cons.IH by simp
qed


lemma merged_group:
  assumes "groups_ok rs" and "range_wf poll"
  defines "g \<equiv> foldl merge_poll poll (filter (clash poll) rs)"
  shows "range_wf g" and "mSlaveId g = mSlaveId poll" and "mRegisterType g = mRegisterType poll"
    and "regs g = regs poll \<union> (\<Union>r \<in> {r \<in> set rs. clash poll r}. regs r)"
proof -
  have "\<forall>r \<in> set (filter (clash poll) rs). range_wf r \<and> overlaps poll r"
    using assms(1) by (auto simp: clash_def dest: groups_ok_wf)
  from foldl_merge_poll_regs [OF assms(2) this]
  show "range_wf g" and "regs g = regs poll \<union> (\<Union>r \<in> {r \<in> set rs. clash poll r}. regs r)"
    by (simp_all add: g_def)
qed (simp_all add: g_def foldl_merge_poll_sel)

lemma groups_ok_merge_registers:
  assumes ok: "groups_ok rs" and wf: "range_wf poll"
  shows "groups_ok (merge_registers rs poll)"
proof -
  let ?g = "foldl merge_poll poll (filter (clash poll) rs)"
  note g = merged_group [OF ok wf]
  have "\<not> clash x ?g" if x: "x \<in> set rs" "\<not> clash poll x" for x
  proof
    assume "clash x ?g"
    moreover have "range_wf x" using ok x by (blast dest: groups_ok_wf)
    ultimately obtain i where i: "i \<in> regs x" "i \<in> regs ?g"
      and s: "mSlaveId x = mSlaveId poll" "mRegisterType x = mRegisterType poll"
      using g by (auto simp: clash_def overlaps_regs)
    from i(2) consider "i \<in> regs poll" | r where "r \<in> set rs" "clash poll r" "i \<in> regs r"
      using g(4) by auto
    then show False
    proof cases
      case 1
      then show False
        using i s x \<open>range_wf x\<close> wf by (auto simp: clash_def overlaps_regs)
    next
      case (2 r)
      then have "mSlaveId r = mSlaveId poll" "mRegisterType r = mRegisterType poll" "range_wf r"
        using ok by (auto simp: clash_def overlaps_def dest: groups_ok_wf split: if_splits)
      then have "clash x r"
        using i(1) 2 s \<open>range_wf x\<close> by (auto simp: clash_def overlaps_regs)
      then have "x = r"
        using groups_ok_clash [OF ok] x 2 by blast
      then show False using x 2 by simp
    qed
  qed
  then show ?thesis
    using ok g by (auto simp: merge_registers_eq groups_ok_append groups_ok_filter)
qed

lemma covered_append: "covered (xs @ ys) slave ty = covered xs slave ty \<union> covered ys slave ty"
  by (auto simp: covered_def)

lemma covered_single:
  "covered [r] slave ty = (if mSlaveId r = slave \<and> mRegisterType r = ty then regs r else {})"
  by (auto simp: covered_def)

lemma covered_partition:
  "covered rs slave ty = covered (filter P rs) slave ty \<union> covered (filter (\<lambda>r. \<not> P r) rs) slave ty"
  by (auto simp: covered_def)

lemma covered_clashing:
  "covered (filter (clash poll) rs) slave ty =
     (if mSlaveId poll = slave \<and> mRegisterType poll = ty
      then \<Union>r \<in> {r \<in> set rs. clash poll r}. regs r else {})"
proof -
  have "{r \<in> set (filter (clash poll) rs). mSlaveId r = slave \<and> mRegisterType r = ty} =
      (if mSlaveId poll = slave \<and> mRegisterType poll = ty then {r \<in> set rs. clash poll r} else {})"
  proof (cases "mSlaveId poll = slave \<and> mRegisterType poll = ty")
    case True
    then show ?thesis by (auto dest: clash_same)
  next
    case False
    then show ?thesis by (auto dest!: clash_same)
  qed
  then show ?thesis by (simp add: covered_def)
qed

lemma covered_merge_registers:
  assumes "groups_ok rs" and "range_wf poll"
  shows "covered (merge_registers rs poll) slave ty =
     covered rs slave ty \<union>
     (if mSlaveId poll = slave \<and> mRegisterType poll = ty then regs poll else {})"
proof -
  let ?U = "\<Union>r \<in> {r \<in> set rs. clash poll r}. regs r"
  have "covered rs slave ty = (if mSlaveId poll = slave \<and> mRegisterType poll = ty then ?U else {})
      \<union> covered (filter (\<lambda>r. \<not> clash poll r) rs) slave ty"
    using covered_partition [of rs slave ty "clash poll"] by (simp only: covered_clashing)
  moreover have "covered (merge_registers rs poll) slave ty =
      covered (filter (\<lambda>r. \<not> clash poll r) rs) slave ty \<union>
      (if mSlaveId poll = slave \<and> mRegisterType poll = ty then regs poll \<union> ?U else {})"
    using merged_group [OF assms]
    by (simp only: merge_registers_eq covered_append covered_single)
  ultimately show ?thesis by auto
qed

lemma merge_registers_serves:
  assumes "\<exists>r \<in> set (poll # rs). serves r q"
  shows "\<exists>g \<in> set (merge_registers rs poll). serves g q"
proof -
  have *: "\<forall>r \<in> set (filter (clash poll) rs).
      mSlaveId r = mSlaveId poll \<and> mRegisterType r = mRegisterType poll"
    by (auto simp: clash_def overlaps_def split: if_splits)
  from assms show ?thesis
    using foldl_merge_poll_serves [OF *, of q] by (auto simp: merge_registers_eq)
qed

lemma spec_merge_list_Nil [simp]: "spec_merge_list s [] = s"
  by (simp add: spec_merge_list_def)

lemma spec_merge_list_Cons [simp]:
  "spec_merge_list s (p # ps) = spec_merge_list (spec_merge s p) ps"
  by (simp add: spec_merge_list_def)

lemma specRegisters_merge [simp]:
  "specRegisters (spec_merge s p) = merge_registers (specRegisters s) p"
  by (simp add: spec_merge_def)

lemma groups_ok_spec_merge_list:
  "groups_ok (specRegisters s) \<Longrightarrow> \<forall>p \<in> set ps. range_wf p \<Longrightarrow>
   groups_ok (specRegisters (spec_merge_list s ps))"
  by (induction ps arbitrary: s) (simp_all add: groups_ok_merge_registers)

lemma spec_merge_list_serves:
  "\<exists>r \<in> set (ps @ specRegisters s). serves r q \<Longrightarrow>
   \<exists>g \<in> set (specRegisters (spec_merge_list s ps)). serves g q"
proof (induction ps arbitrary: s)
  case Nil
  then show ?case by simp
next
  case (Cons p ps)
  have "\<exists>r \<in> set (ps @ specRegisters (spec_merge s p)). serves r q"
    using Cons.prems merge_registers_serves [of p "specRegisters s" q] by auto
  then show ?case using Cons.IH by simp
qed

lemma covered_spec_merge_list:
  "groups_ok (specRegisters s) \<Longrightarrow> \<forall>p \<in> set ps. range_wf p \<Longrightarrow>
   covered (specRegisters (spec_merge_list s ps)) slave ty =
     covered (specRegisters s) slave ty \<union> covered ps slave ty"
proof (induction ps arbitrary: s)
  case Nil
  then show ?case by (simp add: covered_def)
next
  case (Cons p ps)
  then have "covered (specRegisters (spec_merge_list s (p # ps))) slave ty =
      covered (merge_registers (specRegisters s) p) slave ty \<union> covered ps slave ty"
    by (simp add: groups_ok_merge_registers)
  then show ?case
    using Cons.prems by (auto simp: covered_merge_registers) (auto simp: covered_def)
qed

section \<open>Properties of the merge\<close>

text \<open>
  C3: merging a request keeps the poll groups of a network pairwise disjoint (no register of a
  slave is polled by two groups, as \<open>MqttClient\<close> assumes), and the registers polled afterwards
  are exactly those polled before plus the requested ones.
\<close>

theorem merge_keeps_groups_disjoint_and_exact:
  assumes "groups_ok (specRegisters s)" and "range_wf poll"
  shows "groups_ok (specRegisters (spec_merge s poll)) \<and>
    covered (specRegisters (spec_merge s poll)) slave ty =
      covered (specRegisters s) slave ty \<union>
      (if mSlaveId poll = slave \<and> mRegisterType poll = ty then regs poll else {})"
  using assms by (simp add: groups_ok_merge_registers covered_merge_registers)

definition demo_poll :: "int \<Rightarrow> int \<Rightarrow> int \<Rightarrow> msg_register_poll" where
  "demo_poll reg n refresh =
     (new_register_poll 1 reg HOLDING n)\<lparr>mRefreshMsec := refresh\<rparr>"

theorem merge_keeps_groups_disjoint_and_exact_witness:
  "groups_ok (specRegisters (spec_merge
     \<lparr>specNetworkName = ''net'', specRegisters = [demo_poll 1 2 500, demo_poll 3 2 200]\<rparr>
     (demo_poll 2 2 1000)))"
proof -
  let ?s = "\<lparr>specNetworkName = ''net'', specRegisters = [demo_poll 1 2 500, demo_poll 3 2 200]\<rparr>"
  have "groups_ok (specRegisters ?s)" and "range_wf (demo_poll 2 2 1000)"
    by (simp_all add: demo_poll_def new_register_poll_def range_defs range_wf_def clash_def)
  from merge_keeps_groups_disjoint_and_exact [OF this, of 1 HOLDING] show ?thesis by simp
qed

text \<open>
  C4: after a whole configuration has been merged, every request is served by exactly one poll
  group: the only group of its slave that contains its registers polls at least as often as
  requested and publishes at least as eagerly.
\<close>

theorem every_request_served_by_one_group:
  assumes "\<forall>p \<in> set ps. range_wf p" and "q \<in> set ps"
  shows "(\<exists>!g. g \<in> set (specRegisters (spec_merge_list (empty_spec n) ps)) \<and>
            mSlaveId g = mSlaveId q \<and> contains g q) \<and>
         (\<exists>g. g \<in> set (specRegisters (spec_merge_list (empty_spec n) ps)) \<and> serves g q)"
proof -
  let ?rs = "specRegisters (spec_merge_list (empty_spec n) ps)"
  have ok: "groups_ok ?rs"
    using assms(1) by (intro groups_ok_spec_merge_list) (auto simp: empty_spec_def)
  have serve: "\<exists>g \<in> set ?rs. serves g q"
    using assms(2) by (intro spec_merge_list_serves) (auto intro!: bexI [of _ q])
  have wf: "range_wf q" using assms by blast
  have "g = h" if "g \<in> set ?rs" "h \<in> set ?rs" "mSlaveId g = mSlaveId q" "contains g q"
    "mSlaveId h = mSlaveId q" "contains h q" for g h
  proof (rule groups_ok_clash [OF ok that(1,2)])
    show "clash g h"
      using that wf by (auto simp: clash_def contains_def overlaps_def range_wf_iff split: if_splits)
  qed
  with serve show ?thesis
    by (auto simp: serves_def)
qed

theorem every_request_served_by_one_group_witness:
  "\<exists>!g. g \<in> set (specRegisters (spec_merge_list (empty_spec ''net'')
        [demo_poll 1 2 500, demo_poll 2 2 200])) \<and>
     mSlaveId g = mSlaveId (demo_poll 1 2 500) \<and> contains g (demo_poll 1 2 500)"
proof -
  let ?ps = "[demo_poll 1 2 500, demo_poll 2 2 200]"
  have "\<forall>p \<in> set ?ps. range_wf p" and "demo_poll 1 2 500 \<in> set ?ps"
    by (simp_all add: demo_poll_def new_register_poll_def range_wf_def)
  from every_request_served_by_one_group [OF this, of "''net''"] show ?thesis by blast
qed

section \<open>Grouping consecutive registers\<close>

lemma covered_set_cong: "set xs = set ys \<Longrightarrow> covered xs slave ty = covered ys slave ty"
  by (simp add: covered_def)

lemma covered_concat:
  "covered (concat xss) slave ty = (\<Union>xs \<in> set xss. covered xs slave ty)"
  by (auto simp: covered_def)

definition same_bucket :: "msg_register_poll \<Rightarrow> msg_register_poll \<Rightarrow> bool" where
  "same_bucket a b \<longleftrightarrow> mSlaveId a = mSlaveId b \<and> mRegisterType a = mRegisterType b"

lemma covered_group_run:
  "range_wf g \<Longrightarrow> \<forall>r \<in> set rs. range_wf r \<and> same_bucket g r \<Longrightarrow>
   covered (group_run g rs) slave ty = covered (g # rs) slave ty"
proof (induction g rs rule: group_run.induct)
  case (1 g)
  then show ?case by simp
next
  case (2 g r rs)
  have cons: "covered (x # xs) slave ty = covered [x] slave ty \<union> covered xs slave ty" for x xs
    using covered_append [of "[x]" xs] by simp
  show ?case
  proof (cases "isConsecutiveOf g r")
    case True
    have "covered [merge_poll g r] slave ty = covered [g] slave ty \<union> covered [r] slave ty"
      using 2 True regs_merge_poll [of g r] by (simp add: covered_single same_bucket_def)
    moreover have "covered (group_run (merge_poll g r) rs) slave ty =
        covered (merge_poll g r # rs) slave ty"
      using 2 True by (intro "2.IH"(1)) (auto simp: range_wf_merge_poll same_bucket_def)
    ultimately show ?thesis
      using True cons [of "merge_poll g r" rs] cons [of g "r # rs"] cons [of r rs]
      by (simp add: Un_assoc)
  next
    case False
    have "covered (group_run r rs) slave ty = covered (r # rs) slave ty"
      using 2 False by (intro "2.IH"(2)) (auto simp: same_bucket_def)
    then show ?thesis
      using False cons [of g "group_run r rs"] cons [of g "r # rs"] by simp
  qed
qed

lemma covered_group_sorted:
  "\<forall>r \<in> set rs. range_wf r \<Longrightarrow> \<forall>r \<in> set rs. \<forall>s \<in> set rs. same_bucket r s \<Longrightarrow>
   covered (group_sorted rs) slave ty = covered rs slave ty"
  by (cases rs) (simp_all add: covered_group_run)

text \<open>The buckets: each holds polls of one slave and one type, none is empty, nothing is lost.\<close>

definition bucket_polls :: "(int, reg_type_map) omap \<Rightarrow> msg_register_poll multiset" where
  "bucket_polls m = omap_sum (\<lambda>e. omap_sum (\<lambda>b. mset (snd b)) (snd e)) m"

definition bucket_ok :: "int \<Rightarrow> reg_type_map \<Rightarrow> bool" where
  "bucket_ok s tm \<longleftrightarrow> omap_ok tm \<and> (\<forall>t q. map_of tm t = Some q \<longrightarrow> q \<noteq> [] \<and>
     (\<forall>p \<in> set q. mSlaveId p = s \<and> register_type_code (mRegisterType p) = t))"

definition buckets_ok :: "(int, reg_type_map) omap \<Rightarrow> bool" where
  "buckets_ok m \<longleftrightarrow> omap_ok m \<and> (\<forall>s tm. map_of m s = Some tm \<longrightarrow> bucket_ok s tm)"

definition add_to_bucket ::
  "(int, reg_type_map) omap \<Rightarrow> msg_register_poll \<Rightarrow> (int, reg_type_map) omap" where
  "add_to_bucket m r =
     omap_modify [] (omap_modify [] (\<lambda>q. q @ [r]) (register_type_code (mRegisterType r)))
       (mSlaveId r) m"

lemma collect_registers_fold: "collect_registers rs = foldl add_to_bucket [] rs"
proof -
  have "(\<lambda>m r. omap_modify []
          (omap_modify [] (\<lambda>q. q @ [r]) (register_type_code (mRegisterType r)))
          (mSlaveId r) m) = add_to_bucket"
    by (simp add: fun_eq_iff add_to_bucket_def)
  then show ?thesis by (simp add: collect_registers_def)
qed

lemma add_to_bucket_polls:
  assumes "buckets_ok m"
  shows "bucket_polls (add_to_bucket m r) = bucket_polls m + {#r#}"
  unfolding bucket_polls_def add_to_bucket_def
proof (rule omap_sum_modify)
  show "omap_ok m" using assms by (simp add: buckets_ok_def)
  let ?tm = "case map_of m (mSlaveId r) of None \<Rightarrow> [] | Some v \<Rightarrow> v"
  let ?code = "register_type_code (mRegisterType r)"
  have "omap_ok ?tm"
    using assms by (auto simp: buckets_ok_def bucket_ok_def split: option.splits)
  then have "omap_sum (\<lambda>b. mset (snd b)) (omap_modify [] (\<lambda>q. q @ [r]) ?code ?tm) =
      omap_sum (\<lambda>b. mset (snd b)) ?tm + {#r#}"
    by (rule omap_sum_modify) (simp split: option.splits)
  then show "omap_sum (\<lambda>b. mset (snd b))
       (snd (mSlaveId r, omap_modify [] (\<lambda>q. q @ [r]) ?code ?tm)) =
     (case map_of m (mSlaveId r) of None \<Rightarrow> 0
      | Some v \<Rightarrow> omap_sum (\<lambda>b. mset (snd b)) (snd (mSlaveId r, v))) + {#r#}"
    by (simp add: omap_sum_def split: option.splits)
qed

lemma bucket_ok_add:
  assumes "bucket_ok (mSlaveId r) tm"
  shows "bucket_ok (mSlaveId r)
     (omap_modify [] (\<lambda>q. q @ [r]) (register_type_code (mRegisterType r)) tm)"
proof -
  have ok: "omap_ok tm" using assms by (simp add: bucket_ok_def)
  show ?thesis
    using assms ok
    by (cases "map_of tm (register_type_code (mRegisterType r))")
      (auto simp: bucket_ok_def map_of_omap_modify split: if_splits)
qed

lemma add_to_bucket_ok:
  assumes "buckets_ok m"
  shows "buckets_ok (add_to_bucket m r)"
proof -
  let ?tm = "case map_of m (mSlaveId r) of None \<Rightarrow> [] | Some v \<Rightarrow> v"
  have ok: "omap_ok m" and tm: "bucket_ok (mSlaveId r) ?tm"
    using assms by (auto simp: buckets_ok_def bucket_ok_def split: option.splits)
  have "map_of (add_to_bucket m r) = (map_of m)(mSlaveId r \<mapsto>
      omap_modify [] (\<lambda>q. q @ [r]) (register_type_code (mRegisterType r)) ?tm)"
    using ok by (simp add: add_to_bucket_def map_of_omap_modify)
  moreover have "omap_ok (add_to_bucket m r)"
    using ok by (auto simp: add_to_bucket_def)
  ultimately show ?thesis
    using assms bucket_ok_add [OF tm] by (auto simp: buckets_ok_def split: if_splits)
qed

lemma collect_registers_ok:
  "buckets_ok (collect_registers rs) \<and> bucket_polls (collect_registers rs) = mset rs"
proof (induction rs rule: rev_induct)
  case Nil
  then show ?case
    by (simp add: collect_registers_fold buckets_ok_def bucket_polls_def omap_sum_def)
next
  case (snoc r rs)
  then show ?case by (simp add: collect_registers_fold add_to_bucket_ok add_to_bucket_polls)
qed

lemma bucket_polls_iff:
  "p \<in># bucket_polls m \<longleftrightarrow> (\<exists>s tm t q. (s, tm) \<in> set m \<and> (t, q) \<in> set tm \<and> p \<in> set q)"
proof -
  have inner: "p \<in># omap_sum (\<lambda>b. mset (snd b)) tm \<longleftrightarrow> (\<exists>t q. (t, q) \<in> set tm \<and> p \<in> set q)"
    for tm :: reg_type_map
    by (induction tm) (auto simp: omap_sum_def, blast+)
  have "p \<in># bucket_polls m \<longleftrightarrow>
      (\<exists>e \<in> set m. p \<in># omap_sum (\<lambda>b. mset (snd b)) (snd e))"
    unfolding bucket_polls_def by (induction m) (simp_all add: omap_sum_def)
  then show ?thesis
    unfolding inner by force
qed

text \<open>Groups that neither overlap nor touch.\<close>

definition separated :: "msg_register_poll \<Rightarrow> msg_register_poll \<Rightarrow> bool" where
  "separated a b \<longleftrightarrow> lastRegister a + 1 < firstRegister b"

lemma group_run_separated:
  assumes "range_wf g" and "\<forall>r \<in> set rs. range_wf r \<and> lastRegister g < firstRegister r"
    and "sorted_wrt (\<lambda>a b. lastRegister a < firstRegister b) rs"
  shows "sorted_wrt separated (group_run g rs) \<and>
         (\<forall>x \<in> set (group_run g rs). firstRegister g \<le> firstRegister x)"
  using assms
proof (induction g rs rule: group_run.induct)
  case (1 g)
  then show ?case by simp
next
  case (2 g r rs)
  show ?case
  proof (cases "isConsecutiveOf g r")
    case True
    have "sorted_wrt separated (group_run (merge_poll g r) rs) \<and>
        (\<forall>x \<in> set (group_run (merge_poll g r) rs). firstRegister (merge_poll g r) \<le> firstRegister x)"
      using 2 True by (intro "2.IH"(1)) (auto simp: range_wf_merge_poll)
    then show ?thesis
      using True "2.prems" by (fastforce simp: range_wf_iff)
  next
    case False
    have rest: "sorted_wrt separated (group_run r rs) \<and>
        (\<forall>x \<in> set (group_run r rs). firstRegister r \<le> firstRegister x)"
      using 2 False by (intro "2.IH"(2)) auto
    then have "\<forall>x \<in> set (group_run r rs). firstRegister r \<le> firstRegister x" by simp
    moreover have "lastRegister g + 1 < firstRegister r"
      using False "2.prems" by (auto simp: isConsecutiveOf_def)
    moreover have "firstRegister g \<le> lastRegister g"
      using "2.prems"(1) by (simp add: range_wf_iff)
    ultimately have "\<forall>x \<in> set (group_run r rs).
        separated g x \<and> firstRegister g \<le> firstRegister x"
      unfolding separated_def
      by (metis add1_zle_eq le_less_trans less_imp_le not_le order.strict_trans2)
    with rest show ?thesis
      using False by simp
  qed
qed

lemma sorted_disjoint_gap:
  assumes "sorted (map mRegister rs)" and "groups_ok rs"
    and "\<forall>r \<in> set rs. \<forall>s \<in> set rs. same_bucket r s"
  shows "sorted_wrt (\<lambda>a b. lastRegister a < firstRegister b) rs"
  using assms
proof (induction rs)
  case Nil
  then show ?case by simp
next
  case (Cons r rs)
  have "lastRegister r < firstRegister s" if s: "s \<in> set rs" for s
  proof -
    have "\<not> clash r s" and "range_wf s" and "firstRegister r \<le> firstRegister s"
      and "same_bucket r s"
      using Cons.prems s by (auto simp: list_all_iff firstRegister_def dest: groups_ok_wf)
    then show ?thesis
      unfolding clash_def overlaps_def same_bucket_def range_wf_iff by auto
  qed
  then show ?case using Cons by auto
qed

text \<open>What the specification needs of \<open>std::sort\<close> with \<open>registerNumberCompare\<close>.\<close>

locale poll_sorter =
  fixes std_sort :: "msg_register_poll list \<Rightarrow> msg_register_poll list"
  assumes sort_perm: "mset (std_sort rs) = mset rs"
    and sort_sorted: "sorted (map mRegister (std_sort rs))"
begin

lemma set_sort: "set (std_sort rs) = set rs"
  using sort_perm by (metis set_mset_mset)

lemma covered_group_registers:
  assumes wf: "\<forall>r \<in> set rs. range_wf r"
  shows "covered (group_registers std_sort rs) slave ty = covered rs slave ty"
proof -
  let ?m = "collect_registers rs"
  note ok = collect_registers_ok [of rs]
  have elems: "p \<in> set rs \<longleftrightarrow> (\<exists>s tm t q. (s, tm) \<in> set ?m \<and> (t, q) \<in> set tm \<and> p \<in> set q)" for p
    using ok bucket_polls_iff [of p ?m] by simp
  have bucket: "covered (group_sorted (std_sort q)) slave ty = covered q slave ty"
    if "(s, tm) \<in> set ?m" "(t, q) \<in> set tm" for s tm t q
  proof -
    have "map_of ?m s = Some tm" "bucket_ok s tm"
      using that ok by (auto simp: buckets_ok_def omap_in_set_iff)
    then have "\<forall>p \<in> set q. mSlaveId p = s \<and> register_type_code (mRegisterType p) = t"
      using that by (auto simp: bucket_ok_def omap_in_set_iff)
    then have "\<forall>r \<in> set q. \<forall>s \<in> set q. same_bucket r s"
      by (auto simp: same_bucket_def intro: register_type_code_inj)
    moreover have "\<forall>r \<in> set q. range_wf r"
      using wf elems that by blast
    ultimately show ?thesis
      using covered_group_sorted [of "std_sort q"] covered_set_cong [of "std_sort q" q]
      by (simp add: set_sort)
  qed
  have entry: "covered (group_sorted (std_sort (snd b))) slave ty = covered (snd b) slave ty"
    if "e \<in> set ?m" "b \<in> set (snd e)" for e b
    using bucket [of "fst e" "snd e" "fst b" "snd b"] that by simp
  have "covered (group_registers std_sort rs) slave ty =
      (\<Union>(s, tm) \<in> set ?m. \<Union>(t, q) \<in> set tm. covered q slave ty)"
    unfolding group_registers_def covered_concat case_prod_unfold set_map image_image
    by (intro SUP_cong refl entry)
  also have "\<dots> = covered rs slave ty"
    unfolding covered_def elems by blast
  finally show ?thesis .
qed

lemma group_sorted_separated:
  assumes "groups_ok (std_sort q)" and "\<forall>r \<in> set q. \<forall>s \<in> set q. same_bucket r s"
  shows "sorted_wrt separated (group_sorted (std_sort q))"
proof (cases "std_sort q")
  case Nil
  then show ?thesis by simp
next
  case (Cons r rs)
  have "sorted_wrt (\<lambda>a b. lastRegister a < firstRegister b) (std_sort q)"
    using assms sort_sorted by (intro sorted_disjoint_gap) (auto simp: set_sort)
  then show ?thesis
    using Cons assms(1) group_run_separated [of r rs] by (auto dest: groups_ok_wf)
qed

end

interpretation register_sort: poll_sorter "sort_key mRegister"
  by unfold_locales (simp_all add: sorted_sort_key)

text \<open>
  C13: grouping consecutive registers changes how registers are polled, not which: the registers
  covered for every slave and type stay the same.
\<close>

theorem group_keeps_coverage:
  assumes "\<forall>r \<in> set (specRegisters s). range_wf r"
  shows "covered (specRegisters (spec_group (sort_key mRegister) s)) slave ty =
         covered (specRegisters s) slave ty"
  using assms by (simp add: spec_group_def register_sort.covered_group_registers)

theorem group_keeps_coverage_witness:
  "covered (specRegisters (spec_group (sort_key mRegister)
      \<lparr>specNetworkName = ''net'', specRegisters = [demo_poll 3 1 500, demo_poll 1 2 200]\<rparr>))
     1 HOLDING = {1, 2, 3}"
proof -
  let ?s = "\<lparr>specNetworkName = ''net'', specRegisters = [demo_poll 3 1 500, demo_poll 1 2 200]\<rparr>"
  have "\<forall>r \<in> set (specRegisters ?s). range_wf r"
    by (simp add: demo_poll_def new_register_poll_def range_wf_def)
  from group_keeps_coverage [OF this, of 1 HOLDING] show ?thesis
    by (auto simp: covered_def demo_poll_def new_register_poll_def regs_def range_defs)
qed

end
