(* ===== verification/Register_Commands.thy ===== *)
theory Register_Commands
  imports Poll_Specification
begin

text \<open>
  The messages exchanged with the main thread (\<open>modbus_messages.hpp\<close>) and the commands the
  Modbus thread queues and executes (\<open>register_poll.hpp\<close>, \<open>register_poll.cpp\<close>).

  Commands are long-lived objects behind \<open>std::shared_ptr\<close>: the scheduler, the request queues
  and the executor hold pointers to the same object, compare pointers and update the object in
  place. A pointer is a number and the objects live in a heap.
\<close>

section \<open>Messages\<close>

type_synonym ModbusRegisters = "u16 list"

record msg_register_values = modbus_msg +
  mRegisters :: ModbusRegisters
  mWriteMode :: write_mode
  mCreationTime :: time

text \<open>\<open>QueueItem\<close> erases the message type and restores it by \<open>typeid\<close>.\<close>

datatype queue_item =
    RegisterValues msg_register_values
  | RegisterReadFailed modbus_msg
  | RegisterWriteFailed modbus_msg
  | RegisterReadRequest modbus_msg
  | RegisterPollSpecification poll_spec
  | ModbusNetworkState string bool
  | MqttNetworkState bool
  | EndWork

definition new_msg :: "int \<Rightarrow> register_type \<Rightarrow> int \<Rightarrow> int \<Rightarrow> int \<Rightarrow> modbus_msg" where
  "new_msg slave ty reg n cid =
     \<lparr>mRegister = reg, mCount = n, mRegisterType = ty, mSlaveId = slave, mCommandId = cid\<rparr>"

definition new_register_values ::
  "int \<Rightarrow> register_type \<Rightarrow> int \<Rightarrow> ModbusRegisters \<Rightarrow> int \<Rightarrow> write_mode \<Rightarrow> time
    \<Rightarrow> msg_register_values" where
  "new_register_values slave ty reg vals cid wmode now =
     \<lparr>mRegister = reg, mCount = int (length vals), mRegisterType = ty, mSlaveId = slave,
      mCommandId = cid, mRegisters = vals, mWriteMode = wmode, mCreationTime = now\<rparr>"

section \<open>Commands\<close>

record register_command = modbus_msg +
  mMaxReadRetryCount :: u16
  mMaxWriteRetryCount :: u16
  mDelayBeforeFirstCommand :: duration
  mDelayBeforeCommand :: duration

record register_poll = register_command +
  mRefresh :: duration
  mLastReadOk :: bool
  mLastReadStartTime :: time
  mLastReadFinishTime :: time
  mReadErrors :: int
  mFirstErrorTime :: time
  pollPublishMode :: publish_mode
  mLastValues :: "u16 list"

record register_write = register_command +
  mValues :: ModbusRegisters
  writeMode :: write_mode
  mLastWriteOk :: bool
  writeCreationTime :: time
  mReturnMessage :: "msg_register_values option"

definition DurationBetweenLogError :: duration where
  "DurationBetweenLogError = 5 * 60 * 1000000000"

definition DefaultReadErrorCount :: int where
  "DefaultReadErrorCount = 3"

definition hasDelayBeforeFirstCommand :: "'a register_command_scheme \<Rightarrow> bool" where
  "hasDelayBeforeFirstCommand c \<longleftrightarrow> mDelayBeforeFirstCommand c \<noteq> 0"

definition hasDelayBeforeCommand :: "'a register_command_scheme \<Rightarrow> bool" where
  "hasDelayBeforeCommand c \<longleftrightarrow> mDelayBeforeCommand c \<noteq> 0"

definition hasDelay :: "'a register_command_scheme \<Rightarrow> bool" where
  "hasDelay c \<longleftrightarrow> mDelayBeforeCommand c \<noteq> 0 \<or> mDelayBeforeFirstCommand c \<noteq> 0"

definition setMaxRetryCounts ::
  "u16 \<Rightarrow> u16 \<Rightarrow> bool \<Rightarrow> 'a register_command_scheme \<Rightarrow> 'a register_command_scheme" where
  "setMaxRetryCounts pMaxRead pMaxWrite pForce c =
     (let c = (if pMaxRead \<noteq> 0 \<or> pForce then c\<lparr>mMaxReadRetryCount := pMaxRead\<rparr> else c)
      in if pMaxWrite \<noteq> 0 \<or> pForce then c\<lparr>mMaxWriteRetryCount := pMaxWrite\<rparr> else c)"

text \<open>
  The constructors. \<open>now1\<close> and \<open>now2\<close> are the two clock readings of \<open>RegisterPoll\<close>; the retry
  counts are uninitialised there and are arguments here.
\<close>

definition new_RegisterPoll ::
  "int \<Rightarrow> int \<Rightarrow> register_type \<Rightarrow> int \<Rightarrow> int \<Rightarrow> publish_mode \<Rightarrow> int \<Rightarrow> u16 \<Rightarrow> u16 \<Rightarrow> time
    \<Rightarrow> time \<Rightarrow> register_poll" where
  "new_RegisterPoll slave reg ty n refresh_msec pmode cid rr wr now1 now2 =
     \<lparr>mRegister = reg, mCount = n, mRegisterType = ty, mSlaveId = slave, mCommandId = cid,
      mMaxReadRetryCount = rr, mMaxWriteRetryCount = wr,
      mDelayBeforeFirstCommand = 0, mDelayBeforeCommand = 0,
      mRefresh = msec refresh_msec, mLastReadOk = False,
      mLastReadStartTime = 0,
      mLastReadFinishTime = now1 - 24 * 3600 * 1000000000,
      mReadErrors = 0, mFirstErrorTime = now2, pollPublishMode = pmode,
      mLastValues = replicate (nat n) 0\<rparr>"

definition new_RegisterWrite :: "msg_register_values \<Rightarrow> u16 \<Rightarrow> u16 \<Rightarrow> register_write" where
  "new_RegisterWrite m rr wr =
     \<lparr>mRegister = mRegister m, mCount = int (length (mRegisters m)),
      mRegisterType = mRegisterType m, mSlaveId = mSlaveId m, mCommandId = mCommandId m,
      mMaxReadRetryCount = rr, mMaxWriteRetryCount = wr,
      mDelayBeforeFirstCommand = 0, mDelayBeforeCommand = 0,
      mValues = mRegisters m, writeMode = mWriteMode m, mLastWriteOk = False,
      writeCreationTime = mCreationTime m, mReturnMessage = None\<rparr>"

definition poll_getCount :: "register_poll \<Rightarrow> int" where
  "poll_getCount p = int (length (mLastValues p))"

definition write_getCount :: "register_write \<Rightarrow> int" where
  "write_getCount w = int (length (mValues w))"

definition poll_update :: "u16 list \<Rightarrow> register_poll \<Rightarrow> register_poll" where
  "poll_update newValues p = p\<lparr>mLastValues := newValues, mCount := int (length newValues)\<rparr>"

section \<open>Pointers\<close>

type_synonym ptr = nat

datatype command = Poll register_poll | Write register_write

type_synonym heap = "ptr \<Rightarrow> command"

fun isPoll :: "command \<Rightarrow> bool" where
  "isPoll (Poll _) = True"
| "isPoll (Write _) = False"

text \<open>The virtual and inherited accessors of \<open>RegisterCommand\<close>.\<close>

fun cmdSlaveId :: "command \<Rightarrow> int" where
  "cmdSlaveId (Poll p) = mSlaveId p"
| "cmdSlaveId (Write w) = mSlaveId w"

fun cmdDelayBeforeCommand :: "command \<Rightarrow> duration" where
  "cmdDelayBeforeCommand (Poll p) = mDelayBeforeCommand p"
| "cmdDelayBeforeCommand (Write w) = mDelayBeforeCommand w"

fun cmdDelayBeforeFirstCommand :: "command \<Rightarrow> duration" where
  "cmdDelayBeforeFirstCommand (Poll p) = mDelayBeforeFirstCommand p"
| "cmdDelayBeforeFirstCommand (Write w) = mDelayBeforeFirstCommand w"

fun cmdMaxReadRetryCount :: "command \<Rightarrow> u16" where
  "cmdMaxReadRetryCount (Poll p) = mMaxReadRetryCount p"
| "cmdMaxReadRetryCount (Write w) = mMaxReadRetryCount w"

fun cmdMaxWriteRetryCount :: "command \<Rightarrow> u16" where
  "cmdMaxWriteRetryCount (Poll p) = mMaxWriteRetryCount p"
| "cmdMaxWriteRetryCount (Write w) = mMaxWriteRetryCount w"

fun executedOk :: "command \<Rightarrow> bool" where
  "executedOk (Poll p) = mLastReadOk p"
| "executedOk (Write w) = mLastWriteOk w"

lemma isPoll_cases: "isPoll c \<longleftrightarrow> (\<exists>p. c = Poll p)"
  by (cases c) auto

lemma not_isPoll_cases: "\<not> isPoll c \<longleftrightarrow> (\<exists>w. c = Write w)"
  by (cases c) auto

end
