(* ===== verification/Request_Queues.thy ===== *)
theory Request_Queues
  imports Register_Commands
begin

text \<open>
  \<open>modbus_request_queues.hpp\<close> and \<open>.cpp\<close>: the poll and the write queue of one slave. The
  cached iterator \<open>mLastPollFound\<close> is a position in \<open>mPollQueue\<close>, or singular when it was
  never set or when a change of the deque has invalidated it; to use a singular iterator is
  undefined behaviour, a fault here.
\<close>

section \<open>State and operations\<close>

datatype poll_iter = Singular | Pos nat

record request_queues =
  mPollQueue :: "ptr list"
  mWriteQueue :: "ptr list"
  mLastPollFound :: poll_iter
  mPopFromPoll :: bool

definition new_queues :: request_queues where
  "new_queues =
     \<lparr>mPollQueue = [], mWriteQueue = [], mLastPollFound = Singular, mPopFromPoll = True\<rparr>"

definition queues_empty :: "request_queues \<Rightarrow> bool" where
  "queues_empty q \<longleftrightarrow> mPollQueue q = [] \<and> mWriteQueue q = []"

definition push_poll :: "ptr \<Rightarrow> request_queues \<Rightarrow> request_queues" where
  "push_poll p q =
     (if p \<in> set (mPollQueue q) then q
      else q\<lparr>mPollQueue := mPollQueue q @ [p], mLastPollFound := Singular\<rparr>)"

definition queue_addPollList :: "ptr list \<Rightarrow> request_queues \<Rightarrow> request_queues" where
  "queue_addPollList pollList q = fold push_poll pollList q"

definition queue_addWriteCommand :: "ptr \<Rightarrow> request_queues \<Rightarrow> request_queues" where
  "queue_addWriteCommand p q = q\<lparr>mWriteQueue := mWriteQueue q @ [p]\<rparr>"

definition readdCommand :: "heap \<Rightarrow> ptr \<Rightarrow> request_queues \<Rightarrow> request_queues" where
  "readdCommand h p q =
     (if isPoll (h p)
      then q\<lparr>mPollQueue := p # mPollQueue q, mLastPollFound := Singular, mPopFromPoll := True\<rparr>
      else q\<lparr>mWriteQueue := p # mWriteQueue q, mPopFromPoll := False\<rparr>)"

text \<open>The template \<open>popNext(T& queue)\<close> at its two instances.\<close>

fun iter_pop_front :: "poll_iter \<Rightarrow> poll_iter" where
  "iter_pop_front (Pos (Suc i)) = Pos i"
| "iter_pop_front _ = Singular"

definition pop_poll :: "request_queues \<Rightarrow> fault + (ptr \<times> request_queues)" where
  "pop_poll q =
     (case mPollQueue q of
        [] \<Rightarrow> Inl AssertionFailed
      | p # ps \<Rightarrow> Inr (p, q\<lparr>mPollQueue := ps, mLastPollFound := iter_pop_front (mLastPollFound q)\<rparr>))"

definition pop_write :: "request_queues \<Rightarrow> fault + (ptr \<times> request_queues)" where
  "pop_write q =
     (case mWriteQueue q of
        [] \<Rightarrow> Inl AssertionFailed
      | p # ps \<Rightarrow> Inr (p, q\<lparr>mWriteQueue := ps\<rparr>))"

definition popNext :: "request_queues \<Rightarrow> fault + (ptr \<times> request_queues)" where
  "popNext q =
     (if mPopFromPoll q then
        (if mPollQueue q = [] then pop_write q else pop_poll (q\<lparr>mPopFromPoll := False\<rparr>))
      else
        (if mWriteQueue q = [] then pop_poll q else pop_write (q\<lparr>mPopFromPoll := True\<rparr>)))"

text \<open>The delay \<open>findForSilencePeriod\<close> looks at.\<close>

definition silence_delay :: "bool \<Rightarrow> command \<Rightarrow> duration" where
  "silence_delay ignore_first_read c =
     (if ignore_first_read \<or> cmdDelayBeforeFirstCommand c = 0
      then cmdDelayBeforeCommand c else cmdDelayBeforeFirstCommand c)"

fun find_silence ::
  "heap \<Rightarrow> duration \<Rightarrow> bool \<Rightarrow> nat \<Rightarrow> ptr list \<Rightarrow> duration \<times> poll_iter \<Rightarrow> duration \<times> poll_iter" where
  "find_silence h pPeriod ignore i [] ret = ret"
| "find_silence h pPeriod ignore i (p # ps) ret =
     (let delay = silence_delay ignore (h p) in
      if delay = 0 then find_silence h pPeriod ignore (Suc i) ps ret
      else let diff = \<bar>delay - pPeriod\<bar> in
        if diff = 0 then (delay, Pos i)
        else if diff < fst ret then find_silence h pPeriod ignore (Suc i) ps (delay, Pos i)
        else find_silence h pPeriod ignore (Suc i) ps ret)"

definition findForSilencePeriod ::
  "heap \<Rightarrow> duration \<Rightarrow> bool \<Rightarrow> request_queues \<Rightarrow> duration \<times> request_queues" where
  "findForSilencePeriod h pPeriod ignore q =
     (let (ret, found) =
        find_silence h pPeriod ignore 0 (mPollQueue q) (duration_max, mLastPollFound q)
      in (ret, q\<lparr>mLastPollFound := found\<rparr>))"

text \<open>
  The \<open>goto\<close> loop may run forever, hence the option. \<open>Pos (length (mPollQueue q))\<close> is
  \<open>mPollQueue.end()\<close>.
\<close>

definition erase_found :: "nat \<Rightarrow> request_queues \<Rightarrow> ptr \<times> request_queues" where
  "erase_found i q =
     (mPollQueue q ! i,
      q\<lparr>mPollQueue := take i (mPollQueue q) @ drop (Suc i) (mPollQueue q),
        mLastPollFound := Singular\<rparr>)"

partial_function (option) popFirstWithDelay ::
  "heap \<Rightarrow> duration \<Rightarrow> bool \<Rightarrow> request_queues \<Rightarrow> (fault + (ptr \<times> request_queues)) option" where
  "popFirstWithDelay h pPeriod ignore q =
     (case mLastPollFound q of
        Singular \<Rightarrow> Some (Inl SingularIterator)
      | Pos i \<Rightarrow>
          if i < length (mPollQueue q) then Some (Inr (erase_found i q))
          else if i = length (mPollQueue q)
          then popFirstWithDelay h pPeriod ignore (snd (findForSilencePeriod h pPeriod ignore q))
          else Some (Inl SingularIterator))"

declare popFirstWithDelay.simps [code]

section \<open>Contents of the queues\<close>

definition queued :: "request_queues \<Rightarrow> ptr multiset" where
  "queued q = mset (mPollQueue q) + mset (mWriteQueue q)"

text \<open>Every pointer sits in the queue of its kind.\<close>

definition queues_wf :: "heap \<Rightarrow> request_queues \<Rightarrow> bool" where
  "queues_wf h q \<longleftrightarrow>
     (\<forall>p \<in> set (mPollQueue q). isPoll (h p)) \<and> (\<forall>p \<in> set (mWriteQueue q). \<not> isPoll (h p))"

lemmas pop_defs = popNext_def pop_poll_def pop_write_def

lemma queues_empty_iff: "queues_empty q \<longleftrightarrow> queued q = {#}"
  by (simp add: queues_empty_def queued_def)

lemma popNext_total: "\<not> queues_empty q \<Longrightarrow> \<exists>p q'. popNext q = Inr (p, q')"
  by (auto simp: pop_defs queues_empty_def split: list.splits)

lemma popNext_fault: "popNext q = Inl f \<longleftrightarrow> queues_empty q \<and> f = AssertionFailed"
  by (auto simp: pop_defs queues_empty_def split: list.splits if_splits)

lemma popNext_queued: "popNext q = Inr (p, q') \<Longrightarrow> queued q = add_mset p (queued q')"
  by (auto simp: pop_defs queued_def split: list.splits if_splits)

lemma popNext_wf: "queues_wf h q \<Longrightarrow> popNext q = Inr (p, q') \<Longrightarrow> queues_wf h q'"
  by (auto simp: pop_defs queues_wf_def split: list.splits if_splits)

lemma push_poll_queues [simp]:
  "mWriteQueue (push_poll p q) = mWriteQueue q"
  "set (mPollQueue (push_poll p q)) = insert p (set (mPollQueue q))"
  "distinct (mPollQueue (push_poll p q)) \<longleftrightarrow> distinct (mPollQueue q)"
  by (auto simp: push_poll_def)

lemma addPollList_queues [simp]:
  "mWriteQueue (queue_addPollList ps q) = mWriteQueue q"
  "set (mPollQueue (queue_addPollList ps q)) = set (mPollQueue q) \<union> set ps"
  "distinct (mPollQueue (queue_addPollList ps q)) \<longleftrightarrow> distinct (mPollQueue q)"
  unfolding queue_addPollList_def by (induction ps arbitrary: q) auto

lemma addPollList_wf:
  "queues_wf h q \<Longrightarrow> \<forall>p \<in> set ps. isPoll (h p) \<Longrightarrow> queues_wf h (queue_addPollList ps q)"
  by (auto simp: queues_wf_def)

lemma new_queues_simps [simp]:
  "mPollQueue new_queues = []" "mWriteQueue new_queues = []" "queued new_queues = {#}"
  "queues_wf h new_queues" "queues_empty new_queues"
  by (simp_all add: new_queues_def queued_def queues_wf_def queues_empty_def)

lemma addWriteCommand_queued: "queued (queue_addWriteCommand p q) = add_mset p (queued q)"
  by (simp add: queue_addWriteCommand_def queued_def)

lemma addWriteCommand_wf:
  "queues_wf h q \<Longrightarrow> \<not> isPoll (h p) \<Longrightarrow> queues_wf h (queue_addWriteCommand p q)"
  by (simp add: queue_addWriteCommand_def queues_wf_def)

lemma readdCommand_queued: "queued (readdCommand h p q) = add_mset p (queued q)"
  by (simp add: readdCommand_def queued_def)

lemma readdCommand_wf: "queues_wf h q \<Longrightarrow> queues_wf h (readdCommand h p q)"
  by (simp add: readdCommand_def queues_wf_def)

text \<open>A command put back is the next one to leave.\<close>

lemma readd_then_pop: "\<exists>q'. popNext (readdCommand h p q) = Inr (p, q')"
  by (simp add: readdCommand_def pop_defs)

section \<open>No starvation\<close>

text \<open>\<open>n\<close> calls of \<open>popNext\<close> and the commands they return.\<close>

fun drain :: "nat \<Rightarrow> request_queues \<Rightarrow> fault + (ptr list \<times> request_queues)" where
  "drain 0 q = Inr ([], q)"
| "drain (Suc n) q =
     bindE (popNext q) (\<lambda>(p, q'). bindE (drain n q') (\<lambda>(ps, q''). Inr (p # ps, q'')))"

text \<open>
  How many calls a poll or a write at position \<open>i\<close> waits at most, by the side that is next.
\<close>

definition poll_wait :: "request_queues \<Rightarrow> nat \<Rightarrow> nat" where
  "poll_wait q i = 2 * i + (if mPopFromPoll q then 1 else 2)"

definition write_wait :: "request_queues \<Rightarrow> nat \<Rightarrow> nat" where
  "write_wait q i = 2 * i + (if mPopFromPoll q then 2 else 1)"

text \<open>One call of \<open>popNext\<close>: it serves the head of a queue, and whoever stays gets closer.\<close>

lemma popNext_closer_poll:
  assumes "popNext q = Inr (p, q')" and "i < length (mPollQueue q)"
  shows "mPollQueue q ! i = p \<or>
    (\<exists>j < length (mPollQueue q'). mPollQueue q' ! j = mPollQueue q ! i \<and> poll_wait q' j < poll_wait q i)"
proof (cases "mPollQueue q' = mPollQueue q")
  case True
  then show ?thesis
    using assms by (auto simp: pop_defs poll_wait_def split: list.splits if_splits intro!: exI [of _ i])
next
  case False
  then have tl: "mPollQueue q = p # mPollQueue q'"
    using assms by (auto simp: pop_defs split: list.splits if_splits)
  show ?thesis
  proof (cases i)
    case 0
    then show ?thesis using tl by simp
  next
    case (Suc j)
    then have "poll_wait q' j < poll_wait q i" "j < length (mPollQueue q')"
      using tl assms by (auto simp: poll_wait_def)
    then show ?thesis using tl Suc by auto
  qed
qed

lemma popNext_closer_write:
  assumes "popNext q = Inr (p, q')" and "i < length (mWriteQueue q)"
  shows "mWriteQueue q ! i = p \<or>
    (\<exists>j < length (mWriteQueue q'). mWriteQueue q' ! j = mWriteQueue q ! i \<and> write_wait q' j < write_wait q i)"
proof (cases "mWriteQueue q' = mWriteQueue q")
  case True
  then show ?thesis
    using assms by (auto simp: pop_defs write_wait_def split: list.splits if_splits intro!: exI [of _ i])
next
  case False
  then have tl: "mWriteQueue q = p # mWriteQueue q'"
    using assms by (auto simp: pop_defs split: list.splits if_splits)
  show ?thesis
  proof (cases i)
    case 0
    then show ?thesis using tl by simp
  next
    case (Suc j)
    then have "write_wait q' j < write_wait q i" "j < length (mWriteQueue q')"
      using tl assms by (auto simp: write_wait_def)
    then show ?thesis using tl Suc by auto
  qed
qed

lemma drain_total:
  "n \<le> size (queued q) \<Longrightarrow> \<exists>ps q'. drain n q = Inr (ps, q') \<and> queued q = mset ps + queued q'"
proof (induction n arbitrary: q)
  case 0
  then show ?case by simp
next
  case (Suc n)
  then have "\<not> queues_empty q" by (auto simp: queues_empty_iff)
  then obtain p q' where pop: "popNext q = Inr (p, q')" using popNext_total by blast
  then have "queued q = add_mset p (queued q')" by (rule popNext_queued)
  moreover obtain ps q'' where "drain n q' = Inr (ps, q'')" "queued q' = mset ps + queued q''"
    using Suc.IH [of q'] Suc.prems calculation by auto
  ultimately show ?case using pop by simp
qed

lemma drain_serves_poll:
  "drain n q = Inr (ps, q') \<Longrightarrow> i < length (mPollQueue q) \<Longrightarrow> poll_wait q i \<le> n \<Longrightarrow>
   mPollQueue q ! i \<in> set ps"
proof (induction n arbitrary: q i ps)
  case 0
  then show ?case by (simp add: poll_wait_def split: if_splits)
next
  case (Suc n)
  then obtain p q1 ps1 where pop: "popNext q = Inr (p, q1)" and d: "drain n q1 = Inr (ps1, q')"
    and ps: "ps = p # ps1"
    by (auto simp: fault_simps split: prod.splits)
  from popNext_closer_poll [OF pop Suc.prems(2)] show ?case
    using Suc.IH [OF d] Suc.prems(3) ps by fastforce
qed

lemma drain_serves_write:
  "drain n q = Inr (ps, q') \<Longrightarrow> i < length (mWriteQueue q) \<Longrightarrow> write_wait q i \<le> n \<Longrightarrow>
   mWriteQueue q ! i \<in> set ps"
proof (induction n arbitrary: q i ps)
  case 0
  then show ?case by (simp add: write_wait_def split: if_splits)
next
  case (Suc n)
  then obtain p q1 ps1 where pop: "popNext q = Inr (p, q1)" and d: "drain n q1 = Inr (ps1, q')"
    and ps: "ps = p # ps1"
    by (auto simp: fault_simps split: prod.splits)
  from popNext_closer_write [OF pop Suc.prems(2)] show ?case
    using Suc.IH [OF d] Suc.prems(3) ps by fastforce
qed

text \<open>
  C10: \<open>popNext\<close> starves neither queue. As many calls as there are commands succeed and return
  every command once; and within \<open>2 i + 2\<close> calls the \<open>i\<close>-th poll and the \<open>i\<close>-th write have both
  been returned, however long the other queue is.
\<close>

theorem popNext_serves_both_queues:
  assumes "n \<le> size (queued q)"
  shows "\<exists>ps q'. drain n q = Inr (ps, q') \<and> queued q = mset ps + queued q' \<and>
    (\<forall>i < length (mPollQueue q). 2 * i + 2 \<le> n \<longrightarrow> mPollQueue q ! i \<in> set ps) \<and>
    (\<forall>i < length (mWriteQueue q). 2 * i + 2 \<le> n \<longrightarrow> mWriteQueue q ! i \<in> set ps)"
proof -
  obtain ps q' where d: "drain n q = Inr (ps, q')" and m: "queued q = mset ps + queued q'"
    using drain_total [OF assms] by blast
  show ?thesis
    using d m drain_serves_poll [OF d] drain_serves_write [OF d]
    by (intro exI [of _ ps] exI [of _ q'])
      (auto simp: poll_wait_def write_wait_def split: if_splits)
qed

definition demo_queues :: "ptr list \<Rightarrow> ptr list \<Rightarrow> request_queues" where
  "demo_queues ps ws =
     \<lparr>mPollQueue = ps, mWriteQueue = ws, mLastPollFound = Singular, mPopFromPoll = True\<rparr>"

theorem popNext_serves_both_queues_witness:
  "\<exists>ps q'. drain 4 (demo_queues [1, 2, 3] [7, 8, 9, 10]) = Inr (ps, q') \<and> 7 \<in> set ps \<and> 8 \<in> set ps"
proof -
  let ?q = "demo_queues [1, 2, 3] [7, 8, 9, 10]"
  have "4 \<le> size (queued ?q)" by (simp add: demo_queues_def queued_def)
  from popNext_serves_both_queues [OF this] obtain ps q' where
    d: "drain 4 ?q = Inr (ps, q')" and
    w: "\<forall>i < length (mWriteQueue ?q). 2 * i + 2 \<le> 4 \<longrightarrow> mWriteQueue ?q ! i \<in> set ps"
    by blast
  have "7 \<in> set ps" using w [rule_format, of 0] by (simp add: demo_queues_def)
  moreover have "8 \<in> set ps" using w [rule_format, of 1] by (simp add: demo_queues_def)
  ultimately show ?thesis using d by blast
qed

section \<open>Election of the command that fits a silence period\<close>

lemma find_silence_cases:
  "find_silence h P ig i ps ret = ret \<or>
   (\<exists>j < length ps. find_silence h P ig i ps ret = (silence_delay ig (h (ps ! j)), Pos (i + j)) \<and>
      silence_delay ig (h (ps ! j)) \<noteq> 0)"
proof (induction h P ig i ps ret rule: find_silence.induct)
  case (1 h P ig i ret)
  then show ?case by simp
next
  case (2 h P ig i p ps ret)
  let ?d = "silence_delay ig (h p)"
  have shift: "\<exists>j < length (p # ps). r = (silence_delay ig (h ((p # ps) ! j)), Pos (i + j)) \<and>
      silence_delay ig (h ((p # ps) ! j)) \<noteq> 0"
    if "\<exists>j < length ps. r = (silence_delay ig (h (ps ! j)), Pos (Suc i + j)) \<and>
      silence_delay ig (h (ps ! j)) \<noteq> 0" for r
    using that by (metis Suc_less_eq add_Suc add_Suc_right length_Cons nth_Cons_Suc)
  consider "?d = 0" | "?d \<noteq> 0" "?d = P" | "?d \<noteq> 0" "?d \<noteq> P" "\<bar>?d - P\<bar> < fst ret"
    | "?d \<noteq> 0" "?d \<noteq> P" "\<not> \<bar>?d - P\<bar> < fst ret"
    by blast
  then show ?case
  proof cases
    case 1
    then show ?thesis using 2 shift by (auto simp: Let_def)
  next
    case 2
    then show ?thesis by (auto simp: Let_def intro!: exI [of _ 0])
  next
    case 3
    let ?r = "find_silence h P ig (Suc i) ps (?d, Pos i)"
    have r: "find_silence h P ig i (p # ps) ret = ?r" using 3 by (simp add: Let_def)
    have "?r = (?d, Pos i) \<or> (\<exists>j < length ps. ?r = (silence_delay ig (h (ps ! j)), Pos (Suc i + j)) \<and>
        silence_delay ig (h (ps ! j)) \<noteq> 0)"
      using "2.IH"(2) 3 by simp
    moreover have "\<exists>j < length (p # ps). (?d, Pos i) = (silence_delay ig (h ((p # ps) ! j)), Pos (i + j)) \<and>
        silence_delay ig (h ((p # ps) ! j)) \<noteq> 0"
      using 3 by (intro exI [of _ 0]) simp
    ultimately show ?thesis unfolding r using shift by metis
  next
    case 4
    let ?r = "find_silence h P ig (Suc i) ps ret"
    have r: "find_silence h P ig i (p # ps) ret = ?r" using 4 by (simp add: Let_def)
    have "?r = ret \<or> (\<exists>j < length ps. ?r = (silence_delay ig (h (ps ! j)), Pos (Suc i + j)) \<and>
        silence_delay ig (h (ps ! j)) \<noteq> 0)"
      using "2.IH"(3) 4 by simp
    then show ?thesis unfolding r using shift by blast
  qed
qed

lemma find_silence_exact:
  assumes "P \<noteq> 0" and "j < length ps" and "silence_delay ig (h (ps ! j)) = P"
    and "\<forall>k < j. silence_delay ig (h (ps ! k)) \<noteq> P"
  shows "find_silence h P ig i ps ret = (P, Pos (i + j))"
  using assms
proof (induction j arbitrary: i ps ret)
  case 0
  then show ?case by (cases ps) (auto simp: Let_def)
next
  case (Suc j)
  from Suc.prems(2) obtain p qs where ps: "ps = p # qs" by (cases ps) auto
  have "silence_delay ig (h p) \<noteq> P" using Suc.prems(4) ps by force
  moreover have "find_silence h P ig (Suc i) qs r = (P, Pos (Suc i + j))" for r
    using Suc.prems ps by (intro Suc.IH) auto
  ultimately show ?case using ps by (auto simp: Let_def)
qed

text \<open>The cached iterator is usable right after a search that found something.\<close>

lemma find_then_pop:
  assumes "findForSilencePeriod h P ig q = (d, q')" and "d < duration_max"
  shows "\<exists>i < length (mPollQueue q). popFirstWithDelay h P' ig' q' = Some (Inr (erase_found i q')) \<and>
    d = silence_delay ig (h (mPollQueue q ! i)) \<and> d \<noteq> 0 \<and> mPollQueue q' = mPollQueue q \<and>
    mWriteQueue q' = mWriteQueue q \<and> mLastPollFound q' = Pos i"
proof -
  from find_silence_cases [of h P ig 0 "mPollQueue q" "(duration_max, mLastPollFound q)"]
  obtain i where i: "i < length (mPollQueue q)"
    "d = silence_delay ig (h (mPollQueue q ! i))" "d \<noteq> 0" "q' = q\<lparr>mLastPollFound := Pos i\<rparr>"
    using assms by (auto simp: findForSilencePeriod_def)
  then show ?thesis
    by (intro exI [of _ i]) (simp add: popFirstWithDelay.simps)
qed

lemma findForSilencePeriod_queues [simp]:
  "mPollQueue (snd (findForSilencePeriod h P ig q)) = mPollQueue q"
  "mWriteQueue (snd (findForSilencePeriod h P ig q)) = mWriteQueue q"
  by (simp_all add: findForSilencePeriod_def case_prod_unfold Let_def)

lemma erase_found_queued:
  assumes "i < length (mPollQueue q)" and "erase_found i q = (p, q')"
  shows "queued q = add_mset p (queued q')"
proof -
  have "mset (mPollQueue q) =
      mset (take i (mPollQueue q) @ mPollQueue q ! i # drop (Suc i) (mPollQueue q))"
    using assms(1) by (simp only: id_take_nth_drop [symmetric])
  then show ?thesis
    using assms(2) by (auto simp: erase_found_def queued_def)
qed

lemma erase_found_wf:
  "queues_wf h q \<Longrightarrow> i < length (mPollQueue q) \<Longrightarrow> erase_found i q = (p, q') \<Longrightarrow>
   queues_wf h q' \<and> isPoll (h p)"
  by (fastforce simp: queues_wf_def erase_found_def dest: in_set_takeD in_set_dropD)

text \<open>
  An election that has an exact fit takes it. When some queued poll needs exactly the silence
  period that has passed, \<open>findForSilencePeriod\<close> reports that period, and \<open>popFirstWithDelay\<close>
  then removes the first such poll from the queue and nothing else.
\<close>

theorem election_takes_exact_fit:
  assumes "P \<noteq> 0" and "P < duration_max" and "i < length (mPollQueue q)"
    and "silence_delay ig (h (mPollQueue q ! i)) = P"
    and "\<forall>k < i. silence_delay ig (h (mPollQueue q ! k)) \<noteq> P"
  shows "\<exists>q1 q2. findForSilencePeriod h P ig q = (P, q1) \<and>
    popFirstWithDelay h P ig q1 = Some (Inr (mPollQueue q ! i, q2)) \<and>
    mPollQueue q2 = take i (mPollQueue q) @ drop (Suc i) (mPollQueue q) \<and>
    mWriteQueue q2 = mWriteQueue q"
proof -
  have "findForSilencePeriod h P ig q = (P, q\<lparr>mLastPollFound := Pos i\<rparr>)"
    using find_silence_exact [OF assms(1,3-5)] by (simp add: findForSilencePeriod_def)
  then show ?thesis
    using assms(3) by (simp add: popFirstWithDelay.simps erase_found_def)
qed

definition demo_delays :: "duration list \<Rightarrow> heap" where
  "demo_delays ds p =
     Poll ((new_RegisterPoll 1 (int p) HOLDING 1 1000 ON_CHANGE 0 0 0 0 0)
       \<lparr>mDelayBeforeCommand := ds ! p\<rparr>)"

theorem election_takes_exact_fit_witness:
  "\<exists>q1 q2. findForSilencePeriod (demo_delays [12, 10, 21]) 10 True (demo_queues [0, 1, 2] []) = (10, q1) \<and>
     popFirstWithDelay (demo_delays [12, 10, 21]) 10 True q1 = Some (Inr (1, q2)) \<and>
     mPollQueue q2 = [0, 2]"
proof -
  let ?h = "demo_delays [12, 10, 21]" and ?q = "demo_queues [0, 1, 2] []"
  have "(10::int) \<noteq> 0" "(10::int) < duration_max" "1 < length (mPollQueue ?q)"
    "silence_delay True (?h (mPollQueue ?q ! 1)) = 10"
    "\<forall>k < 1. silence_delay True (?h (mPollQueue ?q ! k)) \<noteq> 10"
    by (simp_all add: duration_max_def demo_queues_def demo_delays_def silence_delay_def)
  from election_takes_exact_fit [OF this] show ?thesis
    by (auto simp: demo_queues_def)
qed

text \<open>
  Without an exact fit the result need not be the closest delay: each difference is compared
  with the delay found last instead of with its difference. Of the delays 12 and 21 the search
  for a period of 10 settles on 21, although 12 is nine units closer.
\<close>

theorem election_misses_closest_delay:
  "fst (findForSilencePeriod (demo_delays [12, 21]) 10 True (demo_queues [0, 1] [])) = 21 \<and>
   silence_delay True (demo_delays [12, 21] 0) = 12 \<and> \<bar>12 - 10\<bar> < \<bar>21 - (10 :: duration)\<bar>"
  by (simp add: findForSilencePeriod_def demo_queues_def demo_delays_def silence_delay_def
      duration_max_def Let_def)

end
