(* ===== verification/Modbus_Context.thy ===== *)
theory Modbus_Context
  imports Register_Commands
begin

text \<open>
  \<open>modbus_context.hpp\<close> and \<open>.cpp\<close>: the wrapper around libmodbus. libmodbus is a parameter: a
  record of the functions the wrapper calls. Their first argument counts the requests made so
  far, so that the same request may be answered differently later, and the second is the slave
  set by \<open>modbus_set_slave\<close>. A read function returns the return code and the buffer it filled.
\<close>

type_synonym u8 = "8 word"

record libmodbus =
  modbus_read_bits :: "nat \<Rightarrow> int \<Rightarrow> int \<Rightarrow> int \<Rightarrow> int \<times> u8 list"
  modbus_read_input_bits :: "nat \<Rightarrow> int \<Rightarrow> int \<Rightarrow> int \<Rightarrow> int \<times> u8 list"
  modbus_read_registers :: "nat \<Rightarrow> int \<Rightarrow> int \<Rightarrow> int \<Rightarrow> int \<times> u16 list"
  modbus_read_input_registers :: "nat \<Rightarrow> int \<Rightarrow> int \<Rightarrow> int \<Rightarrow> int \<times> u16 list"
  modbus_write_bit :: "nat \<Rightarrow> int \<Rightarrow> int \<Rightarrow> bool \<Rightarrow> int"
  modbus_write_bits :: "nat \<Rightarrow> int \<Rightarrow> int \<Rightarrow> int \<Rightarrow> u8 list \<Rightarrow> int"
  modbus_write_register :: "nat \<Rightarrow> int \<Rightarrow> int \<Rightarrow> u16 \<Rightarrow> int"
  modbus_write_registers :: "nat \<Rightarrow> int \<Rightarrow> int \<Rightarrow> int \<Rightarrow> u16 list \<Rightarrow> int"

datatype context_exn = ReadException | WriteException | OtherContextException

definition MODBUS_TCP_SLAVE :: int where
  "MODBUS_TCP_SLAVE = 0xFF"

definition set_slave :: "int \<Rightarrow> int" where
  "set_slave slaveId = (if slaveId \<noteq> -1 then slaveId else MODBUS_TCP_SLAVE)"

text \<open>The loop that copies the buffer into the returned vector.\<close>

definition copy_buffer :: "int \<Rightarrow> ('b \<Rightarrow> u16) \<Rightarrow> 'b list \<Rightarrow> u16 list" where
  "copy_buffer arraySize conv values = map (\<lambda>i. conv (values ! i)) [0 ..< nat arraySize]"

definition readModbusRegisters ::
  "libmodbus \<Rightarrow> nat \<Rightarrow> int \<Rightarrow> register_poll \<Rightarrow> context_exn + u16 list" where
  "readModbusRegisters lib io slaveId regData =
     (let slave = set_slave slaveId;
          arraySize = poll_getCount regData;
          (retCode, ret) =
            (case mRegisterType regData of
               COIL \<Rightarrow>
                 (let (rc, values) = modbus_read_bits lib io slave (mRegister regData) arraySize
                  in (rc, copy_buffer arraySize ucast values))
             | BIT \<Rightarrow>
                 (let (rc, values) = modbus_read_input_bits lib io slave (mRegister regData) arraySize
                  in (rc, copy_buffer arraySize ucast values))
             | HOLDING \<Rightarrow>
                 (let (rc, values) = modbus_read_registers lib io slave (mRegister regData) arraySize
                  in (rc, copy_buffer arraySize id values))
             | INPUT \<Rightarrow>
                 (let (rc, values) = modbus_read_input_registers lib io slave (mRegister regData) arraySize
                  in (rc, copy_buffer arraySize id values)))
      in if retCode = -1 then Inl ReadException else Inr ret)"

definition bit_of :: "u16 \<Rightarrow> u8" where
  "bit_of v = (if v = 1 then 1 else 0)"

definition writeModbusRegisters ::
  "libmodbus \<Rightarrow> nat \<Rightarrow> int \<Rightarrow> register_write \<Rightarrow> context_exn + unit" where
  "writeModbusRegisters lib io slaveId msg =
     (let slave = set_slave slaveId;
          arraySize = int (length (mValues msg));
          single = (arraySize = 1 \<and> writeMode msg = AUTO);
          retCode =
            (case mRegisterType msg of
               COIL \<Rightarrow>
                 Some (if single
                       then modbus_write_bit lib io slave (mRegister msg) (mValues msg ! 0 = 1)
                       else modbus_write_bits lib io slave (mRegister msg) arraySize
                              (map bit_of (mValues msg)))
             | HOLDING \<Rightarrow>
                 Some (if single
                       then modbus_write_register lib io slave (mRegister msg) (mValues msg ! 0)
                       else modbus_write_registers lib io slave (mRegister msg) arraySize
                              (mValues msg))
             | _ \<Rightarrow> None)
      in case retCode of
           None \<Rightarrow> Inl OtherContextException
         | Some rc \<Rightarrow> if rc = -1 then Inl WriteException else Inr ())"

section \<open>What the wrapper promises to the executor\<close>

lemma read_only_read_exception:
  "readModbusRegisters lib io slave r = Inl e \<Longrightarrow> e = ReadException"
  by (auto simp: readModbusRegisters_def Let_def split: prod.splits if_splits)

lemma read_length:
  "readModbusRegisters lib io slave r = Inr vs \<Longrightarrow> length vs = length (mLastValues r)"
  by (auto simp: readModbusRegisters_def Let_def copy_buffer_def poll_getCount_def
      split: prod.splits if_splits register_type.splits)

lemma write_readonly_type:
  "writeModbusRegisters lib io slave w = Inl OtherContextException \<longleftrightarrow>
   mRegisterType w = BIT \<or> mRegisterType w = INPUT"
  by (auto simp: writeModbusRegisters_def Let_def split: register_type.splits)

end
