(* ===== verification/Modbus_Executor.thy ===== *)
theory Modbus_Executor
  imports Request_Queues Modbus_Context
begin

text \<open>
  \<open>modbus_executor.hpp\<close> and \<open>.cpp\<close>: which queued command is sent next and when, retries, and
  the messages sent to the main thread.

  The environment is a parameter: \<open>clock n\<close> is the result of the \<open>n\<close>-th call of
  \<open>steady_clock::now()\<close>, and \<open>ctxRead n\<close>, \<open>ctxWrite n\<close> are the \<open>n\<close>-th request to the Modbus
  context. The state counts both, holds the heap of commands and the messages sent so far, and
  extends to the fields of the class.
\<close>

section \<open>State\<close>

record env =
  clock :: "nat \<Rightarrow> time"
  ctxRead :: "nat \<Rightarrow> int \<Rightarrow> register_poll \<Rightarrow> context_exn + u16 list"
  ctxWrite :: "nat \<Rightarrow> int \<Rightarrow> register_write \<Rightarrow> context_exn + unit"

record world =
  ticks :: nat
  ios :: nat
  cmds :: heap
  fromModbus :: "queue_item list"

record executor = world +
  mSlaveQueues :: "(int, request_queues) omap"
  mCurrentSlaveQueue :: "int option"
  mCommandsLeft :: int
  mWriteCommandsQueued :: int
  exMaxReadRetryCount :: u16
  exMaxWriteRetryCount :: u16
  mWriteRetryCount :: u16
  mReadRetryCount :: u16
  mLastCommandTime :: time
  mWaitingCommand :: "ptr option"
  mLastCommand :: "ptr option"
  mInitialPoll :: bool
  mInitialPollStart :: time

definition WRITE_BATCH_SIZE :: int where
  "WRITE_BATCH_SIZE = 10"

definition now :: "env \<Rightarrow> 'a world_scheme \<Rightarrow> time \<times> 'a world_scheme" where
  "now env x = (clock env (ticks x), x\<lparr>ticks := Suc (ticks x)\<rparr>)"

definition sendMessage :: "queue_item \<Rightarrow> 'a world_scheme \<Rightarrow> 'a world_scheme" where
  "sendMessage item x = x\<lparr>fromModbus := fromModbus x @ [item]\<rparr>"

definition store :: "ptr \<Rightarrow> command \<Rightarrow> 'a world_scheme \<Rightarrow> 'a world_scheme" where
  "store p c x = x\<lparr>cmds := (cmds x)(p := c)\<rparr>"

definition new_executor :: "env \<Rightarrow> world \<Rightarrow> executor" where
  "new_executor env w =
     (let (t, w) = now env w in
      \<lparr>ticks = ticks w, ios = ios w, cmds = cmds w, fromModbus = fromModbus w,
       mSlaveQueues = [], mCurrentSlaveQueue = None, mCommandsLeft = 0,
       mWriteCommandsQueued = 0, exMaxReadRetryCount = 0, exMaxWriteRetryCount = 0,
       mWriteRetryCount = 0, mReadRetryCount = 0,
       mLastCommandTime = t - 100000 * 3600 * 1000000000,
       mWaitingCommand = None, mLastCommand = None, mInitialPoll = False,
       mInitialPollStart = 0\<rparr>)"

section \<open>Queries\<close>

definition allDone :: "executor \<Rightarrow> bool" where
  "allDone x \<longleftrightarrow> mWaitingCommand x = None \<and> list_all (\<lambda>e. queues_empty (snd e)) (mSlaveQueues x)"

definition pollDone :: "executor \<Rightarrow> bool" where
  "pollDone x \<longleftrightarrow>
     (case mWaitingCommand x of None \<Rightarrow> True | Some p \<Rightarrow> \<not> isPoll (cmds x p)) \<and>
     list_all (\<lambda>e. mPollQueue (snd e) = []) (mSlaveQueues x)"

text \<open>The queues an iterator points at.\<close>

definition deref :: "int option \<Rightarrow> executor \<Rightarrow> fault + request_queues" where
  "deref it x =
     (case it of
        None \<Rightarrow> Inl DerefEnd
      | Some k \<Rightarrow> (case map_of (mSlaveQueues x) k of None \<Rightarrow> Inl DerefEnd | Some q \<Rightarrow> Inr q))"

definition resetCommandsCounter :: "executor \<Rightarrow> fault + executor" where
  "resetCommandsCounter x =
     bindE (deref (mCurrentSlaveQueue x) x) (\<lambda>q.
       Inr (x\<lparr>mCommandsLeft :=
         (if mPollQueue q = [] then WRITE_BATCH_SIZE else int (length (mPollQueue q)) * 2)\<rparr>))"

text \<open>\<open>mWaitingCommand = mCurrentSlaveQueue->second.popNext()\<close>\<close>

definition popCurrent :: "executor \<Rightarrow> fault + executor" where
  "popCurrent x =
     (case mCurrentSlaveQueue x of
        None \<Rightarrow> Inl DerefEnd
      | Some k \<Rightarrow>
          bindE (deref (Some k) x) (\<lambda>q.
          bindE (popNext q) (\<lambda>(p, q').
            Inr (x\<lparr>mSlaveQueues := omap_put k q' (mSlaveQueues x), mWaitingCommand := Some p\<rparr>))))"

definition omap_find :: "'k \<Rightarrow> ('k, 'v) omap \<Rightarrow> 'k option" where
  "omap_find k m = (case map_of m k of None \<Rightarrow> None | Some _ \<Rightarrow> Some k)"

section \<open>Adding commands\<close>

text \<open>The loop that inserts the polls; \<open>first_added\<close> is \<open>None\<close> as long as it is \<open>end()\<close>.\<close>

fun insert_polls ::
  "(int, ptr list) omap \<Rightarrow> int option \<Rightarrow> (int, request_queues) omap
    \<Rightarrow> int option \<times> (int, request_queues) omap" where
  "insert_polls [] first_added m = (first_added, m)"
| "insert_polls ((k, ps) # rest) first_added m =
     (let m = omap_modify new_queues (queue_addPollList ps) k (omap_insert k new_queues m)
      in insert_polls rest
           (if ps \<noteq> [] \<and> first_added = None then Some k else first_added) m)"

text \<open>The election over all slaves; \<open>currentDiff\<close> is the delay of the command elected so far.\<close>

fun elect :: "duration \<Rightarrow> int list \<Rightarrow> duration \<Rightarrow> executor \<Rightarrow> (fault + executor) option" where
  "elect period [] currentDiff x = Some (Inr x)"
| "elect period (k # ks) currentDiff x =
     (if currentDiff \<noteq> 0 then
        (case map_of (mSlaveQueues x) k of
           None \<Rightarrow> Some (Inl DerefEnd)
         | Some q \<Rightarrow>
             (let ignore_first_read = (mCurrentSlaveQueue x = Some k);
                  (reg_delay, q1) = findForSilencePeriod (cmds x) period ignore_first_read q
              in if reg_delay < currentDiff then
                   (case popFirstWithDelay (cmds x) period ignore_first_read q1 of
                      None \<Rightarrow> None
                    | Some (Inl f) \<Rightarrow> Some (Inl f)
                    | Some (Inr (reg, q2)) \<Rightarrow>
                        (let x = x\<lparr>mSlaveQueues := omap_put k q2 (mSlaveQueues x),
                                   mWaitingCommand := Some reg, mCurrentSlaveQueue := Some k\<rparr>
                         in if reg_delay = 0 then Some (Inr x)
                            else elect period ks reg_delay x))
                 else elect period ks currentDiff
                        (x\<lparr>mSlaveQueues := omap_put k q1 (mSlaveQueues x)\<rparr>)))
      else elect period ks currentDiff x)"

definition start_election :: "env \<Rightarrow> int \<Rightarrow> executor \<Rightarrow> (fault + executor) option" where
  "start_election env first_added x =
     (let (t, x) = now env (x\<lparr>mCurrentSlaveQueue := Some first_added\<rparr>);
          last_silence_period = t - mLastCommandTime x
      in if mWaitingCommand x \<noteq> None then Some (Inl AssertionFailed)
         else case resetCommandsCounter x of
             Inl f \<Rightarrow> Some (Inl f)
           | Inr x \<Rightarrow>
               (case elect last_silence_period (map fst (mSlaveQueues x)) duration_max x of
                  None \<Rightarrow> None
                | Some (Inl f) \<Rightarrow> Some (Inl f)
                | Some (Inr x) \<Rightarrow>
                    Some (if mWaitingCommand x = None then popCurrent x else Inr x)))"

definition markInitialPoll :: "env \<Rightarrow> bool \<Rightarrow> executor \<Rightarrow> executor" where
  "markInitialPoll env initialPoll x =
     (if initialPoll then
        (let (t, x) = now env x in x\<lparr>mInitialPoll := True, mInitialPollStart := t\<rparr>)
      else x)"

definition addPollList ::
  "env \<Rightarrow> (int, ptr list) omap \<Rightarrow> bool \<Rightarrow> executor \<Rightarrow> (fault + executor) option" where
  "addPollList env pRegisters initialPoll x =
     (let setupQueues = allDone x in
      if mInitialPoll x \<and> \<not> pollDone x then Some (Inr x)
      else
        let x = markInitialPoll env initialPoll x;
            (first_added, m) = insert_polls pRegisters None (mSlaveQueues x);
            x = x\<lparr>mSlaveQueues := m\<rparr>
        in case first_added of
             None \<Rightarrow> Some (Inr x)
           | Some k \<Rightarrow> if \<not> setupQueues then Some (Inr x) else start_election env k x)"

definition setupInitialPoll ::
  "env \<Rightarrow> (int, ptr list) omap \<Rightarrow> executor \<Rightarrow> (fault + executor) option" where
  "setupInitialPoll env pRegisters x = addPollList env pRegisters True x"

definition addReadCommand :: "ptr \<Rightarrow> executor \<Rightarrow> fault + executor" where
  "addReadCommand p x =
     (let k = cmdSlaveId (cmds x p);
          x = x\<lparr>mSlaveQueues := omap_modify new_queues (queue_addPollList [p]) k (mSlaveQueues x)\<rparr>
      in if mCurrentSlaveQueue x = None
         then resetCommandsCounter (x\<lparr>mCurrentSlaveQueue := omap_find k (mSlaveQueues x)\<rparr>)
         else Inr x)"

definition addWriteCommand :: "ptr \<Rightarrow> executor \<Rightarrow> fault + executor" where
  "addWriteCommand p x =
     (let k = cmdSlaveId (cmds x p) in
      bindE
        (if mWriteCommandsQueued x = 0 then
           (let x = (case mWaitingCommand x of
                       None \<Rightarrow> x
                     | Some w \<Rightarrow> x\<lparr>mSlaveQueues :=
                         omap_modify new_queues (readdCommand (cmds x) w) k (mSlaveQueues x)\<rparr>)
            in resetCommandsCounter
                 (x\<lparr>mWaitingCommand := Some p,
                    mCurrentSlaveQueue := omap_find k (mSlaveQueues x)\<rparr>))
         else
           (let x = x\<lparr>mSlaveQueues :=
                       omap_modify new_queues (queue_addWriteCommand p) k (mSlaveQueues x)\<rparr>
            in if mCurrentSlaveQueue x = None
               then resetCommandsCounter (x\<lparr>mCurrentSlaveQueue := omap_find k (mSlaveQueues x)\<rparr>)
               else Inr x))
        (\<lambda>x. Inr (x\<lparr>mWriteCommandsQueued := mWriteCommandsQueued x + 1\<rparr>)))"

section \<open>Executing a command\<close>

definition handleRegisterReadError ::
  "env \<Rightarrow> register_poll \<Rightarrow> executor \<Rightarrow> register_poll \<times> executor" where
  "handleRegisterReadError env reg x =
     (let reg = reg\<lparr>mReadErrors := mReadErrors reg + 1, mLastReadOk := False\<rparr> in
      if isRpc reg then (reg, x)
      else
        let (log_error, x) =
              (if mReadErrors reg = 1 then (True, x)
               else let (t, x) = now env x
                    in (t - mFirstErrorTime reg > DurationBetweenLogError, x));
            (reg, x) =
              (if log_error then
                 (let (t, x) = now env x;
                      reg = reg\<lparr>mFirstErrorTime := t\<rparr>
                  in (if mReadErrors reg \<noteq> 1 then reg\<lparr>mReadErrors := 0\<rparr> else reg, x))
               else (reg, x));
            x = (if mReadErrors reg > DefaultReadErrorCount
                 then sendMessage (RegisterReadFailed
                        (new_msg (mSlaveId reg) (mRegisterType reg) (mRegister reg)
                           (poll_getCount reg) 0)) x
                 else x)
        in (reg, x))"

text \<open>The body of \<open>pollRegisters\<close> after a successful read.\<close>

definition registersRead ::
  "env \<Rightarrow> u16 list \<Rightarrow> bool \<Rightarrow> register_poll \<Rightarrow> executor \<Rightarrow> register_poll \<times> executor" where
  "registersRead env newValues forceSend reg x =
     (let reg = reg\<lparr>mLastReadOk := True\<rparr>;
          (_, x) = now env x;
          forceSend = (forceSend \<or> pollPublishMode reg = EVERY_POLL)
      in if mLastValues reg \<noteq> newValues \<or> forceSend \<or> mReadErrors reg \<noteq> 0 then
           (let (t, x) = now env x;
                x = sendMessage (RegisterValues
                      (new_register_values (mSlaveId reg) (mRegisterType reg) (mRegister reg)
                         newValues (mCommandId reg) AUTO t)) x
            in ((poll_update newValues reg)\<lparr>mReadErrors := 0\<rparr>, x))
         else (reg, x))"

definition attemptRead ::
  "env \<Rightarrow> bool \<Rightarrow> register_poll \<Rightarrow> executor \<Rightarrow> fault + (register_poll \<times> executor)" where
  "attemptRead env forceSend reg x =
     (let n = ios x;
          x = x\<lparr>ios := Suc n\<rparr>
      in case ctxRead env n (mSlaveId reg) reg of
           Inr newValues \<Rightarrow> Inr (registersRead env newValues forceSend reg x)
         | Inl ReadException \<Rightarrow> Inr (handleRegisterReadError env reg x)
         | Inl _ \<Rightarrow> Inl ContextException)"

definition pollRegisters ::
  "env \<Rightarrow> ptr \<Rightarrow> register_poll \<Rightarrow> bool \<Rightarrow> executor \<Rightarrow> fault + (register_poll \<times> executor)" where
  "pollRegisters env p reg forceSend x =
     (let (t, x) = now env x
      in bindE (attemptRead env forceSend (reg\<lparr>mLastReadStartTime := t\<rparr>) x)
           (\<lambda>(reg, x).
              let (t, x) = now env x;
                  reg = reg\<lparr>mLastReadFinishTime := t\<rparr>
              in Inr (reg, store p (Poll reg) (x\<lparr>mLastCommandTime := t\<rparr>))))"

definition attemptWrite ::
  "env \<Rightarrow> register_write \<Rightarrow> executor \<Rightarrow> fault + (register_write \<times> executor)" where
  "attemptWrite env cmd x =
     (let n = ios x;
          x = x\<lparr>ios := Suc n\<rparr>
      in case ctxWrite env n (mSlaveId cmd) cmd of
           Inr _ \<Rightarrow>
             (let cmd = cmd\<lparr>mLastWriteOk := True\<rparr>;
                  (_, x) = now env x
              in case mReturnMessage cmd of
                   None \<Rightarrow> Inr (cmd, x)
                 | Some m \<Rightarrow>
                     (let m = m\<lparr>mRegisters := mValues cmd\<rparr>
                      in Inr (cmd\<lparr>mReturnMessage := Some m\<rparr>, sendMessage (RegisterValues m) x)))
         | Inl WriteException \<Rightarrow>
             Inr (cmd\<lparr>mLastWriteOk := False\<rparr>,
                  sendMessage (RegisterWriteFailed
                    (new_msg (mSlaveId cmd) (mRegisterType cmd) (mRegister cmd)
                       (write_getCount cmd) (mCommandId cmd))) x)
         | Inl _ \<Rightarrow> Inl ContextException)"

definition writeRegisters ::
  "env \<Rightarrow> ptr \<Rightarrow> register_write \<Rightarrow> executor \<Rightarrow> fault + (register_write \<times> executor)" where
  "writeRegisters env p cmd x =
     (let (_, x) = now env x
      in bindE (attemptWrite env cmd x)
           (\<lambda>(cmd, x).
              let (t, x) = now env x
              in Inr (cmd, store p (Write cmd) (x\<lparr>mLastCommandTime := t\<rparr>))))"

text \<open>\<open>sendCommand\<close>: the counters for a new command, the two kinds, the bookkeeping.\<close>

definition loadRetryCounts :: "ptr \<Rightarrow> executor \<Rightarrow> executor" where
  "loadRetryCounts p x =
     (if Some p \<noteq> mLastCommand x
      then x\<lparr>exMaxReadRetryCount := cmdMaxReadRetryCount (cmds x p),
             mReadRetryCount := cmdMaxReadRetryCount (cmds x p),
             exMaxWriteRetryCount := cmdMaxWriteRetryCount (cmds x p),
             mWriteRetryCount := cmdMaxWriteRetryCount (cmds x p)\<rparr>
      else x)"

definition sendPoll :: "env \<Rightarrow> ptr \<Rightarrow> register_poll \<Rightarrow> executor \<Rightarrow> fault + (bool \<times> executor)" where
  "sendPoll env p reg x =
     bindE (pollRegisters env p reg (mInitialPoll x \<or> isRpc reg) x) (\<lambda>(pollcmd, x).
       if \<not> mLastReadOk pollcmd then
         (if mReadRetryCount x \<noteq> 0 then
            Inr (True, x\<lparr>mReadRetryCount := mReadRetryCount x - 1\<rparr>)
          else if isRpc pollcmd then
            Inr (False, sendMessage (RegisterReadFailed
                   (new_msg (mSlaveId pollcmd) (mRegisterType pollcmd) (mRegister pollcmd)
                      (poll_getCount pollcmd) (mCommandId pollcmd))) x)
          else Inr (False, x))
       else Inr (False, x\<lparr>mReadRetryCount := exMaxReadRetryCount x\<rparr>))"

definition sendWrite :: "env \<Rightarrow> ptr \<Rightarrow> register_write \<Rightarrow> executor \<Rightarrow> fault + (bool \<times> executor)" where
  "sendWrite env p cmd x =
     bindE (writeRegisters env p cmd x) (\<lambda>(writecmd, x).
       if \<not> mLastWriteOk writecmd then
         (if mWriteRetryCount x \<noteq> 0 then
            Inr (True, x\<lparr>mWriteRetryCount := mWriteRetryCount x - 1\<rparr>)
          else Inr (False, x))
       else
         let x = x\<lparr>mWriteRetryCount := exMaxWriteRetryCount x,
                   mWriteCommandsQueued := mWriteCommandsQueued x - 1\<rparr>
         in if mWriteCommandsQueued x \<ge> 0 then Inr (False, x) else Inl AssertionFailed)"

definition finishCommand :: "bool \<Rightarrow> executor \<Rightarrow> executor" where
  "finishCommand retry x =
     (let x = x\<lparr>mLastCommand := mWaitingCommand x\<rparr> in
      if retry then x
      else let x = x\<lparr>mWaitingCommand := None\<rparr>
           in if mCommandsLeft x > 0 then x\<lparr>mCommandsLeft := mCommandsLeft x - 1\<rparr> else x)"

definition sendCommand :: "env \<Rightarrow> executor \<Rightarrow> fault + executor" where
  "sendCommand env x =
     (case mWaitingCommand x of
        None \<Rightarrow> Inl NullPointer
      | Some p \<Rightarrow>
          (let x = loadRetryCounts p x
           in bindE
                (case cmds x p of
                   Poll reg \<Rightarrow> sendPoll env p reg x
                 | Write cmd \<Rightarrow> sendWrite env p cmd x)
                (\<lambda>(retry, x). Inr (finishCommand retry x))))"

section \<open>Choosing the next command\<close>

text \<open>
  The loop that looks for a non-empty queue. It starts after the current queue, wraps around at
  \<open>end()\<close> and stops when it meets the current queue again, if it does: it may run forever.
\<close>

partial_function (option) find_queue ::
  "(int, request_queues) omap \<Rightarrow> int \<Rightarrow> int option \<Rightarrow> int option option" where
  "find_queue m cur nextQueue =
     (if nextQueue = Some cur then Some nextQueue
      else
        case (if nextQueue = None then omap_begin m else nextQueue) of
          None \<Rightarrow> Some None
        | Some k \<Rightarrow>
            (case map_of m k of
               None \<Rightarrow> Some None
             | Some q \<Rightarrow>
                 if \<not> queues_empty q then Some (Some k)
                 else find_queue m cur (omap_next k m)))"

declare find_queue.simps [code]

text \<open>The first half of \<open>executeNext\<close>; \<open>True\<close> means that there is nothing to do.\<close>

definition selectNext :: "executor \<Rightarrow> (fault + (bool \<times> executor)) option" where
  "selectNext x =
     (case (mWaitingCommand x, mCurrentSlaveQueue x) of
        (None, Some k) \<Rightarrow>
          (case deref (Some k) x of
             Inl f \<Rightarrow> Some (Inl f)
           | Inr q \<Rightarrow>
               if mCommandsLeft x = 0 \<or> queues_empty q then
                 (case find_queue (mSlaveQueues x) k (omap_next k (mSlaveQueues x)) of
                    None \<Rightarrow> None
                  | Some nextQueue \<Rightarrow>
                      if Some k \<noteq> nextQueue \<or> \<not> queues_empty q then
                        Some (bindE (popCurrent (x\<lparr>mCurrentSlaveQueue := nextQueue\<rparr>)) (\<lambda>x.
                              bindE (resetCommandsCounter x) (\<lambda>x. Inr (False, x))))
                      else Some (Inr (True, x)))
               else Some (bindE (popCurrent x) (\<lambda>x. Inr (False, x))))
      | _ \<Rightarrow> Some (Inr (False, x)))"

definition command_delay :: "executor \<Rightarrow> ptr \<Rightarrow> duration" where
  "command_delay x p =
     (let slave_change =
        (case mLastCommand x of
           None \<Rightarrow> False
         | Some l \<Rightarrow> cmdSlaveId (cmds x p) \<noteq> cmdSlaveId (cmds x l))
      in if cmdDelayBeforeFirstCommand (cmds x p) \<noteq> 0 \<and> slave_change
         then cmdDelayBeforeFirstCommand (cmds x p) else cmdDelayBeforeCommand (cmds x p))"

definition finishInitialPoll :: "env \<Rightarrow> executor \<Rightarrow> executor" where
  "finishInitialPoll env x =
     (if mInitialPoll x \<and> pollDone x \<and> mCurrentSlaveQueue x \<noteq> None
      then (let (_, x) = now env x in x\<lparr>mInitialPoll := False\<rparr>)
      else x)"

definition sendAndFinish :: "env \<Rightarrow> executor \<Rightarrow> fault + (duration \<times> executor)" where
  "sendAndFinish env x = bindE (sendCommand env x) (\<lambda>x. Inr (0, finishInitialPoll env x))"

definition executeSelected :: "env \<Rightarrow> executor \<Rightarrow> fault + (duration \<times> executor)" where
  "executeSelected env x =
     (case mWaitingCommand x of
        None \<Rightarrow> Inr (0, finishInitialPoll env x)
      | Some p \<Rightarrow>
          (let delay = command_delay x p in
           if delay \<noteq> 0 then
             (let (t, x) = now env x;
                  delay_left = delay - (t - mLastCommandTime x)
              in if delay_left > 0
                 then bindE (deref (mCurrentSlaveQueue x) x) (\<lambda>_. Inr (delay_left, x))
                 else sendAndFinish env x)
           else sendAndFinish env x))"

definition executeNext :: "env \<Rightarrow> executor \<Rightarrow> (fault + (duration \<times> executor)) option" where
  "executeNext env x =
     (case selectNext x of
        None \<Rightarrow> None
      | Some (Inl f) \<Rightarrow> Some (Inl f)
      | Some (Inr (nothing_to_do, x)) \<Rightarrow>
          Some (if nothing_to_do then Inr (duration_max, x) else executeSelected env x))"

end
