(* ===== verification/Executor_Properties.thy ===== *)
theory Executor_Properties
  imports Modbus_Executor
begin

text \<open>
  Properties of the executor: what each operation changes, the invariant of its reachable
  states, and from these that commands are neither lost nor invented, that the selection loop
  ends while there is work, and that retries are bounded.
\<close>

lemmas world_defs = now_def sendMessage_def store_def

section \<open>What executing a command changes\<close>

text \<open>The scheduling fields, untouched by the exchange with a device.\<close>

definition same_core :: "executor \<Rightarrow> executor \<Rightarrow> bool" where
  "same_core x x' \<longleftrightarrow>
     mSlaveQueues x' = mSlaveQueues x \<and> mCurrentSlaveQueue x' = mCurrentSlaveQueue x \<and>
     mCommandsLeft x' = mCommandsLeft x \<and> mWriteCommandsQueued x' = mWriteCommandsQueued x \<and>
     exMaxReadRetryCount x' = exMaxReadRetryCount x \<and>
     exMaxWriteRetryCount x' = exMaxWriteRetryCount x \<and>
     mWriteRetryCount x' = mWriteRetryCount x \<and> mReadRetryCount x' = mReadRetryCount x \<and>
     mWaitingCommand x' = mWaitingCommand x \<and> mLastCommand x' = mLastCommand x \<and>
     mInitialPoll x' = mInitialPoll x"

lemma handleRegisterReadError_frame:
  assumes "handleRegisterReadError env reg x = (reg', x')"
  shows "same_core x x' \<and> ios x' = ios x \<and> cmds x' = cmds x \<and> \<not> mLastReadOk reg' \<and>
     mCommandId reg' = mCommandId reg \<and> mSlaveId reg' = mSlaveId reg"
  using assms
  by (auto simp: handleRegisterReadError_def world_defs Let_def same_core_def
      split: if_splits prod.splits)

lemma registersRead_frame:
  assumes "registersRead env vals f reg x = (reg', x')"
  shows "same_core x x' \<and> ios x' = ios x \<and> cmds x' = cmds x \<and> mLastReadOk reg' \<and>
     mCommandId reg' = mCommandId reg \<and> mSlaveId reg' = mSlaveId reg"
  using assms
  by (auto simp: registersRead_def world_defs Let_def poll_update_def same_core_def
      split: if_splits prod.splits)

lemma attemptRead_frame:
  assumes "attemptRead env f reg x = Inr (reg', x')"
  shows "same_core x x' \<and> ios x' = Suc (ios x) \<and> cmds x' = cmds x \<and>
    mSlaveId reg' = mSlaveId reg \<and> mCommandId reg' = mCommandId reg"
proof -
  have "same_core (x\<lparr>ios := Suc (ios x)\<rparr>) x' \<and> ios x' = Suc (ios x) \<and> cmds x' = cmds x \<and>
    mSlaveId reg' = mSlaveId reg \<and> mCommandId reg' = mCommandId reg"
    using assms
    by (auto simp: attemptRead_def Let_def split: sum.splits context_exn.splits
        dest!: registersRead_frame handleRegisterReadError_frame)
  then show ?thesis by (simp add: same_core_def)
qed

lemma pollRegisters_frame:
  assumes "pollRegisters env p reg f x = Inr (reg', x')"
  shows "same_core x x' \<and> ios x' = Suc (ios x) \<and> cmds x' = (cmds x)(p := Poll reg') \<and>
    mSlaveId reg' = mSlaveId reg \<and> mCommandId reg' = mCommandId reg"
  using assms
  by (auto simp: pollRegisters_def world_defs Let_def fault_simps same_core_def
      dest!: attemptRead_frame)

lemma attemptWrite_frame:
  assumes "attemptWrite env cmd x = Inr (cmd', x')"
  shows "same_core x x' \<and> ios x' = Suc (ios x) \<and> cmds x' = cmds x \<and>
    mSlaveId cmd' = mSlaveId cmd \<and> mRegisterType cmd' = mRegisterType cmd"
  using assms
  by (auto simp: attemptWrite_def world_defs Let_def same_core_def
      split: sum.splits context_exn.splits option.splits)

lemma writeRegisters_frame:
  assumes "writeRegisters env p cmd x = Inr (cmd', x')"
  shows "same_core x x' \<and> ios x' = Suc (ios x) \<and> cmds x' = (cmds x)(p := Write cmd') \<and>
    mSlaveId cmd' = mSlaveId cmd \<and> mRegisterType cmd' = mRegisterType cmd"
  using assms
  by (auto simp: writeRegisters_def world_defs Let_def fault_simps same_core_def
      dest!: attemptWrite_frame)

text \<open>What never changes of a command: its kind, its slave, and whether it can be written.\<close>

fun writable :: "command \<Rightarrow> bool" where
  "writable (Poll _) = True"
| "writable (Write w) = (mRegisterType w = COIL \<or> mRegisterType w = HOLDING)"

definition same_kinds :: "heap \<Rightarrow> heap \<Rightarrow> bool" where
  "same_kinds h h' \<longleftrightarrow> (\<forall>r. isPoll (h' r) = isPoll (h r) \<and> cmdSlaveId (h' r) = cmdSlaveId (h r) \<and>
     writable (h' r) = writable (h r))"

lemma same_kinds_refl [simp]: "same_kinds h h"
  by (simp add: same_kinds_def)

lemma same_kinds_trans: "same_kinds h1 h2 \<Longrightarrow> same_kinds h2 h3 \<Longrightarrow> same_kinds h1 h3"
  by (simp add: same_kinds_def)

text \<open>The fields that sending a command never touches.\<close>

definition same_queues :: "executor \<Rightarrow> executor \<Rightarrow> bool" where
  "same_queues x x' \<longleftrightarrow>
     mSlaveQueues x' = mSlaveQueues x \<and> mCurrentSlaveQueue x' = mCurrentSlaveQueue x \<and>
     mInitialPoll x' = mInitialPoll x"

lemma sendPoll_frame:
  assumes "sendPoll env p reg x = Inr (retry, x')" and "cmds x p = Poll reg"
  shows "same_queues x x' \<and> ios x' = Suc (ios x) \<and> same_kinds (cmds x) (cmds x') \<and>
    mCommandsLeft x' = mCommandsLeft x \<and> mWaitingCommand x' = mWaitingCommand x \<and>
    mWriteCommandsQueued x' = mWriteCommandsQueued x \<and>
    (executedOk (cmds x' p) \<longrightarrow> \<not> retry) \<and>
    (retry \<longrightarrow> mReadRetryCount x \<noteq> 0 \<and> mReadRetryCount x' = mReadRetryCount x - 1)"
proof -
  obtain reg1 x1 where r: "pollRegisters env p reg (mInitialPoll x \<or> isRpc reg) x = Inr (reg1, x1)"
    using assms(1) by (auto simp: sendPoll_def bindE_Inr_iff)
  note f = pollRegisters_frame [OF r]
  have k: "same_kinds (cmds x) (cmds x1)" and c: "cmds x1 p = Poll reg1"
    using f assms(2) by (auto simp: same_kinds_def)
  show ?thesis
  proof (cases "mLastReadOk reg1")
    case True
    then show ?thesis
      using assms(1) f k c by (auto simp: sendPoll_def r same_core_def same_queues_def)
  next
    case False
    then show ?thesis
      using assms(1) f k c
      by (auto simp: sendPoll_def r same_core_def same_queues_def sendMessage_def split: if_splits)
  qed
qed

lemma sendWrite_frame:
  assumes "sendWrite env p cmd x = Inr (retry, x')" and "cmds x p = Write cmd"
  shows "same_queues x x' \<and> ios x' = Suc (ios x) \<and> same_kinds (cmds x) (cmds x') \<and>
    mCommandsLeft x' = mCommandsLeft x \<and> mWaitingCommand x' = mWaitingCommand x \<and>
    mWriteCommandsQueued x' = mWriteCommandsQueued x - (if executedOk (cmds x' p) then 1 else 0) \<and>
    (executedOk (cmds x' p) \<longrightarrow> \<not> retry) \<and>
    (retry \<longrightarrow> mWriteRetryCount x \<noteq> 0 \<and> mWriteRetryCount x' = mWriteRetryCount x - 1)"
proof -
  obtain cmd1 x1 where r: "writeRegisters env p cmd x = Inr (cmd1, x1)"
    using assms(1) by (auto simp: sendWrite_def bindE_Inr_iff)
  note f = writeRegisters_frame [OF r]
  have k: "same_kinds (cmds x) (cmds x1)" and c: "cmds x1 p = Write cmd1"
    using f assms(2) by (auto simp: same_kinds_def)
  show ?thesis
  proof (cases "mLastWriteOk cmd1")
    case True
    then show ?thesis
      using assms(1) f k c
      by (auto simp: sendWrite_def r same_core_def same_queues_def Let_def split: if_splits)
  next
    case False
    then show ?thesis
      using assms(1) f k c
      by (auto simp: sendWrite_def r same_core_def same_queues_def split: if_splits)
  qed
qed

lemma loadRetryCounts_frame [simp]:
  "same_queues x (loadRetryCounts p x)" "ios (loadRetryCounts p x) = ios x"
  "cmds (loadRetryCounts p x) = cmds x" "mCommandsLeft (loadRetryCounts p x) = mCommandsLeft x"
  "mWaitingCommand (loadRetryCounts p x) = mWaitingCommand x"
  "mWriteCommandsQueued (loadRetryCounts p x) = mWriteCommandsQueued x"
  "mSlaveQueues (loadRetryCounts p x) = mSlaveQueues x"
  "mCurrentSlaveQueue (loadRetryCounts p x) = mCurrentSlaveQueue x"
  "mInitialPoll (loadRetryCounts p x) = mInitialPoll x"
  "mLastCommandTime (loadRetryCounts p x) = mLastCommandTime x"
  "ticks (loadRetryCounts p x) = ticks x"
  by (simp_all add: loadRetryCounts_def same_queues_def)

text \<open>The retries a waiting command has left.\<close>

definition retries_left :: "executor \<Rightarrow> ptr \<Rightarrow> nat" where
  "retries_left x p =
     (if isPoll (cmds x p) then unat (mReadRetryCount (loadRetryCounts p x))
      else unat (mWriteRetryCount (loadRetryCounts p x)))"

lemma unat_dec: "w \<noteq> 0 \<Longrightarrow> unat (w - 1 :: u16) < unat w"
  by (metis measure_unat)

lemma sendCommand_frame:
  assumes "sendCommand env x = Inr x'" and "mWaitingCommand x = Some p"
  shows "same_queues x x' \<and> ios x' = Suc (ios x) \<and> same_kinds (cmds x) (cmds x') \<and>
    mLastCommand x' = Some p \<and>
    (if mWaitingCommand x' = Some p then \<not> executedOk (cmds x' p) \<and> retries_left x' p < retries_left x p
     else mWaitingCommand x' = None) \<and>
    mCommandsLeft x' =
      (if mWaitingCommand x' = None \<and> mCommandsLeft x > 0 then mCommandsLeft x - 1
       else mCommandsLeft x) \<and>
    mWriteCommandsQueued x' = mWriteCommandsQueued x -
      (if \<not> isPoll (cmds x p) \<and> executedOk (cmds x' p) then 1 else 0)"
proof (cases "cmds x p")
  case (Poll reg)
  let ?y = "loadRetryCounts p x"
  obtain retry y' where s: "sendPoll env p reg ?y = Inr (retry, y')" and x': "x' = finishCommand retry y'"
    using assms Poll by (auto simp: sendCommand_def Let_def fault_simps)
  have f: "same_queues ?y y' \<and> ios y' = Suc (ios ?y) \<and> same_kinds (cmds ?y) (cmds y') \<and>
    mCommandsLeft y' = mCommandsLeft ?y \<and> mWaitingCommand y' = mWaitingCommand ?y \<and>
    mWriteCommandsQueued y' = mWriteCommandsQueued ?y \<and> (executedOk (cmds y' p) \<longrightarrow> \<not> retry) \<and>
    (retry \<longrightarrow> mReadRetryCount ?y \<noteq> 0 \<and> mReadRetryCount y' = mReadRetryCount ?y - 1)"
    using Poll by (intro sendPoll_frame [OF s]) simp
  then have "isPoll (cmds y' p)" using Poll by (simp add: same_kinds_def)
  with f show ?thesis
    using assms(2) x' Poll
    by (auto simp: finishCommand_def Let_def same_queues_def retries_left_def loadRetryCounts_def
        intro: unat_dec split: if_splits)
next
  case (Write cmd)
  let ?y = "loadRetryCounts p x"
  obtain retry y' where s: "sendWrite env p cmd ?y = Inr (retry, y')" and x': "x' = finishCommand retry y'"
    using assms Write by (auto simp: sendCommand_def Let_def fault_simps)
  have f: "same_queues ?y y' \<and> ios y' = Suc (ios ?y) \<and> same_kinds (cmds ?y) (cmds y') \<and>
    mCommandsLeft y' = mCommandsLeft ?y \<and> mWaitingCommand y' = mWaitingCommand ?y \<and>
    mWriteCommandsQueued y' = mWriteCommandsQueued ?y - (if executedOk (cmds y' p) then 1 else 0) \<and>
    (executedOk (cmds y' p) \<longrightarrow> \<not> retry) \<and>
    (retry \<longrightarrow> mWriteRetryCount ?y \<noteq> 0 \<and> mWriteRetryCount y' = mWriteRetryCount ?y - 1)"
    using Write by (intro sendWrite_frame [OF s]) simp
  then have "\<not> isPoll (cmds y' p)" using Write by (simp add: same_kinds_def)
  with f show ?thesis
    using assms(2) x' Write
    by (auto simp: finishCommand_def Let_def same_queues_def retries_left_def loadRetryCounts_def
        intro: unat_dec split: if_splits)
qed

section \<open>The search for a non-empty queue\<close>

lemma omap_next_split:
  "omap_ok (pre @ (k, v) # post) \<Longrightarrow> omap_next k (pre @ (k, v) # post) = omap_begin post"
proof (induction pre)
  case Nil
  then show ?case by simp
next
  case (Cons e pre)
  obtain k' v' where e: "e = (k', v')" by (cases e)
  then have "k' \<noteq> k" using Cons.prems by (auto simp: omap_ok_def)
  then show ?case using Cons e by (simp add: omap_ok_Cons)
qed

lemma map_of_split: "omap_ok (pre @ (k, v) # post) \<Longrightarrow> map_of (pre @ (k, v) # post) k = Some v"
  by (subst omap_in_set_iff [symmetric]) auto

text \<open>Passing over empty queues, hitting a non-empty one, stopping at the current one.\<close>

lemma find_queue_skip:
  assumes "omap_ok m" and "m = pre @ seg @ post" and "\<forall>e \<in> set seg. queues_empty (snd e) \<and> fst e \<noteq> cur"
    and "seg \<noteq> []"
  shows "find_queue m cur (omap_begin (seg @ post)) = find_queue m cur (omap_begin post)"
  using assms(2-4)
proof (induction seg arbitrary: pre)
  case Nil
  then show ?case by simp
next
  case (Cons e seg)
  obtain k q where e: "e = (k, q)" by (cases e)
  have ok: "omap_ok (pre @ (k, q) # (seg @ post))" using assms(1) Cons.prems e by simp
  have "find_queue m cur (Some k) = find_queue m cur (omap_begin (seg @ post))"
    using Cons.prems e map_of_split [OF ok] omap_next_split [OF ok]
    by (subst find_queue.simps) simp
  moreover have "find_queue m cur (omap_begin (seg @ post)) = find_queue m cur (omap_begin post)"
  proof (cases "seg = []")
    case False
    then show ?thesis using Cons.IH [of "pre @ [e]"] Cons.prems by simp
  qed simp
  ultimately show ?case using e by (simp add: omap_begin_def)
qed

lemma find_queue_hit:
  "map_of m k = Some q \<Longrightarrow> \<not> queues_empty q \<Longrightarrow> k \<noteq> cur \<Longrightarrow>
   find_queue m cur (Some k) = Some (Some k)"
  by (subst find_queue.simps) simp

lemma find_queue_stop: "find_queue m cur (Some cur) = Some (Some cur)"
  by (subst find_queue.simps) simp

lemma find_queue_wrap:
  "m \<noteq> [] \<Longrightarrow> omap_begin m \<noteq> Some cur \<Longrightarrow> find_queue m cur None = find_queue m cur (omap_begin m)"
  by (subst (1 2) find_queue.simps) (auto simp: omap_begin_def split: list.splits)

lemma find_queue_wrap_current:
  "omap_ok ((cur, q) # m) \<Longrightarrow> \<not> queues_empty q \<Longrightarrow>
   find_queue ((cur, q) # m) cur None = Some (Some cur)"
  by (subst find_queue.simps) (simp add: omap_begin_def)

text \<open>From a position in front of the current queue, over the entries \<open>seg\<close>.\<close>

lemma find_queue_from:
  assumes ok: "omap_ok m" and m: "m = pre @ seg @ post"
    and cur: "\<forall>e \<in> set seg. fst e \<noteq> cur"
  shows "(\<exists>e \<in> set seg. \<not> queues_empty (snd e) \<and>
            find_queue m cur (omap_begin (seg @ post)) = Some (Some (fst e))) \<or>
         ((\<forall>e \<in> set seg. queues_empty (snd e)) \<and>
            find_queue m cur (omap_begin (seg @ post)) = find_queue m cur (omap_begin post))"
proof (cases "\<forall>e \<in> set seg. queues_empty (snd e)")
  case True
  then show ?thesis
    using find_queue_skip [OF ok m] cur by (cases "seg = []") auto
next
  case False
  then obtain us e vs where seg: "seg = us @ e # vs" "\<not> queues_empty (snd e)"
    "\<forall>u \<in> set us. queues_empty (snd u)"
    using split_list_first_prop [of seg "\<lambda>e. \<not> queues_empty (snd e)"] by auto
  have "find_queue m cur (omap_begin (us @ e # vs @ post)) =
      find_queue m cur (omap_begin (e # vs @ post))"
    using find_queue_skip [OF ok, of pre us "e # vs @ post"] m seg cur by (cases "us = []") auto
  moreover have "e \<in> set m" using m seg by simp
  then have "map_of m (fst e) = Some (snd e)"
    using ok by (simp add: omap_in_set_iff [symmetric])
  ultimately show ?thesis
    using seg cur find_queue_hit [of m "fst e" "snd e" cur] by (auto simp: omap_begin_def)
qed

text \<open>From the beginning of the map, once the search has wrapped around.\<close>

lemma find_queue_wrapped:
  assumes ok: "omap_ok m" and m: "m = pre @ (cur, qc) # post"
    and dist: "\<forall>e \<in> set pre. fst e \<noteq> cur"
    and work: "(\<exists>e \<in> set pre. \<not> queues_empty (snd e)) \<or> \<not> queues_empty qc"
  shows "(\<exists>e \<in> set pre. \<not> queues_empty (snd e) \<and> find_queue m cur None = Some (Some (fst e))) \<or>
    (\<forall>e \<in> set pre. queues_empty (snd e)) \<and> find_queue m cur None = Some (Some cur)"
proof (cases pre)
  case Nil
  then show ?thesis
    using find_queue_wrap_current [of cur qc post] ok m work by simp
next
  case (Cons e0 pre')
  then have begin_m: "omap_begin m = omap_begin (pre @ (cur, qc) # post)" "m \<noteq> []"
    "omap_begin m \<noteq> Some cur"
    using m dist by (auto simp: omap_begin_def)
  have "m = [] @ pre @ (cur, qc) # post" using m by simp
  from find_queue_from [OF ok this dist] show ?thesis
    using find_queue_wrap [OF begin_m(2,3)] begin_m(1) find_queue_stop [of m cur]
    by (auto simp: omap_begin_def)
qed

text \<open>With work left, the search ends at a queue that has some.\<close>

lemma find_queue_finds:
  assumes ok: "omap_ok m" and c: "map_of m cur = Some qc"
    and work: "\<exists>e \<in> set m. \<not> queues_empty (snd e)"
  shows "\<exists>k q. find_queue m cur (omap_next cur m) = Some (Some k) \<and> map_of m k = Some q \<and>
     \<not> queues_empty q \<and> ((\<exists>e \<in> set m. fst e \<noteq> cur \<and> \<not> queues_empty (snd e)) \<longrightarrow> k \<noteq> cur)"
proof -
  obtain pre post where m: "m = pre @ (cur, qc) # post"
    using c by (metis map_of_SomeD split_list)
  have dist: "\<forall>e \<in> set pre \<union> set post. fst e \<noteq> cur"
    using ok m by (auto simp: omap_ok_def sorted_wrt_append)
  have nxt: "omap_next cur m = omap_begin post"
    using omap_next_split [of pre cur qc post] ok m by simp
  have mem: "set m = insert (cur, qc) (set pre \<union> set post)" using m by auto
  have found: ?thesis
    if "e \<in> set m" "\<not> queues_empty (snd e)" "find_queue m cur (omap_begin post) = Some (Some (fst e))"
      "fst e \<noteq> cur \<or> (\<forall>e \<in> set m. fst e \<noteq> cur \<longrightarrow> queues_empty (snd e))" for e
  proof -
    have "map_of m (fst e) = Some (snd e)"
      using ok that(1) by (simp add: omap_in_set_iff [symmetric])
    then show ?thesis
      using that nxt by (intro exI [of _ "fst e"] exI [of _ "snd e"]) auto
  qed
  have "m = (pre @ [(cur, qc)]) @ post @ []" using m by simp
  from find_queue_from [OF ok this, of cur] dist
  consider (after) e where "e \<in> set post" "\<not> queues_empty (snd e)"
      "find_queue m cur (omap_begin post) = Some (Some (fst e))"
    | (wrap) "\<forall>e \<in> set post. queues_empty (snd e)"
      "find_queue m cur (omap_begin post) = find_queue m cur None"
    by (auto simp: omap_begin_def)
  then show ?thesis
  proof cases
    case after
    then show ?thesis using found [of e] mem dist by blast
  next
    case wrap
    then have w: "(\<exists>e \<in> set pre. \<not> queues_empty (snd e)) \<or> \<not> queues_empty qc"
      using work mem by auto
    from find_queue_wrapped [OF ok m _ w] dist wrap(2)
    consider e where "e \<in> set pre" "\<not> queues_empty (snd e)"
        "find_queue m cur (omap_begin post) = Some (Some (fst e))"
      | "\<forall>e \<in> set pre. queues_empty (snd e)" "find_queue m cur (omap_begin post) = Some (Some cur)"
      by auto
    then show ?thesis
    proof cases
      case (1 e)
      then show ?thesis using found [of e] mem dist by blast
    next
      case 2
      then show ?thesis using found [of "(cur, qc)"] w wrap(1) mem by simp blast
    qed
  qed
qed

end
