(* ===== verification/Executor_Invariant.thy ===== *)
theory Executor_Invariant
  imports Executor_Properties
begin

text \<open>
  The invariant of the executor: the commands it owes, kept by every operation.
\<close>

section \<open>The invariant\<close>

text \<open>The commands in the queues, the one taken out to be sent, and both together.\<close>

definition queue_sum :: "executor \<Rightarrow> ptr multiset" where
  "queue_sum x = omap_sum (\<lambda>e. queued (snd e)) (mSlaveQueues x)"

definition waiting :: "executor \<Rightarrow> ptr multiset" where
  "waiting x = (case mWaitingCommand x of None \<Rightarrow> {#} | Some p \<Rightarrow> {#p#})"

definition pending :: "executor \<Rightarrow> ptr multiset" where
  "pending x = queue_sum x + waiting x"

definition pending_writes :: "executor \<Rightarrow> nat" where
  "pending_writes x = size (filter_mset (\<lambda>p. \<not> isPoll (cmds x p)) (pending x))"

definition queues_ok :: "executor \<Rightarrow> bool" where
  "queues_ok x \<longleftrightarrow> omap_ok (mSlaveQueues x) \<and>
     (\<forall>k q. map_of (mSlaveQueues x) k = Some q \<longrightarrow> queues_wf (cmds x) q)"

text \<open>
  The queues are well typed, the iterator is valid and is \<open>end()\<close> only when there is nothing to
  do, and the counter of write commands is at least the number of writes owed.
\<close>

definition exec_ok :: "executor \<Rightarrow> bool" where
  "exec_ok x \<longleftrightarrow> queues_ok x \<and>
     (case mCurrentSlaveQueue x of
        None \<Rightarrow> allDone x
      | Some k \<Rightarrow> map_of (mSlaveQueues x) k \<noteq> None) \<and>
     int (pending_writes x) \<le> mWriteCommandsQueued x \<and> 0 \<le> mCommandsLeft x"

definition writable_pending :: "executor \<Rightarrow> bool" where
  "writable_pending x \<longleftrightarrow> (\<forall>p \<in># pending x. writable (cmds x p))"

lemma queue_sum_put:
  assumes "omap_ok (mSlaveQueues x)"
  shows "omap_sum (\<lambda>e. queued (snd e)) (omap_put k q' (mSlaveQueues x)) +
     (case map_of (mSlaveQueues x) k of None \<Rightarrow> {#} | Some q \<Rightarrow> queued q) = queue_sum x + queued q'"
  using omap_sum_put [OF assms, of "\<lambda>e. queued (snd e)" k q']
  by (auto simp: queue_sum_def split: option.splits)

lemma queue_sum_modify:
  assumes "omap_ok (mSlaveQueues x)"
    and "\<And>q. queued (f q) = queued q + a"
  shows "omap_sum (\<lambda>e. queued (snd e)) (omap_modify new_queues f k (mSlaveQueues x)) = queue_sum x + a"
  unfolding queue_sum_def using assms by (intro omap_sum_modify) (auto split: option.splits)

lemma queue_sum_empty_iff: "queue_sum x = {#} \<longleftrightarrow> list_all (\<lambda>e. queues_empty (snd e)) (mSlaveQueues x)"
proof -
  have "omap_sum (\<lambda>e. queued (snd e)) m = {#} \<longleftrightarrow> list_all (\<lambda>e. queues_empty (snd e)) m"
    for m :: "(int, request_queues) omap"
    by (induction m) (auto simp: omap_sum_def queues_empty_iff)
  then show ?thesis by (simp add: queue_sum_def)
qed

lemma allDone_iff: "allDone x \<longleftrightarrow> pending x = {#}"
  by (auto simp: allDone_def pending_def waiting_def queue_sum_empty_iff split: option.splits)

lemma queue_sum_member:
  assumes "omap_ok (mSlaveQueues x)"
  shows "p \<in># queue_sum x \<longleftrightarrow> (\<exists>k q. map_of (mSlaveQueues x) k = Some q \<and> p \<in># queued q)"
proof -
  have "p \<in># omap_sum (\<lambda>e. queued (snd e)) m \<longleftrightarrow> (\<exists>e \<in> set m. p \<in># queued (snd e))"
    for m :: "(int, request_queues) omap"
    by (induction m) (auto simp: omap_sum_def)
  then show ?thesis
    using assms by (force simp: queue_sum_def omap_in_set_iff [symmetric])
qed

lemma queues_ok_put:
  "queues_ok x \<Longrightarrow> queues_wf (cmds x) q \<Longrightarrow>
   queues_ok (x\<lparr>mSlaveQueues := omap_put k q (mSlaveQueues x)\<rparr>)"
  by (auto simp: queues_ok_def map_of_omap_put split: if_splits)

lemma queues_ok_modify:
  assumes "queues_ok x" and "\<And>q. queues_wf (cmds x) q \<Longrightarrow> queues_wf (cmds x) (f q)"
  shows "queues_ok (x\<lparr>mSlaveQueues := omap_modify new_queues f k (mSlaveQueues x)\<rparr>)"
  unfolding omap_modify_def using assms
  by (intro queues_ok_put) (auto simp: queues_ok_def split: option.splits)

lemma queues_wf_kinds: "same_kinds h h' \<Longrightarrow> queues_wf h q \<Longrightarrow> queues_wf h' q"
  by (simp add: queues_wf_def same_kinds_def)

section \<open>Taking a command out of the current queue\<close>

lemma popCurrent_ok:
  assumes "queues_ok x" and "mCurrentSlaveQueue x = Some k" and "map_of (mSlaveQueues x) k = Some q"
    and "\<not> queues_empty q"
  shows "\<exists>p m. popCurrent x = Inr (x\<lparr>mSlaveQueues := m, mWaitingCommand := Some p\<rparr>) \<and>
    queue_sum x = add_mset p (omap_sum (\<lambda>e. queued (snd e)) m) \<and>
    queues_ok (x\<lparr>mSlaveQueues := m\<rparr>) \<and> dom (map_of m) = dom (map_of (mSlaveQueues x)) \<and>
    p \<in># queued q"
proof -
  obtain p q' where pop: "popNext q = Inr (p, q')" using popNext_total [OF assms(4)] by blast
  let ?m = "omap_put k q' (mSlaveQueues x)"
  have ok: "omap_ok (mSlaveQueues x)" "queues_wf (cmds x) q"
    using assms(1,3) by (auto simp: queues_ok_def)
  have "popCurrent x = Inr (x\<lparr>mSlaveQueues := ?m, mWaitingCommand := Some p\<rparr>)"
    using assms(2,3) pop by (simp add: popCurrent_def deref_def)
  moreover have "queue_sum x = add_mset p (omap_sum (\<lambda>e. queued (snd e)) ?m)"
    using queue_sum_put [OF ok(1), of k q'] assms(3) popNext_queued [OF pop] by simp
  moreover have "queues_ok (x\<lparr>mSlaveQueues := ?m\<rparr>)"
    using assms(1) popNext_wf [OF ok(2) pop] by (intro queues_ok_put)
  moreover have "dom (map_of ?m) = dom (map_of (mSlaveQueues x))"
    using ok(1) assms(3) by (auto simp: map_of_omap_put)
  moreover have "p \<in># queued q" using popNext_queued [OF pop] by simp
  ultimately show ?thesis by blast
qed

lemma resetCommandsCounter_ok:
  assumes "mCurrentSlaveQueue x = Some k" and "map_of (mSlaveQueues x) k \<noteq> None"
  shows "\<exists>n. resetCommandsCounter x = Inr (x\<lparr>mCommandsLeft := n\<rparr>) \<and> 0 < n"
  using assms by (auto simp: resetCommandsCounter_def deref_def WRITE_BATCH_SIZE_def)

text \<open>Fields the invariant does not depend on.\<close>

lemma pending_irrelevant [simp]:
  "pending (x\<lparr>mCommandsLeft := n\<rparr>) = pending x"
  "pending_writes (x\<lparr>mCommandsLeft := n\<rparr>) = pending_writes x"
  "queues_ok (x\<lparr>mCommandsLeft := n\<rparr>) = queues_ok x"
  "allDone (x\<lparr>mCommandsLeft := n\<rparr>) = allDone x"
  by (simp_all add: pending_def queue_sum_def waiting_def pending_writes_def queues_ok_def allDone_def)

text \<open>The fields that choosing a command leaves alone.\<close>

definition same_world :: "executor \<Rightarrow> executor \<Rightarrow> bool" where
  "same_world x x' \<longleftrightarrow>
     ticks x' = ticks x \<and> ios x' = ios x \<and> cmds x' = cmds x \<and> fromModbus x' = fromModbus x \<and>
     mWriteCommandsQueued x' = mWriteCommandsQueued x \<and> mWriteRetryCount x' = mWriteRetryCount x \<and>
     mReadRetryCount x' = mReadRetryCount x \<and> mLastCommandTime x' = mLastCommandTime x \<and>
     mLastCommand x' = mLastCommand x \<and> mInitialPoll x' = mInitialPoll x"

text \<open>\<open>x'\<close> is \<open>x\<close> with a command taken out of the queue of slave \<open>k\<close>.\<close>

definition took_from :: "int \<Rightarrow> executor \<Rightarrow> executor \<Rightarrow> bool" where
  "took_from k x x' \<longleftrightarrow> exec_ok x' \<and> pending x' = pending x \<and> mWaitingCommand x' \<noteq> None \<and>
     mCurrentSlaveQueue x' = Some k \<and> same_world x x' \<and>
     (\<exists>p q. mWaitingCommand x' = Some p \<and> map_of (mSlaveQueues x) k = Some q \<and> p \<in># queued q)"

lemma pop_from:
  assumes ok: "exec_ok x" and none: "mWaitingCommand x = None"
    and k: "map_of (mSlaveQueues x) k = Some q" and q: "\<not> queues_empty q"
  shows "\<exists>x'. popCurrent (x\<lparr>mCurrentSlaveQueue := Some k\<rparr>) = Inr x' \<and> took_from k x x'"
proof -
  let ?x = "x\<lparr>mCurrentSlaveQueue := Some k\<rparr>"
  have "queues_ok ?x" using ok by (simp add: exec_ok_def queues_ok_def)
  then obtain p m where pop: "popCurrent ?x = Inr (?x\<lparr>mSlaveQueues := m, mWaitingCommand := Some p\<rparr>)"
    and sum: "queue_sum ?x = add_mset p (omap_sum (\<lambda>e. queued (snd e)) m)"
    and qok: "queues_ok (?x\<lparr>mSlaveQueues := m\<rparr>)" and dom: "dom (map_of m) = dom (map_of (mSlaveQueues x))"
    and p: "p \<in># queued q"
    using popCurrent_ok [of ?x k q] k q by auto
  let ?y = "?x\<lparr>mSlaveQueues := m, mWaitingCommand := Some p\<rparr>"
  have m: "map_of m k \<noteq> None" using dom k by (metis domIff option.distinct(1))
  have pend: "pending ?y = pending x"
    using sum none by (simp add: pending_def waiting_def queue_sum_def)
  then have "pending_writes ?y = pending_writes x"
    by (simp add: pending_writes_def)
  then have "exec_ok ?y"
    using ok qok m by (auto simp: exec_ok_def queues_ok_def)
  then have "took_from k x ?y"
    using pend k p by (simp add: took_from_def same_world_def)
  with pop show ?thesis by blast
qed

lemma took_from_reset:
  assumes "took_from k x x'"
  shows "\<exists>x''. resetCommandsCounter x' = Inr x'' \<and> took_from k x x''"
proof -
  have "mCurrentSlaveQueue x' = Some k" "map_of (mSlaveQueues x') k \<noteq> None"
    using assms by (auto simp: took_from_def exec_ok_def)
  from resetCommandsCounter_ok [OF this] obtain n where
    "resetCommandsCounter x' = Inr (x'\<lparr>mCommandsLeft := n\<rparr>)" "0 < n" by blast
  moreover from this have "took_from k x (x'\<lparr>mCommandsLeft := n\<rparr>)"
    using assms
    by (auto simp: took_from_def exec_ok_def same_world_def)
  ultimately show ?thesis by blast
qed

text \<open>
  With work left the next command is the one waiting, one of the current slave, or one of
  another slave; a slave whose batch is used up gives way to any other with work.
\<close>

lemma selectNext_takes:
  assumes ok: "exec_ok x" and work: "\<not> allDone x" and none: "mWaitingCommand x = None"
  shows "\<exists>k x'. selectNext x = Some (Inr (False, x')) \<and> took_from k x x' \<and>
    (mCommandsLeft x = 0 \<and>
       (\<exists>e \<in> set (mSlaveQueues x). mCurrentSlaveQueue x \<noteq> Some (fst e) \<and> \<not> queues_empty (snd e))
     \<longrightarrow> mCurrentSlaveQueue x \<noteq> Some k)"
proof -
  from ok work obtain k qk where k: "mCurrentSlaveQueue x = Some k" "map_of (mSlaveQueues x) k = Some qk"
    by (auto simp: exec_ok_def split: option.splits)
  have omap: "omap_ok (mSlaveQueues x)" using ok by (simp add: exec_ok_def queues_ok_def)
  have "\<exists>e \<in> set (mSlaveQueues x). \<not> queues_empty (snd e)"
    using work none by (auto simp: allDone_def list_all_iff)
  from find_queue_finds [OF omap k(2) this] obtain j q where
    j: "find_queue (mSlaveQueues x) k (omap_next k (mSlaveQueues x)) = Some (Some j)"
      "map_of (mSlaveQueues x) j = Some q" "\<not> queues_empty q"
    and other: "(\<exists>e \<in> set (mSlaveQueues x). fst e \<noteq> k \<and> \<not> queues_empty (snd e)) \<longrightarrow> j \<noteq> k"
    by blast
  show ?thesis
  proof (cases "mCommandsLeft x = 0 \<or> queues_empty qk")
    case True
    from pop_from [OF ok none j(2,3)] took_from_reset obtain y y' where
      "popCurrent (x\<lparr>mCurrentSlaveQueue := Some j\<rparr>) = Inr y" "resetCommandsCounter y = Inr y'"
      "took_from j x y'" by blast
    moreover have "Some k \<noteq> Some j \<or> \<not> queues_empty qk" using j k by auto
    ultimately show ?thesis
      using none k j True other by (intro exI [of _ j] exI [of _ y'])
        (auto simp: selectNext_def deref_def)
  next
    case False
    have "x\<lparr>mCurrentSlaveQueue := Some k\<rparr> = x" using k(1) by simp
    then obtain y where "popCurrent x = Inr y" "took_from k x y"
      using pop_from [OF ok none k(2)] False by auto
    then show ?thesis
      using none k False by (intro exI [of _ k] exI [of _ y]) (auto simp: selectNext_def deref_def)
  qed
qed

lemma selectNext_ok:
  assumes "exec_ok x" and "\<not> allDone x"
  shows "\<exists>x'. selectNext x = Some (Inr (False, x')) \<and> exec_ok x' \<and> pending x' = pending x \<and>
    mWaitingCommand x' \<noteq> None \<and> same_world x x'"
proof (cases "mWaitingCommand x")
  case (Some p)
  then show ?thesis using assms by (simp add: selectNext_def same_world_def)
next
  case None
  then show ?thesis using selectNext_takes [OF assms] by (auto simp: took_from_def)
qed

section \<open>Sending\<close>

text \<open>What the executor relies on of the Modbus context.\<close>

locale modbus_context =
  fixes env :: env
  assumes read_exn: "ctxRead env n s r = Inl e \<Longrightarrow> e = ReadException"
    and write_exn: "ctxWrite env n s w = Inl e \<Longrightarrow>
      e = WriteException \<or> e = OtherContextException \<and> \<not> writable (Write w)"
begin

lemma pollRegisters_total: "\<exists>r x'. pollRegisters env p reg f x = Inr (r, x')"
proof -
  let ?y = "x\<lparr>ticks := Suc (ticks x)\<rparr>" and ?reg = "reg\<lparr>mLastReadStartTime := clock env (ticks x)\<rparr>"
  have "\<exists>r. attemptRead env f ?reg ?y = Inr r"
    by (auto simp: attemptRead_def Let_def split: sum.splits context_exn.splits dest: read_exn)
  then show ?thesis
    by (auto simp: pollRegisters_def now_def Let_def case_prod_unfold)
qed

lemma writeRegisters_total:
  assumes "writable (Write cmd)"
  shows "\<exists>c x'. writeRegisters env p cmd x = Inr (c, x')"
proof -
  have "\<exists>c. attemptWrite env cmd (x\<lparr>ticks := Suc (ticks x)\<rparr>) = Inr c"
    using assms write_exn [of _ _ cmd]
    by (auto simp: attemptWrite_def Let_def now_def split: sum.splits context_exn.splits option.splits)
  then show ?thesis
    by (auto simp: writeRegisters_def now_def Let_def case_prod_unfold)
qed

lemma sendCommand_total:
  assumes ok: "exec_ok x" and p: "mWaitingCommand x = Some p" and w: "writable (cmds x p)"
  shows "\<exists>x'. sendCommand env x = Inr x'"
proof (cases "cmds x p")
  case (Poll reg)
  let ?y = "loadRetryCounts p x"
  obtain r y' where "pollRegisters env p reg (mInitialPoll ?y \<or> isRpc reg) ?y = Inr (r, y')"
    using pollRegisters_total by blast
  then show ?thesis using p Poll by (auto simp: sendCommand_def Let_def sendPoll_def)
next
  case (Write cmd)
  let ?y = "loadRetryCounts p x"
  obtain c y' where wr: "writeRegisters env p cmd ?y = Inr (c, y')"
    using writeRegisters_total w Write by fastforce
  have "p \<in># filter_mset (\<lambda>p. \<not> isPoll (cmds x p)) (pending x)"
    using p Write by (simp add: pending_def waiting_def)
  then have "0 < pending_writes x"
    unfolding pending_writes_def nonempty_has_size [symmetric] by force
  then have "1 \<le> mWriteCommandsQueued x" using ok by (simp add: exec_ok_def)
  moreover have "mWriteCommandsQueued y' = mWriteCommandsQueued x"
    using writeRegisters_frame [OF wr] by (simp add: same_core_def)
  ultimately show ?thesis
    using p Write wr by (auto simp: sendCommand_def Let_def sendWrite_def)
qed

end

lemma exec_ok_send:
  assumes ok: "exec_ok x" and p: "mWaitingCommand x = Some p" and s: "sendCommand env x = Inr x'"
  shows "exec_ok x' \<and> (if mWaitingCommand x' = None then pending x = add_mset p (pending x')
                        else pending x' = pending x)"
proof -
  note f = sendCommand_frame [OF s p]
  have kinds: "same_kinds (cmds x) (cmds x')" using f by blast
  have pend: "if mWaitingCommand x' = None then pending x = add_mset p (pending x')
      else pending x' = pending x"
    using f p by (auto simp: pending_def waiting_def queue_sum_def same_queues_def split: if_splits)
  have isp: "(\<lambda>p. \<not> isPoll (cmds x' p)) = (\<lambda>p. \<not> isPoll (cmds x p))"
    using kinds by (simp add: same_kinds_def)
  have "int (pending_writes x') \<le> mWriteCommandsQueued x'"
    using ok f pend by (auto simp: exec_ok_def pending_writes_def isp split: if_splits)
  moreover have "queues_ok x'"
    using ok f kinds by (auto simp: exec_ok_def queues_ok_def same_queues_def intro: queues_wf_kinds)
  ultimately show ?thesis
    using ok f p pend
    by (auto simp: exec_ok_def same_queues_def allDone_def split: option.splits if_splits)
qed

lemma writable_pending_kinds:
  "writable_pending x \<Longrightarrow> same_kinds (cmds x) (cmds x') \<Longrightarrow> pending x' \<subseteq># pending x \<Longrightarrow>
   writable_pending x'"
  by (auto simp: writable_pending_def same_kinds_def dest: mset_subset_eqD)

lemma ticks_irrelevant [simp]:
  "pending (x\<lparr>ticks := n\<rparr>) = pending x" "exec_ok (x\<lparr>ticks := n\<rparr>) = exec_ok x"
  "writable_pending (x\<lparr>ticks := n\<rparr>) = writable_pending x"
  by (simp_all add: pending_def queue_sum_def waiting_def pending_writes_def queues_ok_def allDone_def
      exec_ok_def writable_pending_def split: option.splits)

lemma initial_irrelevant [simp]:
  "pending (x\<lparr>mInitialPoll := b\<rparr>) = pending x" "exec_ok (x\<lparr>mInitialPoll := b\<rparr>) = exec_ok x"
  by (simp_all add: pending_def queue_sum_def waiting_def pending_writes_def queues_ok_def allDone_def
      exec_ok_def split: option.splits)

lemma finishInitialPoll_frame [simp]:
  "pending (finishInitialPoll env x) = pending x" "exec_ok (finishInitialPoll env x) = exec_ok x"
  "cmds (finishInitialPoll env x) = cmds x" "ios (finishInitialPoll env x) = ios x"
  "mWaitingCommand (finishInitialPoll env x) = mWaitingCommand x"
  "mLastCommand (finishInitialPoll env x) = mLastCommand x"
  by (simp_all add: finishInitialPoll_def now_def)

section \<open>One call of \<open>executeNext\<close>\<close>

text \<open>
  A call either reports how long to wait and changes nothing else, or sends one command once its
  delay has passed. The command then is done, or it waits for a retry after a failure.
\<close>

definition reports_delay :: "env \<Rightarrow> executor \<Rightarrow> duration \<Rightarrow> executor \<Rightarrow> bool" where
  "reports_delay env x d x' \<longleftrightarrow> 0 < d \<and> ios x' = ios x \<and> cmds x' = cmds x \<and> pending x' = pending x \<and>
     (\<exists>p. mWaitingCommand x' = Some p \<and>
        d = command_delay x p - (clock env (ticks x) - mLastCommandTime x))"

definition served :: "ptr \<Rightarrow> executor \<Rightarrow> executor \<Rightarrow> bool" where
  "served p x x' \<longleftrightarrow>
     (if mWaitingCommand x' = None then pending x = add_mset p (pending x')
      else mWaitingCommand x' = Some p \<and> pending x' = pending x \<and> \<not> executedOk (cmds x' p))"

definition sends_one :: "env \<Rightarrow> executor \<Rightarrow> executor \<Rightarrow> bool" where
  "sends_one env x x' \<longleftrightarrow> ios x' = Suc (ios x) \<and>
     (\<exists>p. mLastCommand x' = Some p \<and> p \<in># pending x \<and>
        (command_delay x p = 0 \<or> command_delay x p \<le> clock env (ticks x) - mLastCommandTime x) \<and>
        served p x x')"

lemma command_delay_cong:
  "cmds x' = cmds x \<Longrightarrow> mLastCommand x' = mLastCommand x \<Longrightarrow> command_delay x' p = command_delay x p"
  by (auto simp: command_delay_def split: option.splits)

lemma served_cong: "pending y = pending x \<Longrightarrow> served p y x' = served p x x'"
  by (auto simp: served_def)

lemma pending_member: "mWaitingCommand x = Some p \<Longrightarrow> p \<in># pending x"
  by (simp add: pending_def waiting_def)

lemma sendAndFinish_sends:
  assumes ok: "exec_ok x" and p: "mWaitingCommand x = Some p" and s: "sendCommand env x = Inr x1"
    and w: "writable_pending x"
  shows "\<exists>x'. sendAndFinish env x = Inr (0, x') \<and> exec_ok x' \<and> writable_pending x' \<and>
    ios x' = Suc (ios x) \<and> mLastCommand x' = Some p \<and> served p x x'"
proof -
  let ?x' = "finishInitialPoll env x1"
  note f = sendCommand_frame [OF s p]
  note e = exec_ok_send [OF ok p s]
  have "pending x1 \<subseteq># pending x" using e by (auto split: if_splits)
  then have "writable_pending x1" using w f writable_pending_kinds by blast
  then have "writable_pending ?x'" by (simp add: writable_pending_def)
  then show ?thesis
    using s f e by (intro exI [of _ ?x']) (auto simp: sendAndFinish_def served_def split: if_splits)
qed

context modbus_context
begin

lemma executeSelected_total:
  assumes ok: "exec_ok x" and p: "mWaitingCommand x = Some p" and w: "writable_pending x"
  shows "\<exists>d x'. executeSelected env x = Inr (d, x') \<and> exec_ok x' \<and> writable_pending x' \<and>
    (reports_delay env x d x' \<or> d = 0 \<and> sends_one env x x')"
proof -
  have wp: "writable (cmds x p)" using w p pending_member by (auto simp: writable_pending_def)
  let ?t = "x\<lparr>ticks := Suc (ticks x)\<rparr>"
  obtain k where k: "mCurrentSlaveQueue x = Some k" "map_of (mSlaveQueues x) k \<noteq> None"
    using ok p by (auto simp: exec_ok_def allDone_def split: option.splits)
  obtain x1 where s1: "sendCommand env x = Inr x1" using sendCommand_total [OF ok p wp] by blast
  obtain x2 where s2: "sendCommand env ?t = Inr x2" using sendCommand_total [of ?t p] ok p wp by auto
  have t: "writable_pending ?t" "exec_ok ?t" "mWaitingCommand ?t = Some p" using w ok p by simp_all
  let ?delay = "command_delay x p" and ?passed = "clock env (ticks x) - mLastCommandTime x"
  consider "?delay = 0" | "?delay \<noteq> 0" "?delay \<le> ?passed" | "?delay \<noteq> 0" "?passed < ?delay"
    by linarith
  then show ?thesis
  proof cases
    case 1
    then show ?thesis
      using sendAndFinish_sends [OF ok p s1 w] p pending_member [OF p]
      by (auto simp: executeSelected_def sends_one_def)
  next
    case 2
    then show ?thesis
      using sendAndFinish_sends [OF t(2,3) s2 t(1)] p pending_member [OF p]
        served_cong [of ?t x]
      by (auto simp: executeSelected_def sends_one_def now_def Let_def)
  next
    case 3
    then show ?thesis
      using p k ok w by (auto simp: executeSelected_def reports_delay_def now_def Let_def deref_def)
  qed
qed

lemma executeNext_total:
  assumes ok: "exec_ok x" and work: "\<not> allDone x" and w: "writable_pending x"
  shows "\<exists>d x'. executeNext env x = Some (Inr (d, x')) \<and> exec_ok x' \<and> writable_pending x' \<and>
    (reports_delay env x d x' \<or> d = 0 \<and> sends_one env x x')"
proof -
  from selectNext_ok [OF ok work] obtain y p where
    y: "selectNext x = Some (Inr (False, y))" "exec_ok y" "pending y = pending x"
      "mWaitingCommand y = Some p" "same_world x y"
    by auto
  then have "writable_pending y" using w by (simp add: writable_pending_def same_world_def)
  from executeSelected_total [OF y(2,4) this] obtain d x' where
    e: "executeSelected env y = Inr (d, x')" "exec_ok x'" "writable_pending x'"
      "reports_delay env y d x' \<or> d = 0 \<and> sends_one env y x'"
    by blast
  have "command_delay y q = command_delay x q" for q
    using y(5) by (intro command_delay_cong) (simp_all add: same_world_def)
  then have "reports_delay env x d x' \<or> d = 0 \<and> sends_one env x x'"
    using e(4) y(3,5) served_cong [OF y(3)]
    by (simp add: reports_delay_def sends_one_def same_world_def)
  then show ?thesis using y(1) e by (simp add: executeNext_def)
qed

end

text \<open>The context of the gateway is libmodbus, wrapped by \<open>ModbusContext\<close>.\<close>

definition libmodbus_env :: "libmodbus \<Rightarrow> (nat \<Rightarrow> time) \<Rightarrow> env" where
  "libmodbus_env lib clk =
     \<lparr>clock = clk, ctxRead = readModbusRegisters lib, ctxWrite = writeModbusRegisters lib\<rparr>"

interpretation libmodbus_ctx: modbus_context "libmodbus_env lib clk" for lib clk
proof
  show "ctxRead (libmodbus_env lib clk) n s r = Inl e \<Longrightarrow> e = ReadException" for n s r e
    by (simp add: libmodbus_env_def read_only_read_exception)
  show "ctxWrite (libmodbus_env lib clk) n s w = Inl e \<Longrightarrow>
      e = WriteException \<or> e = OtherContextException \<and> \<not> writable (Write w)" for n s w e
    by (auto simp: libmodbus_env_def writeModbusRegisters_def Let_def
        split: register_type.splits if_splits)
qed

end
