(* ===== verification/Executor_Adding.thy ===== *)
theory Executor_Adding
  imports Executor_Invariant
begin

text \<open>
  Adding commands to the executor: polls of the scheduler with the election of the first one,
  single reads, and writes with their fast path.
\<close>

section \<open>Polls entering the queues\<close>

text \<open>Queues with more polls: \<open>a\<close> is what was added.\<close>

definition added_polls :: "heap \<Rightarrow> (int, request_queues) omap \<Rightarrow> ptr multiset \<Rightarrow> (int, request_queues) omap \<Rightarrow> bool" where
  "added_polls h m a m' \<longleftrightarrow>
     omap_sum (\<lambda>e. queued (snd e)) m' = omap_sum (\<lambda>e. queued (snd e)) m + a \<and>
     (\<forall>p \<in># a. isPoll (h p)) \<and>
     (\<forall>k q. map_of m k = Some q \<longrightarrow>
        (\<exists>q'. map_of m' k = Some q' \<and> set (mPollQueue q) \<subseteq> set (mPollQueue q')))"

definition wf_map :: "heap \<Rightarrow> (int, request_queues) omap \<Rightarrow> bool" where
  "wf_map h m \<longleftrightarrow> omap_ok m \<and> (\<forall>k q. map_of m k = Some q \<longrightarrow> queues_wf h q)"

lemma queues_ok_wf_map: "queues_ok x \<longleftrightarrow> wf_map (cmds x) (mSlaveQueues x)"
  by (simp add: queues_ok_def wf_map_def)

lemma push_poll_queued:
  "queued (push_poll p q) = queued q + (if p \<in> set (mPollQueue q) then {#} else {#p#})"
  by (simp add: push_poll_def queued_def)

lemma addPollList_queued: "\<exists>a. queued (queue_addPollList ps q) = queued q + a \<and> set_mset a \<subseteq> set ps"
proof (induction ps arbitrary: q)
  case Nil
  then show ?case by (simp add: queue_addPollList_def)
next
  case (Cons p ps)
  obtain a where a: "queued (queue_addPollList ps (push_poll p q)) = queued (push_poll p q) + a"
    "set_mset a \<subseteq> set ps"
    using Cons by blast
  show ?case
    by (rule exI [of _ "(if p \<in> set (mPollQueue q) then {#} else {#p#}) + a"])
      (use a in \<open>auto simp: queue_addPollList_def push_poll_queued\<close>)
qed

lemma modify_addPollList:
  assumes ok: "wf_map h m" and ps: "\<forall>p \<in> set ps. isPoll (h p)"
  shows "\<exists>a. added_polls h m a (omap_modify new_queues (queue_addPollList ps) k m) \<and> set_mset a \<subseteq> set ps \<and>
    wf_map h (omap_modify new_queues (queue_addPollList ps) k m)"
proof -
  let ?q = "case map_of m k of None \<Rightarrow> new_queues | Some q \<Rightarrow> q"
  obtain a where a: "queued (queue_addPollList ps ?q) = queued ?q + a" "set_mset a \<subseteq> set ps"
    using addPollList_queued by blast
  have om: "omap_ok m" using ok by (simp add: wf_map_def)
  have "omap_sum (\<lambda>e. queued (snd e)) (omap_modify new_queues (queue_addPollList ps) k m) =
      omap_sum (\<lambda>e. queued (snd e)) m + a"
    using a by (intro omap_sum_modify [OF om]) (simp split: option.splits)
  moreover have "queues_wf h (queue_addPollList ps ?q)"
    using ok ps by (intro addPollList_wf) (auto simp: wf_map_def split: option.splits)
  then have "wf_map h (omap_modify new_queues (queue_addPollList ps) k m)"
    using ok om by (auto simp: wf_map_def map_of_omap_modify)
  ultimately show ?thesis
    using a ps om by (auto simp: added_polls_def map_of_omap_modify subset_iff)
qed

lemma insert_new_queues:
  assumes "wf_map h m"
  shows "added_polls h m {#} (omap_insert k new_queues m) \<and> wf_map h (omap_insert k new_queues m)"
proof -
  have om: "omap_ok m" using assms by (simp add: wf_map_def)
  then have "omap_sum (\<lambda>e. queued (snd e)) (omap_insert k new_queues m) = omap_sum (\<lambda>e. queued (snd e)) m"
    using omap_sum_put [OF om, of "\<lambda>e. queued (snd e)" k new_queues]
    by (auto simp: omap_insert_def split: option.splits)
  then show ?thesis
    using assms om by (auto simp: added_polls_def wf_map_def map_of_omap_insert split: option.splits)
qed

lemma added_polls_trans:
  "added_polls h m a m' \<Longrightarrow> added_polls h m' b m'' \<Longrightarrow> added_polls h m (a + b) m''"
  unfolding added_polls_def by (auto simp: add_ac) (meson subset_trans)

text \<open>The insertion loop: the queues of all slaves, and the first slave that got a poll.\<close>

lemma insert_polls_ok:
  assumes "wf_map h m" and "\<forall>e \<in> set pr. \<forall>p \<in> set (snd e). isPoll (h p)"
    and "insert_polls pr fa m = (fa', m')"
    and "\<forall>k. fa = Some k \<longrightarrow> (\<exists>q. map_of m k = Some q \<and> mPollQueue q \<noteq> [])"
  shows "\<exists>a. added_polls h m a m' \<and> wf_map h m' \<and> set_mset a \<subseteq> (\<Union>e \<in> set pr. set (snd e)) \<and>
    (\<forall>k. fa' = Some k \<longrightarrow> (\<exists>q. map_of m' k = Some q \<and> mPollQueue q \<noteq> [])) \<and>
    (fa' = None \<longrightarrow> a = {#})"
  using assms
proof (induction pr arbitrary: fa m)
  case Nil
  then show ?case by (intro exI [of _ "{#}"]) (auto simp: added_polls_def)
next
  case (Cons e pr)
  obtain k ps where e: "e = (k, ps)" by (cases e)
  define m1 where "m1 = omap_modify new_queues (queue_addPollList ps) k (omap_insert k new_queues m)"
  define fa1 where "fa1 = (if ps \<noteq> [] \<and> fa = None then Some k else fa)"
  have rec: "insert_polls pr fa1 m1 = (fa', m')"
    using Cons.prems(3) e by (simp add: m1_def fa1_def)
  note ins = insert_new_queues [OF Cons.prems(1), of k]
  obtain a where a: "added_polls h (omap_insert k new_queues m) a m1" "set_mset a \<subseteq> set ps" "wf_map h m1"
    using modify_addPollList [of h "omap_insert k new_queues m" ps k] ins Cons.prems(2) e
    by (auto simp: m1_def)
  then have add: "added_polls h m a m1" using added_polls_trans ins by force
  have k: "\<exists>q. map_of m1 k = Some q \<and> set ps \<subseteq> set (mPollQueue q)"
    using ins by (simp add: m1_def wf_map_def map_of_omap_modify)
  have "\<exists>q. map_of m1 j = Some q \<and> mPollQueue q \<noteq> []" if j: "fa1 = Some j" for j
  proof (cases fa)
    case None
    then show ?thesis using k j by (auto simp: fa1_def split: if_splits)
  next
    case (Some i)
    then obtain q where "map_of m j = Some q" "mPollQueue q \<noteq> []"
      using Cons.prems(4) j by (auto simp: fa1_def)
    then show ?thesis using add unfolding added_polls_def by fastforce
  qed
  then have "\<forall>j. fa1 = Some j \<longrightarrow> (\<exists>q. map_of m1 j = Some q \<and> mPollQueue q \<noteq> [])" by blast
  from Cons.IH [OF a(3) _ rec this] Cons.prems(2) obtain b where
    b: "added_polls h m1 b m'" "wf_map h m'" "set_mset b \<subseteq> (\<Union>e \<in> set pr. set (snd e))"
      "\<forall>k. fa' = Some k \<longrightarrow> (\<exists>q. map_of m' k = Some q \<and> mPollQueue q \<noteq> [])" "fa' = None \<longrightarrow> b = {#}"
    by auto
  have none: "fa' = None \<longrightarrow> fa1 = None"
    using rec by (induction pr fa1 m1 rule: insert_polls.induct) (auto simp: Let_def split: if_splits)
  then have "fa' = None \<longrightarrow> a = {#}" using a(2) by (auto simp: fa1_def split: if_splits)
  then show ?case
    using added_polls_trans [OF add b(1)] a(2) b e by (intro exI [of _ "a + b"]) auto
qed

section \<open>The election\<close>

definition same_contents :: "executor \<Rightarrow> executor \<Rightarrow> bool" where
  "same_contents x x' \<longleftrightarrow> mWaitingCommand x' = mWaitingCommand x \<and>
     mCurrentSlaveQueue x' = mCurrentSlaveQueue x \<and>
     (\<forall>k. map_option queued (map_of (mSlaveQueues x') k) = map_option queued (map_of (mSlaveQueues x) k))"

text \<open>What a part of the election may do: nothing, or take a command out of a queue.\<close>

definition elected :: "executor \<Rightarrow> executor \<Rightarrow> bool" where
  "elected x x' \<longleftrightarrow> same_world x x' \<and> mCommandsLeft x' = mCommandsLeft x \<and> queues_ok x' \<and>
     dom (map_of (mSlaveQueues x')) = dom (map_of (mSlaveQueues x)) \<and> pending x' \<subseteq># pending x \<and>
     (same_contents x x' \<or>
      (\<exists>p k. mWaitingCommand x' = Some p \<and> mCurrentSlaveQueue x' = Some k \<and>
         map_of (mSlaveQueues x') k \<noteq> None))"

lemma elected_refl: "queues_ok x \<Longrightarrow> elected x x"
  by (simp add: elected_def same_world_def same_contents_def)

lemma elected_trans:
  assumes "elected x y" and "elected y z"
  shows "elected x z"
proof -
  have w: "same_world x z" and c: "mCommandsLeft z = mCommandsLeft x"
    and d: "dom (map_of (mSlaveQueues z)) = dom (map_of (mSlaveQueues x))"
    and s: "pending z \<subseteq># pending x"
    using assms by (auto simp: elected_def same_world_def)
  have "same_contents x z \<or> (\<exists>p k. mWaitingCommand z = Some p \<and> mCurrentSlaveQueue z = Some k \<and>
         map_of (mSlaveQueues z) k \<noteq> None)"
  proof (cases "same_contents y z")
    case True
    have "map_of (mSlaveQueues z) k \<noteq> None \<longleftrightarrow> map_of (mSlaveQueues y) k \<noteq> None" for k
      using True by (metis same_contents_def option.map_disc_iff)
    then show ?thesis
      using assms(1) True by (auto simp: elected_def same_contents_def)
  next
    case False
    then show ?thesis using assms(2) by (auto simp: elected_def)
  qed
  then show ?thesis using w c d s assms(2) by (simp add: elected_def)
qed

text \<open>The two ways an iteration ends.\<close>

lemma elect_keep:
  assumes ok: "queues_ok x" and q: "map_of (mSlaveQueues x) k = Some q"
    and q1: "findForSilencePeriod (cmds x) P ig q = (d, q1)"
  shows "elected x (x\<lparr>mSlaveQueues := omap_put k q1 (mSlaveQueues x)\<rparr>)"
proof -
  have eq: "mPollQueue q1 = mPollQueue q" "mWriteQueue q1 = mWriteQueue q"
    using findForSilencePeriod_queues [of "cmds x" P ig q] q1 by simp_all
  then have "queues_wf (cmds x) q1" and quq: "queued q1 = queued q"
    using ok q by (auto simp: queues_ok_def queues_wf_def queued_def)
  then have "queues_ok (x\<lparr>mSlaveQueues := omap_put k q1 (mSlaveQueues x)\<rparr>)"
    using ok by (intro queues_ok_put)
  moreover have om: "omap_ok (mSlaveQueues x)" using ok by (simp add: queues_ok_def)
  moreover have "omap_sum (\<lambda>e. queued (snd e)) (omap_put k q1 (mSlaveQueues x)) = queue_sum x"
    using queue_sum_put [OF om, of k q1] q quq by simp
  then have "pending (x\<lparr>mSlaveQueues := omap_put k q1 (mSlaveQueues x)\<rparr>) = pending x"
    by (simp add: pending_def queue_sum_def waiting_def)
  ultimately show ?thesis
    using q quq by (auto simp: elected_def same_world_def same_contents_def map_of_omap_put)
qed

lemma elect_take:
  assumes ok: "queues_ok x" and q: "map_of (mSlaveQueues x) k = Some q"
    and q1: "findForSilencePeriod (cmds x) P ig q = (d, q1)" and d: "d < duration_max"
  shows "\<exists>p q2. popFirstWithDelay (cmds x) P ig q1 = Some (Inr (p, q2)) \<and>
    elected x (x\<lparr>mSlaveQueues := omap_put k q2 (mSlaveQueues x),
                 mWaitingCommand := Some p, mCurrentSlaveQueue := Some k\<rparr>)"
proof -
  from find_then_pop [OF q1 d, of P ig] obtain i where
    i: "i < length (mPollQueue q1)" "popFirstWithDelay (cmds x) P ig q1 = Some (Inr (erase_found i q1))"
    "mPollQueue q1 = mPollQueue q" "mWriteQueue q1 = mWriteQueue q"
    by auto
  obtain p q2 where e: "erase_found i q1 = (p, q2)" by (cases "erase_found i q1")
  have om: "omap_ok (mSlaveQueues x)" and wf: "queues_wf (cmds x) q1"
    using ok q i by (auto simp: queues_ok_def queues_wf_def)
  note wf2 = erase_found_wf [OF wf i(1) e]
  let ?m = "omap_put k q2 (mSlaveQueues x)"
  have "queued q = add_mset p (queued q2)"
    using erase_found_queued [OF i(1) e] i by (simp add: queued_def)
  then have "queue_sum x = add_mset p (omap_sum (\<lambda>e. queued (snd e)) ?m)"
    using queue_sum_put [OF om, of k q2] q by simp
  then have "pending (x\<lparr>mSlaveQueues := ?m, mWaitingCommand := Some p, mCurrentSlaveQueue := Some k\<rparr>)
      \<subseteq># pending x"
    by (simp add: pending_def queue_sum_def waiting_def)
  moreover have "queues_ok (x\<lparr>mSlaveQueues := ?m\<rparr>)" using ok wf2 by (intro queues_ok_put) simp_all
  moreover have "dom (map_of ?m) = dom (map_of (mSlaveQueues x))" "map_of ?m k \<noteq> None"
    using q om by (auto simp: map_of_omap_put)
  ultimately have "elected x (x\<lparr>mSlaveQueues := ?m, mWaitingCommand := Some p, mCurrentSlaveQueue := Some k\<rparr>)"
    by (auto simp: elected_def same_world_def queues_ok_def)
  then show ?thesis using i e by simp
qed

lemma elect_ok:
  assumes "queues_ok x" and "set ks \<subseteq> dom (map_of (mSlaveQueues x))" and "cd \<le> duration_max"
  shows "\<exists>x'. elect P ks cd x = Some (Inr x') \<and> elected x x'"
  using assms
proof (induction ks arbitrary: cd x)
  case Nil
  then show ?case by (simp add: elected_refl)
next
  case (Cons k ks)
  have step: "\<exists>x'. elect P ks d y = Some (Inr x') \<and> elected x x'" if y: "elected x y" "d \<le> duration_max" for d y
  proof -
    have "\<exists>x'. elect P ks d y = Some (Inr x') \<and> elected y x'"
      using y Cons.prems by (intro Cons.IH) (auto simp: elected_def)
    then show ?thesis using elected_trans [OF y(1)] by blast
  qed
  from Cons.prems(2) obtain q where q: "map_of (mSlaveQueues x) k = Some q" by auto
  let ?ig = "mCurrentSlaveQueue x = Some k"
  obtain d q1 where f: "findForSilencePeriod (cmds x) P ?ig q = (d, q1)" by fastforce
  consider "cd = 0" | "cd \<noteq> 0" "d < cd" | "cd \<noteq> 0" "\<not> d < cd" by blast
  then show ?case
  proof cases
    case 1
    then show ?thesis using step [OF elected_refl] Cons.prems by simp
  next
    case 2
    then have "d < duration_max" using Cons.prems(3) by simp
    from elect_take [OF Cons.prems(1) q f this] obtain p q2 where
      "popFirstWithDelay (cmds x) P ?ig q1 = Some (Inr (p, q2))"
      "elected x (x\<lparr>mSlaveQueues := omap_put k q2 (mSlaveQueues x),
                    mWaitingCommand := Some p, mCurrentSlaveQueue := Some k\<rparr>)"
      by blast
    then show ?thesis
      using 2 q f step \<open>d < duration_max\<close> by (auto simp: Let_def)
  next
    case 3
    then show ?thesis
      using q f step [OF elect_keep [OF Cons.prems(1) q f] Cons.prems(3)] by simp
  qed
qed

lemma pending_writes_mono:
  "cmds x' = cmds x \<Longrightarrow> pending x' \<subseteq># pending x \<Longrightarrow> pending_writes x' \<le> pending_writes x"
  by (auto simp: pending_writes_def intro!: size_mset_mono multiset_filter_mono)

text \<open>
  The executor with an election won: the invariant holds if a command waits or, nobody having
  been elected, one is taken from the current queue.
\<close>

lemma elected_exec_ok:
  assumes e: "elected x x'" and w: "int (pending_writes x) \<le> mWriteCommandsQueued x" "0 \<le> mCommandsLeft x"
    and k: "mCurrentSlaveQueue x = Some k" "map_of (mSlaveQueues x) k \<noteq> None"
  shows "exec_ok x'"
proof -
  have "pending_writes x' \<le> pending_writes x"
    using e by (intro pending_writes_mono) (auto simp: elected_def same_world_def)
  moreover have "mWriteCommandsQueued x' = mWriteCommandsQueued x"
    using e by (simp add: elected_def same_world_def)
  moreover have "map_of (mSlaveQueues x') k \<noteq> None"
    using e k by (auto simp: elected_def)
  ultimately show ?thesis
    using e w k by (auto simp: elected_def same_contents_def exec_ok_def)
qed

lemma start_election_ok:
  assumes ok: "queues_ok x" and none: "mWaitingCommand x = None"
    and w: "int (pending_writes x) \<le> mWriteCommandsQueued x"
    and k: "map_of (mSlaveQueues x) k = Some q" and q: "mPollQueue q \<noteq> []"
  shows "\<exists>x'. start_election env k x = Some (Inr x') \<and> exec_ok x' \<and> cmds x' = cmds x \<and>
    ios x' = ios x \<and> pending x' \<subseteq># pending x \<and> mWaitingCommand x' \<noteq> None"
proof -
  let ?y = "x\<lparr>mCurrentSlaveQueue := Some k, ticks := Suc (ticks x)\<rparr>"
  obtain n where n: "resetCommandsCounter ?y = Inr (?y\<lparr>mCommandsLeft := n\<rparr>)" "0 < n"
    using resetCommandsCounter_ok [of ?y k] k by auto
  let ?z = "?y\<lparr>mCommandsLeft := n\<rparr>"
  have z: "queues_ok ?z" using ok by (simp add: queues_ok_def)
  have pz: "pending ?z = pending x" by (simp add: pending_def queue_sum_def waiting_def)
  then have "pending_writes ?z = pending_writes x" by (simp add: pending_writes_def)
  then have wz: "int (pending_writes ?z) \<le> mWriteCommandsQueued ?z" "0 \<le> mCommandsLeft ?z"
    using w n by simp_all
  let ?P = "clock env (ticks x) - mLastCommandTime x"
  have "set (map fst (mSlaveQueues x)) \<subseteq> dom (map_of (mSlaveQueues ?z))"
    by (simp add: dom_map_of_conv_image_fst)
  from elect_ok [OF z this order_refl, of ?P] obtain v where
    v: "elect ?P (map fst (mSlaveQueues x)) duration_max ?z = Some (Inr v)" "elected ?z v"
    by blast
  have okv: "exec_ok v" using elected_exec_ok [OF v(2) wz, of k] k by simp
  have start: "start_election env k x = Some (if mWaitingCommand v = None then popCurrent v else Inr v)"
    using none n v by (simp add: start_election_def now_def Let_def)
  have same: "cmds v = cmds x" "ios v = ios x" "pending v \<subseteq># pending x"
    using v(2) pz by (simp_all add: elected_def same_world_def)
  show ?thesis
  proof (cases "mWaitingCommand v")
    case None
    then have c: "mCurrentSlaveQueue v = Some k"
      "map_option queued (map_of (mSlaveQueues v) k) = Some (queued q)"
      using v(2) k by (auto simp: elected_def same_contents_def)
    then obtain qv where qv: "map_of (mSlaveQueues v) k = Some qv" "queued qv = queued q" by auto
    then have "\<not> queues_empty qv" using q by (simp add: queues_empty_iff) (simp add: queued_def)
    from pop_from [OF okv None qv(1) this] obtain x' where
      x': "popCurrent (v\<lparr>mCurrentSlaveQueue := Some k\<rparr>) = Inr x'" "took_from k v x'" by blast
    have "v\<lparr>mCurrentSlaveQueue := Some k\<rparr> = v" using c(1) by simp
    then show ?thesis
      using start None x' same by (auto simp: took_from_def same_world_def)
  next
    case (Some p)
    then show ?thesis using start okv same by simp
  qed
qed

lemma markInitialPoll_frame [simp]:
  "mSlaveQueues (markInitialPoll env ini x) = mSlaveQueues x"
  "cmds (markInitialPoll env ini x) = cmds x" "ios (markInitialPoll env ini x) = ios x"
  "mCurrentSlaveQueue (markInitialPoll env ini x) = mCurrentSlaveQueue x"
  "mWaitingCommand (markInitialPoll env ini x) = mWaitingCommand x"
  "mWriteCommandsQueued (markInitialPoll env ini x) = mWriteCommandsQueued x"
  "mCommandsLeft (markInitialPoll env ini x) = mCommandsLeft x"
  by (simp_all add: markInitialPoll_def now_def)

lemma addPollList_ok:
  assumes ok: "exec_ok x" and pr: "\<forall>e \<in> set pr. \<forall>p \<in> set (snd e). isPoll (cmds x p)"
  shows "\<exists>x' a. addPollList env pr ini x = Some (Inr x') \<and> exec_ok x' \<and> cmds x' = cmds x \<and>
    ios x' = ios x \<and> set_mset a \<subseteq> (\<Union>e \<in> set pr. set (snd e)) \<and> pending x' \<subseteq># pending x + a \<and>
    (\<not> allDone x \<longrightarrow> pending x' = pending x + a)"
proof (cases "mInitialPoll x \<and> \<not> pollDone x")
  case True
  then show ?thesis using ok by (intro exI [of _ x] exI [of _ "{#}"]) (simp add: addPollList_def)
next
  case False
  define y where "y = markInitialPoll env ini x"
  then have y: "mSlaveQueues y = mSlaveQueues x" "cmds y = cmds x" "ios y = ios x"
    "mCurrentSlaveQueue y = mCurrentSlaveQueue x" "mWaitingCommand y = mWaitingCommand x"
    "mWriteCommandsQueued y = mWriteCommandsQueued x" "mCommandsLeft y = mCommandsLeft x"
    by simp_all
  obtain fa m where ins: "insert_polls pr None (mSlaveQueues x) = (fa, m)" by fastforce
  have "wf_map (cmds x) (mSlaveQueues x)" using ok by (simp add: exec_ok_def queues_ok_wf_map)
  from insert_polls_ok [OF this pr ins] obtain a where
    a: "added_polls (cmds x) (mSlaveQueues x) a m" "wf_map (cmds x) m"
      "set_mset a \<subseteq> (\<Union>e \<in> set pr. set (snd e))"
      "\<forall>k. fa = Some k \<longrightarrow> (\<exists>q. map_of m k = Some q \<and> mPollQueue q \<noteq> [])" "fa = None \<longrightarrow> a = {#}"
    by auto
  let ?z = "y\<lparr>mSlaveQueues := m\<rparr>"
  have pend: "pending ?z = pending x + a"
    using a(1) y by (simp add: added_polls_def pending_def queue_sum_def waiting_def)
  have "filter_mset (\<lambda>p. \<not> isPoll (cmds x p)) a = {#}"
    using a(1) by (auto simp: added_polls_def filter_mset_eq_conv)
  then have pw: "pending_writes ?z = pending_writes x"
    using pend y by (simp add: pending_writes_def)
  have zok: "queues_ok ?z" using a(2) y by (simp add: queues_ok_wf_map)
  have def: "addPollList env pr ini x =
      (case fa of None \<Rightarrow> Some (Inr ?z)
       | Some k \<Rightarrow> if \<not> allDone x then Some (Inr ?z) else start_election env k ?z)"
    using False ins by (cases fa) (auto simp: addPollList_def y_def Let_def)
  have "map_of m k \<noteq> None" if "map_of (mSlaveQueues x) k \<noteq> None" for k
    using a(1) that unfolding added_polls_def by (metis not_None_eq)
  then have stay: "exec_ok ?z" if "fa = None \<or> \<not> allDone x"
    using that ok a(5) zok pw y pend
    by (auto simp: exec_ok_def allDone_iff split: option.splits)
  show ?thesis
  proof (cases "fa = None \<or> \<not> allDone x")
    case True
    then have "addPollList env pr ini x = Some (Inr ?z)" using def by (cases fa) auto
    then show ?thesis using stay [OF True] a y pend by (intro exI [of _ ?z] exI [of _ a]) auto
  next
    case False
    then obtain k where k: "fa = Some k" "allDone x" by auto
    then obtain q where "map_of (mSlaveQueues ?z) k = Some q" "mPollQueue q \<noteq> []" using a(4) by auto
    from start_election_ok [OF zok _ _ this, of env] obtain x' where
      "start_election env k ?z = Some (Inr x')" "exec_ok x'" "cmds x' = cmds x" "ios x' = ios x"
      "pending x' \<subseteq># pending x + a"
      using k ok y pw pend by (auto simp: exec_ok_def allDone_def)
    then show ?thesis using def k a by (intro exI [of _ x'] exI [of _ a]) simp
  qed
qed

section \<open>Reads and writes\<close>

text \<open>The end of both operations: an executor without a current queue gets the one of slave \<open>k\<close>.\<close>

lemma point_if_end:
  assumes "queues_ok y" and "map_of (mSlaveQueues y) k \<noteq> None"
    and "\<forall>j. mCurrentSlaveQueue y = Some j \<longrightarrow> map_of (mSlaveQueues y) j \<noteq> None"
    and "int (pending_writes y) \<le> mWriteCommandsQueued y + c" and "0 \<le> mCommandsLeft y"
  shows "\<exists>x'. (if mCurrentSlaveQueue y = None
      then resetCommandsCounter (y\<lparr>mCurrentSlaveQueue := omap_find k (mSlaveQueues y)\<rparr>)
      else Inr y) = Inr x' \<and> pending x' = pending y \<and> cmds x' = cmds y \<and>
    exec_ok (x'\<lparr>mWriteCommandsQueued := mWriteCommandsQueued x' + c\<rparr>)"
proof (cases "mCurrentSlaveQueue y")
  case None
  have "omap_find k (mSlaveQueues y) = Some k" using assms(2) by (auto simp: omap_find_def)
  moreover obtain n where n: "resetCommandsCounter (y\<lparr>mCurrentSlaveQueue := Some k\<rparr>) =
      Inr (y\<lparr>mCurrentSlaveQueue := Some k, mCommandsLeft := n\<rparr>)" "0 < n"
    using resetCommandsCounter_ok [of "y\<lparr>mCurrentSlaveQueue := Some k\<rparr>" k] assms(2) by auto
  moreover have "pending (y\<lparr>mCurrentSlaveQueue := Some k, mCommandsLeft := n\<rparr>) = pending y"
    by (simp add: pending_def queue_sum_def waiting_def)
  moreover have "exec_ok (y\<lparr>mCurrentSlaveQueue := Some k, mCommandsLeft := n,
      mWriteCommandsQueued := mWriteCommandsQueued y + c\<rparr>)"
    using assms n
    by (auto simp: exec_ok_def queues_ok_def pending_writes_def pending_def queue_sum_def waiting_def)
  ultimately show ?thesis using None by simp
next
  case (Some j)
  then show ?thesis
    using assms
    by (auto simp: exec_ok_def queues_ok_def pending_writes_def pending_def queue_sum_def waiting_def)
qed

lemma modify_current_valid:
  assumes "exec_ok x"
  shows "\<forall>j. mCurrentSlaveQueue x = Some j \<longrightarrow>
     map_of (omap_modify new_queues f k (mSlaveQueues x)) j \<noteq> None"
    and "map_of (omap_modify new_queues f k (mSlaveQueues x)) k \<noteq> None"
  using assms by (auto simp: exec_ok_def queues_ok_def map_of_omap_modify)

text \<open>What the two operations add to the commands owed.\<close>

lemma addReadCommand_pending:
  assumes ok: "exec_ok x" and p: "isPoll (cmds x p)"
  shows "\<exists>x'. addReadCommand p x = Inr x' \<and> exec_ok x' \<and> cmds x' = cmds x \<and>
    pending x' = pending x +
      (case map_of (mSlaveQueues x) (cmdSlaveId (cmds x p)) of
         None \<Rightarrow> {#p#}
       | Some q \<Rightarrow> if p \<in> set (mPollQueue q) then {#} else {#p#})"
proof -
  let ?k = "cmdSlaveId (cmds x p)"
  let ?a = "case map_of (mSlaveQueues x) ?k of None \<Rightarrow> {#p#}
       | Some q \<Rightarrow> if p \<in> set (mPollQueue q) then {#} else {#p#}"
  let ?m = "omap_modify new_queues (queue_addPollList [p]) ?k (mSlaveQueues x)"
  let ?y = "x\<lparr>mSlaveQueues := ?m\<rparr>"
  have om: "omap_ok (mSlaveQueues x)" using ok by (simp add: exec_ok_def queues_ok_def)
  have "omap_sum (\<lambda>e. queued (snd e)) ?m = omap_sum (\<lambda>e. queued (snd e)) (mSlaveQueues x) + ?a"
    by (intro omap_sum_modify [OF om])
      (auto simp: queue_addPollList_def push_poll_queued split: option.splits)
  then have pend: "pending ?y = pending x + ?a"
    by (simp add: pending_def queue_sum_def waiting_def)
  then have "pending_writes ?y = pending_writes x"
    using p by (auto simp: pending_writes_def split: option.splits)
  moreover have "queues_ok ?y"
    using ok p by (intro queues_ok_modify addPollList_wf) (auto simp: exec_ok_def)
  ultimately show ?thesis
    using point_if_end [of ?y ?k 0] modify_current_valid [OF ok] ok pend
    by (auto simp: addReadCommand_def Let_def exec_ok_def)
qed

text \<open>The fast path: the new write waits, what waited before goes back into a queue.\<close>

lemma fast_path:
  assumes ok: "exec_ok x" and p: "\<not> isPoll (cmds x p)"
    and y: "y = (case mWaitingCommand x of None \<Rightarrow> x
      | Some w \<Rightarrow> x\<lparr>mSlaveQueues := omap_modify new_queues (readdCommand (cmds x) w) k (mSlaveQueues x)\<rparr>)"
    and k: "map_of (mSlaveQueues y) k \<noteq> None"
  shows "\<exists>x'. resetCommandsCounter (y\<lparr>mWaitingCommand := Some p,
      mCurrentSlaveQueue := omap_find k (mSlaveQueues y)\<rparr>) = Inr x' \<and> cmds x' = cmds x \<and>
    pending x' = add_mset p (pending x) \<and>
    exec_ok (x'\<lparr>mWriteCommandsQueued := mWriteCommandsQueued x' + 1\<rparr>)"
proof -
  let ?z = "y\<lparr>mWaitingCommand := Some p, mCurrentSlaveQueue := Some k\<rparr>"
  have find: "omap_find k (mSlaveQueues y) = Some k" using k by (auto simp: omap_find_def)
  obtain n where n: "resetCommandsCounter ?z = Inr (?z\<lparr>mCommandsLeft := n\<rparr>)" "0 < n"
    using resetCommandsCounter_ok [of ?z k] k by auto
  have qok: "queues_ok x" and om: "omap_ok (mSlaveQueues x)"
    using ok by (simp_all add: exec_ok_def queues_ok_def)
  have c: "cmds y = cmds x" "mWriteCommandsQueued y = mWriteCommandsQueued x"
    using y by (auto split: option.splits)
  have "queue_sum y = queue_sum x + waiting x"
    using y queue_sum_modify [OF om, of "readdCommand (cmds x) w" "{#w#}" k for w]
    by (auto simp: waiting_def readdCommand_queued queue_sum_def split: option.splits)
  then have pend: "pending ?z = add_mset p (pending x)"
    by (simp add: pending_def queue_sum_def waiting_def)
  then have pw: "pending_writes ?z = Suc (pending_writes x)"
    using p c by (simp add: pending_writes_def)
  have "queues_ok y"
    using y qok queues_ok_modify [OF qok readdCommand_wf] by (auto split: option.splits)
  then have "exec_ok (?z\<lparr>mCommandsLeft := n, mWriteCommandsQueued := mWriteCommandsQueued x + 1\<rparr>)"
    using ok k n pw c
    by (auto simp: exec_ok_def queues_ok_def pending_writes_def pending_def queue_sum_def waiting_def)
  then show ?thesis using n find c pend by simp
qed

lemma counter_irrelevant [simp]: "pending (x\<lparr>mWriteCommandsQueued := n\<rparr>) = pending x"
  by (simp add: pending_def queue_sum_def waiting_def)

lemma slow_path:
  assumes ok: "exec_ok x" and p: "\<not> isPoll (cmds x p)"
    and y: "y = x\<lparr>mSlaveQueues := omap_modify new_queues (queue_addWriteCommand p) k (mSlaveQueues x)\<rparr>"
  shows "\<exists>x'. bindE (if mCurrentSlaveQueue y = None
        then resetCommandsCounter (y\<lparr>mCurrentSlaveQueue := omap_find k (mSlaveQueues y)\<rparr>)
        else Inr y) (\<lambda>x. Inr (x\<lparr>mWriteCommandsQueued := mWriteCommandsQueued x + 1\<rparr>)) = Inr x' \<and>
    exec_ok x' \<and> cmds x' = cmds x \<and> pending x' = add_mset p (pending x)"
proof -
  have qok: "queues_ok x" and om: "omap_ok (mSlaveQueues x)"
    using ok by (simp_all add: exec_ok_def queues_ok_def)
  have pend: "pending y = add_mset p (pending x)"
    using queue_sum_modify [OF om, of "queue_addWriteCommand p" "{#p#}" k]
    by (simp add: y addWriteCommand_queued pending_def queue_sum_def waiting_def)
  then have "pending_writes y = Suc (pending_writes x)" using p by (simp add: y pending_writes_def)
  moreover have "queues_ok y"
    unfolding y using p by (intro queues_ok_modify [OF qok] addWriteCommand_wf)
  ultimately obtain x' where
    "(if mCurrentSlaveQueue y = None
      then resetCommandsCounter (y\<lparr>mCurrentSlaveQueue := omap_find k (mSlaveQueues y)\<rparr>)
      else Inr y) = Inr x'" "pending x' = pending y" "cmds x' = cmds y"
    "exec_ok (x'\<lparr>mWriteCommandsQueued := mWriteCommandsQueued x' + 1\<rparr>)"
    using point_if_end [of y k 1] modify_current_valid [OF ok] ok y by (auto simp: exec_ok_def)
  then show ?thesis using pend y by simp
qed

lemma addWriteCommand_pending:
  assumes ok: "exec_ok x" and p: "\<not> isPoll (cmds x p)"
  shows "if mWriteCommandsQueued x = 0 \<and> mWaitingCommand x = None \<and>
            map_of (mSlaveQueues x) (cmdSlaveId (cmds x p)) = None
         then addWriteCommand p x = Inl DerefEnd
         else \<exists>x'. addWriteCommand p x = Inr x' \<and> exec_ok x' \<and> cmds x' = cmds x \<and>
           pending x' = add_mset p (pending x)"
proof -
  let ?k = "cmdSlaveId (cmds x p)"
  have om: "omap_ok (mSlaveQueues x)" using ok by (simp add: exec_ok_def queues_ok_def)
  show ?thesis
  proof (cases "mWriteCommandsQueued x = 0")
    case True
    define y where "y = (case mWaitingCommand x of None \<Rightarrow> x
      | Some w \<Rightarrow> x\<lparr>mSlaveQueues := omap_modify new_queues (readdCommand (cmds x) w) ?k (mSlaveQueues x)\<rparr>)"
    have dfn: "addWriteCommand p x = bindE (resetCommandsCounter (y\<lparr>mWaitingCommand := Some p,
        mCurrentSlaveQueue := omap_find ?k (mSlaveQueues y)\<rparr>))
        (\<lambda>x. Inr (x\<lparr>mWriteCommandsQueued := mWriteCommandsQueued x + 1\<rparr>))"
      using True by (simp add: addWriteCommand_def y_def Let_def)
    show ?thesis
    proof (cases "map_of (mSlaveQueues y) ?k = None")
      case None: True
      then have "mWaitingCommand x = None \<and> map_of (mSlaveQueues x) ?k = None"
        using om by (auto simp: y_def map_of_omap_modify split: option.splits)
      then show ?thesis
        using None dfn True by (simp add: resetCommandsCounter_def deref_def omap_find_def)
    next
      case False
      then have "mWaitingCommand x \<noteq> None \<or> map_of (mSlaveQueues x) ?k \<noteq> None"
        by (auto simp: y_def split: option.splits)
      with fast_path [OF ok p y_def False] dfn show ?thesis
        by auto
    qed
  next
    case False
    then show ?thesis using slow_path [OF ok p] by (auto simp: addWriteCommand_def Let_def)
  qed
qed

end
