(* ===== verification/Executor_Reachable.thy ===== *)
theory Executor_Reachable
  imports Executor_Adding
begin

text \<open>
  The states the executor reaches when the Modbus thread drives it, and the properties that hold
  in all of them.
\<close>

section \<open>Steps\<close>

text \<open>
  The calls of the Modbus thread, which executes only while there is work, and changes of command
  objects by their other owners, which keep the kind of the commands the executor holds.
\<close>

inductive exec_step :: "env \<Rightarrow> executor \<Rightarrow> executor \<Rightarrow> bool" for env where
  step_polls: "\<forall>e \<in> set pr. \<forall>p \<in> set (snd e). isPoll (cmds x p) \<Longrightarrow>
    addPollList env pr ini x = Some (Inr x') \<Longrightarrow> exec_step env x x'"
| step_read: "isPoll (cmds x p) \<Longrightarrow> addReadCommand p x = Inr x' \<Longrightarrow> exec_step env x x'"
| step_write: "\<not> isPoll (cmds x p) \<Longrightarrow> writable (cmds x p) \<Longrightarrow> addWriteCommand p x = Inr x' \<Longrightarrow>
    exec_step env x x'"
| step_execute: "\<not> allDone x \<Longrightarrow> executeNext env x = Some (Inr (d, x')) \<Longrightarrow> exec_step env x x'"
| step_heap: "\<forall>p \<in># pending x. isPoll (h p) = isPoll (cmds x p) \<and> writable (h p) = writable (cmds x p) \<Longrightarrow>
    exec_step env x (x\<lparr>cmds := h\<rparr>)"

inductive exec_reachable :: "env \<Rightarrow> executor \<Rightarrow> bool" for env where
  reach_new: "exec_reachable env (new_executor env w)"
| reach_step: "exec_reachable env x \<Longrightarrow> exec_step env x x' \<Longrightarrow> exec_reachable env x'"

lemma new_executor_ok: "exec_ok (new_executor env w) \<and> writable_pending (new_executor env w)"
  by (simp add: new_executor_def now_def exec_ok_def queues_ok_def allDone_def pending_writes_def
      pending_def queue_sum_def waiting_def omap_sum_def writable_pending_def)

lemma heap_step_ok:
  assumes ok: "exec_ok x" and w: "writable_pending x"
    and h: "\<forall>p \<in># pending x. isPoll (h p) = isPoll (cmds x p) \<and> writable (h p) = writable (cmds x p)"
  shows "exec_ok (x\<lparr>cmds := h\<rparr>) \<and> writable_pending (x\<lparr>cmds := h\<rparr>)"
proof -
  let ?y = "x\<lparr>cmds := h\<rparr>"
  have p: "pending ?y = pending x" by (simp add: pending_def queue_sum_def waiting_def)
  have om: "omap_ok (mSlaveQueues x)" using ok by (simp add: exec_ok_def queues_ok_def)
  have member: "r \<in># pending x" if "map_of (mSlaveQueues x) k = Some q" "r \<in># queued q" for r k q
    using queue_sum_member [OF om] that by (auto simp: pending_def)
  have "queues_wf h q" if q: "map_of (mSlaveQueues x) k = Some q" for k q
  proof -
    have "queues_wf (cmds x) q" using ok q by (simp add: exec_ok_def queues_ok_def)
    then show ?thesis using member [OF q] h by (auto simp: queues_wf_def queued_def)
  qed
  then have "queues_ok ?y" using om by (simp add: queues_ok_def)
  moreover have "pending_writes ?y = pending_writes x"
    unfolding pending_writes_def p using h by (auto intro!: arg_cong [of _ _ size] filter_mset_cong)
  ultimately show ?thesis
    using ok w h p by (auto simp: exec_ok_def writable_pending_def allDone_iff split: option.splits)
qed

context modbus_context
begin

lemma exec_step_ok:
  assumes "exec_step env x x'" and "exec_ok x" and "writable_pending x"
  shows "exec_ok x' \<and> writable_pending x'"
  using assms
proof (induction rule: exec_step.induct)
  case (step_polls pr x ini x')
  from addPollList_ok [OF step_polls(3,1), of env ini] step_polls(2) obtain a where
    a: "exec_ok x'" "cmds x' = cmds x" "set_mset a \<subseteq> (\<Union>e \<in> set pr. set (snd e))"
      "pending x' \<subseteq># pending x + a"
    by auto
  have "writable (cmds x p)" if "p \<in># pending x'" for p
  proof -
    have "p \<in># pending x \<or> p \<in># a" using a(4) that by (meson mset_subset_eqD union_iff)
    then show ?thesis
      using step_polls(1,4) a(3) by (force simp: writable_pending_def isPoll_cases)
  qed
  then show ?case using a by (simp add: writable_pending_def)
next
  case (step_read x p x')
  then have "exec_ok x'" "cmds x' = cmds x" "set_mset (pending x') \<subseteq> insert p (set_mset (pending x))"
    using addReadCommand_pending [OF step_read(3,1)] by (auto split: option.splits if_splits)
  then show ?case using step_read by (auto simp: writable_pending_def isPoll_cases)
next
  case (step_write x p x')
  then have "exec_ok x'" "cmds x' = cmds x" "pending x' = add_mset p (pending x)"
    using addWriteCommand_pending [OF step_write(4,1)] by (auto split: if_splits)
  then show ?case using step_write by (auto simp: writable_pending_def)
next
  case (step_execute x d x')
  then show ?case using executeNext_total [of x] by auto
next
  case (step_heap x h)
  then show ?case by (intro heap_step_ok)
qed

lemma reachable_ok:
  "exec_reachable env x \<Longrightarrow> exec_ok x \<and> writable_pending x"
  by (induction rule: exec_reachable.induct) (use new_executor_ok exec_step_ok in blast)+

end

section \<open>A concrete executor\<close>

text \<open>
  A device that answers every request in the same way, a clock that advances by a second per
  reading, and some commands: polls of the slaves 1 and 2, a write to slave 1, and a write to
  slave 7, which nothing polls.
\<close>

definition demo_lib :: "int \<Rightarrow> libmodbus" where
  "demo_lib rc =
     \<lparr>modbus_read_bits = (\<lambda>_ _ _ n. (rc, replicate (nat n) 1)),
      modbus_read_input_bits = (\<lambda>_ _ _ n. (rc, replicate (nat n) 1)),
      modbus_read_registers = (\<lambda>_ _ _ n. (rc, replicate (nat n) 5)),
      modbus_read_input_registers = (\<lambda>_ _ _ n. (rc, replicate (nat n) 5)),
      modbus_write_bit = (\<lambda>_ _ _ _. rc), modbus_write_bits = (\<lambda>_ _ _ _ _. rc),
      modbus_write_register = (\<lambda>_ _ _ _. rc), modbus_write_registers = (\<lambda>_ _ _ _ _. rc)\<rparr>"

definition demo_env :: "int \<Rightarrow> env" where
  "demo_env rc = libmodbus_env (demo_lib rc) (\<lambda>n. int n * 1000000000)"

definition demo_heap :: heap where
  "demo_heap p =
     (if p = 0 then Poll (new_RegisterPoll 1 10 HOLDING 1 1000 ON_CHANGE 0 2 2 0 0)
      else if p = 1 then Poll (new_RegisterPoll 2 10 HOLDING 1 1000 ON_CHANGE 0 2 2 0 0)
      else Write (new_RegisterWrite
        (new_register_values (if p = 2 then 1 else 7) HOLDING 10 [42] 0 AUTO 0) 2 2))"

definition demo_world :: world where
  "demo_world = \<lparr>ticks = 0, ios = 0, cmds = demo_heap, fromModbus = []\<rparr>"

datatype demo_op = OpRead ptr | OpWrite ptr | OpExecute

fun demo_run :: "env \<Rightarrow> demo_op list \<Rightarrow> executor \<Rightarrow> executor" where
  "demo_run env [] x = x"
| "demo_run env (OpRead p # ops) x =
     (case addReadCommand p x of
        Inr x' \<Rightarrow> demo_run env ops (if isPoll (cmds x p) then x' else x) | Inl _ \<Rightarrow> x)"
| "demo_run env (OpWrite p # ops) x =
     (case addWriteCommand p x of
        Inr x' \<Rightarrow> demo_run env ops (if \<not> isPoll (cmds x p) \<and> writable (cmds x p) then x' else x)
      | Inl _ \<Rightarrow> x)"
| "demo_run env (OpExecute # ops) x =
     (case executeNext env x of
        Some (Inr (d, x')) \<Rightarrow> demo_run env ops (if allDone x then x else x') | _ \<Rightarrow> x)"

lemma demo_run_reachable: "exec_reachable env x \<Longrightarrow> exec_reachable env (demo_run env ops x)"
proof (induction env ops x rule: demo_run.induct)
  case (2 env p ops x)
  then show ?case by (auto split: sum.splits dest: reach_step [OF _ step_read])
next
  case (3 env p ops x)
  then show ?case by (auto split: sum.splits dest: reach_step [OF _ step_write])
next
  case (4 env ops x)
  then show ?case by (auto split: sum.splits option.splits dest: reach_step [OF _ step_execute])
qed simp

definition demo_executor :: "int \<Rightarrow> demo_op list \<Rightarrow> executor" where
  "demo_executor rc ops = demo_run (demo_env rc) ops (new_executor (demo_env rc) demo_world)"

lemma demo_executor_reachable:
  "exec_reachable (libmodbus_env (demo_lib rc) (\<lambda>n. int n * 1000000000)) (demo_executor rc ops)"
  unfolding demo_executor_def demo_env_def by (intro demo_run_reachable reach_new)

section \<open>Progress\<close>



text \<open>
  In every reachable state a read request is accepted. Afterwards exactly that command is owed
  in addition, unless it was already queued for its slave.
\<close>

theorem read_request_queued_once:
  assumes "exec_reachable (libmodbus_env lib clk) x" and "isPoll (cmds x p)"
  shows "\<exists>x'. addReadCommand p x = Inr x' \<and>
    pending x' = pending x +
      (case map_of (mSlaveQueues x) (cmdSlaveId (cmds x p)) of
         None \<Rightarrow> {#p#}
       | Some q \<Rightarrow> if p \<in> set (mPollQueue q) then {#} else {#p#})"
  using assms libmodbus_ctx.reachable_ok addReadCommand_pending by metis

theorem read_request_queued_once_witness:
  "\<exists>x'. addReadCommand 0 (demo_executor 1 []) = Inr x' \<and> 0 \<in># pending x'"
proof -
  have p: "isPoll (cmds (demo_executor 1 []) 0)" by code_simp
  have none: "map_of (mSlaveQueues (demo_executor 1 [])) (cmdSlaveId (cmds (demo_executor 1 []) 0)) = None"
    by code_simp
  from read_request_queued_once [OF demo_executor_reachable p] show ?thesis
    unfolding none by auto
qed

text \<open>
  C9: in every reachable state a write request is queued exactly once, with one exception. When no
  write is counted, no command waits and its slave has no queue yet, \<open>addWriteCommand\<close> uses the
  end iterator of the queue map: the first write to a slave that is never polled is undefined
  behaviour.
\<close>

theorem write_request_queued_once_or_faults:
  assumes "exec_reachable (libmodbus_env lib clk) x" and "\<not> isPoll (cmds x p)"
  shows "if mWriteCommandsQueued x = 0 \<and> mWaitingCommand x = None \<and>
            map_of (mSlaveQueues x) (cmdSlaveId (cmds x p)) = None
         then addWriteCommand p x = Inl DerefEnd
         else \<exists>x'. addWriteCommand p x = Inr x' \<and> pending x' = add_mset p (pending x)"
  using addWriteCommand_pending [of x p] assms libmodbus_ctx.reachable_ok by (auto split: if_splits)

theorem write_request_queued_once_or_faults_witness:
  "addWriteCommand 3 (demo_executor 1 [OpRead 0]) = Inl DerefEnd \<and>
   (\<exists>x'. addWriteCommand 2 (demo_executor 1 [OpRead 0]) = Inr x' \<and> 2 \<in># pending x')"
proof -
  let ?x = "demo_executor 1 [OpRead 0]"
  have fault: "mWriteCommandsQueued ?x = 0 \<and> mWaitingCommand ?x = None \<and>
      map_of (mSlaveQueues ?x) (cmdSlaveId (cmds ?x 3)) = None"
    by code_simp
  have queue: "map_of (mSlaveQueues ?x) (cmdSlaveId (cmds ?x 2)) \<noteq> None"
    by code_simp
  have "\<not> isPoll (cmds ?x 3)" "\<not> isPoll (cmds ?x 2)" by code_simp+
  from this [THEN write_request_queued_once_or_faults [OF demo_executor_reachable]]
  show ?thesis using fault queue by auto
qed

text \<open>
  C12: the polls of the scheduler never make the executor fail or hang: in every reachable state
  \<open>addPollList\<close> returns, only given polls are added, and while other work is in progress all
  commands owed before stay owed.
\<close>

theorem poll_list_accepted:
  assumes "exec_reachable (libmodbus_env lib clk) x"
    and "\<forall>e \<in> set pr. \<forall>p \<in> set (snd e). isPoll (cmds x p)"
  shows "\<exists>x' a. addPollList (libmodbus_env lib clk) pr ini x = Some (Inr x') \<and>
    set_mset a \<subseteq> (\<Union>e \<in> set pr. set (snd e)) \<and> pending x' \<subseteq># pending x + a \<and>
    (\<not> allDone x \<longrightarrow> pending x' = pending x + a)"
proof -
  have "exec_ok x" using assms(1) libmodbus_ctx.reachable_ok by blast
  from addPollList_ok [OF this assms(2)] show ?thesis by blast
qed

theorem poll_list_accepted_witness:
  "\<exists>x'. addPollList (demo_env 1) [(1, [0]), (2, [1])] True (demo_executor 1 []) = Some (Inr x')"
proof -
  have "\<forall>e \<in> set [(1 :: int, [0]), (2, [1])]. \<forall>p \<in> set (snd e). isPoll (cmds (demo_executor 1 []) p)"
    by code_simp
  from poll_list_accepted [OF demo_executor_reachable this] show ?thesis
    unfolding demo_env_def by blast
qed

text \<open>
  C11: no slave keeps the bus. When the batch of the current slave is used up and another slave
  has commands queued, the next command is one of another slave's queue.
\<close>

theorem batch_end_switches_slave:
  assumes "exec_reachable (libmodbus_env lib clk) x"
    and "mWaitingCommand x = None" and "mCommandsLeft x = 0" and "mCurrentSlaveQueue x = Some k"
    and "\<exists>e \<in> set (mSlaveQueues x). fst e \<noteq> k \<and> \<not> queues_empty (snd e)"
  shows "\<exists>j q p x'. selectNext x = Some (Inr (False, x')) \<and> j \<noteq> k \<and>
    mCurrentSlaveQueue x' = Some j \<and> map_of (mSlaveQueues x) j = Some q \<and> p \<in># queued q \<and>
    mWaitingCommand x' = Some p"
proof -
  have ok: "exec_ok x" using assms(1) libmodbus_ctx.reachable_ok by blast
  have "\<not> allDone x" using assms(5) by (auto simp: allDone_def list_all_iff)
  from selectNext_takes [OF ok this assms(2)] assms(3-5) show ?thesis
    by (fastforce simp: took_from_def)
qed

theorem batch_end_switches_slave_witness:
  "\<exists>j x'. selectNext (demo_executor 1 [OpRead 0, OpRead 1, OpExecute, OpRead 0, OpExecute]) =
      Some (Inr (False, x')) \<and> j \<noteq> 1 \<and> mCurrentSlaveQueue x' = Some j"
proof -
  let ?x = "demo_executor 1 [OpRead 0, OpRead 1, OpExecute, OpRead 0, OpExecute]"
  have "mWaitingCommand ?x = None" by code_simp
  moreover have "mCommandsLeft ?x = 0" by code_simp
  moreover have "mCurrentSlaveQueue ?x = Some 1" by code_simp
  moreover have "\<exists>e \<in> set (mSlaveQueues ?x). fst e \<noteq> 1 \<and> \<not> queues_empty (snd e)" by code_simp
  ultimately show ?thesis using batch_end_switches_slave [OF demo_executor_reachable] by blast
qed

section \<open>Retries\<close>

text \<open>\<open>sendCommand\<close> repeated while the command waits for another attempt, at most \<open>n\<close> times.\<close>

fun attempts :: "env \<Rightarrow> nat \<Rightarrow> executor \<Rightarrow> fault + executor" where
  "attempts env 0 x = Inr x"
| "attempts env (Suc n) x =
     (if mWaitingCommand x = None then Inr x else bindE (sendCommand env x) (attempts env n))"

context modbus_context
begin

lemma attempts_finish:
  "exec_ok x \<Longrightarrow> writable_pending x \<Longrightarrow> mWaitingCommand x = Some p \<Longrightarrow> retries_left x p < n \<Longrightarrow>
   \<exists>x'. attempts env n x = Inr x' \<and> mWaitingCommand x' = None \<and>
     pending x = add_mset p (pending x') \<and> ios x' \<le> ios x + Suc (retries_left x p)"
proof (induction n arbitrary: x)
  case 0
  then show ?case by simp
next
  case (Suc n)
  have "writable (cmds x p)" using Suc.prems(2,3) pending_member by (auto simp: writable_pending_def)
  from sendCommand_total [OF Suc.prems(1,3) this] obtain y where s: "sendCommand env x = Inr y" by blast
  note f = sendCommand_frame [OF s Suc.prems(3)]
  note e = exec_ok_send [OF Suc.prems(1,3) s]
  show ?case
  proof (cases "mWaitingCommand y")
    case None
    then have "attempts env n y = Inr y" by (cases n) simp_all
    then show ?thesis using Suc.prems s f e None by simp
  next
    case (Some r)
    then have y: "mWaitingCommand y = Some p" "retries_left y p < retries_left x p" "pending y = pending x"
      using f e by (auto split: if_splits)
    have "writable_pending y" using Suc.prems(2) f y(3) writable_pending_kinds [of x y] by simp
    from Suc.IH [OF _ this y(1)] e y Suc.prems show ?thesis
      using s f by fastforce
  qed
qed

end

lemma retries_left_fresh:
  "mLastCommand x \<noteq> Some p \<Longrightarrow>
   retries_left x p = unat (if isPoll (cmds x p) then cmdMaxReadRetryCount (cmds x p)
                            else cmdMaxWriteRetryCount (cmds x p))"
  by (auto simp: retries_left_def loadRetryCounts_def)

text \<open>
  C2: a command is given up after its retries. Sending a command that was not the last one sent,
  and sending it again as long as the executor keeps it waiting, takes at most one request more
  than its configured number of retries; then the command is no longer owed, whatever the device
  answers.
\<close>

theorem retries_are_bounded:
  assumes "exec_reachable (libmodbus_env lib clk) x" and "mWaitingCommand x = Some p"
    and "mLastCommand x \<noteq> Some p"
    and "n = unat (if isPoll (cmds x p) then cmdMaxReadRetryCount (cmds x p)
                   else cmdMaxWriteRetryCount (cmds x p))"
  shows "\<exists>x'. attempts (libmodbus_env lib clk) (Suc n) x = Inr x' \<and> mWaitingCommand x' = None \<and>
    pending x = add_mset p (pending x') \<and> ios x' \<le> ios x + Suc n"
proof -
  have "exec_ok x" "writable_pending x" using assms(1) libmodbus_ctx.reachable_ok by blast+
  from libmodbus_ctx.attempts_finish [OF this assms(2), of "Suc n"] show ?thesis
    using retries_left_fresh [OF assms(3)] assms(4) by simp
qed

theorem retries_are_bounded_witness:
  "\<exists>x'. attempts (demo_env (-1)) 3 (demo_executor (-1) [OpRead 0, OpWrite 2]) = Inr x' \<and>
     mWaitingCommand x' = None"
proof -
  let ?x = "demo_executor (-1) [OpRead 0, OpWrite 2]"
  have "mWaitingCommand ?x = Some 2" by code_simp
  moreover have "mLastCommand ?x \<noteq> Some 2" by code_simp
  moreover have "2 = unat (if isPoll (cmds ?x 2) then cmdMaxReadRetryCount (cmds ?x 2)
                   else cmdMaxWriteRetryCount (cmds ?x 2))" by code_simp
  ultimately show ?thesis
    using retries_are_bounded [OF demo_executor_reachable, of "- 1" "[OpRead 0, OpWrite 2]" 2 2]
    by (auto simp: demo_env_def numeral_3_eq_3)
qed

section \<open>Where the executor departs from its documentation\<close>

lemma omap_next_tl: "omap_next k m = Some c \<Longrightarrow> c \<in> fst ` set (tl m)"
proof (induction k m rule: omap_next.induct)
  case (2 k k' v' m)
  then show ?case
    by (cases m) (auto simp: omap_begin_def split: if_splits)
qed simp

lemma omap_next_key: "omap_next k m = Some c \<Longrightarrow> map_of m c \<noteq> None"
proof -
  assume "omap_next k m = Some c"
  then have "c \<in> fst ` set m" using omap_next_tl [of k m c] by (cases m) auto
  then show ?thesis by (simp add: map_of_eq_None_iff)
qed

lemma omap_next_not_begin: "omap_ok m \<Longrightarrow> omap_begin m = Some c \<Longrightarrow> omap_next k m \<noteq> Some c"
  using omap_next_tl [of k m c] by (cases m) (auto simp: omap_begin_def omap_ok_def)

text \<open>All queues empty, the current one the first of the map, the search somewhere else.\<close>

definition idle_from :: "(int, request_queues) omap \<Rightarrow> int \<Rightarrow> int option \<Rightarrow> bool" where
  "idle_from m cur nxt \<longleftrightarrow> omap_ok m \<and> omap_begin m = Some cur \<and>
     list_all (\<lambda>e. queues_empty (snd e)) m \<and> nxt \<noteq> Some cur \<and>
     (\<forall>k. nxt = Some k \<longrightarrow> map_of m k \<noteq> None)"

lemma idle_from_step:
  assumes "idle_from m cur nxt"
  shows "\<exists>k q. (if nxt = None then omap_begin m else nxt) = Some k \<and> map_of m k = Some q \<and>
    queues_empty q \<and> idle_from m cur (omap_next k m)"
proof -
  have m: "omap_ok m" "omap_begin m = Some cur" "list_all (\<lambda>e. queues_empty (snd e)) m"
    and nxt: "\<forall>k. nxt = Some k \<longrightarrow> map_of m k \<noteq> None"
    using assms by (simp_all add: idle_from_def)
  have "map_of m cur \<noteq> None" using m(2) by (cases m) (auto simp: omap_begin_def)
  then obtain k q where k: "(if nxt = None then omap_begin m else nxt) = Some k" "map_of m k = Some q"
    using m(2) nxt by (cases nxt) auto
  moreover have "queues_empty q"
    using m(3) map_of_SomeD [OF k(2)] by (auto simp: list_all_iff)
  moreover have "idle_from m cur (omap_next k m)"
    using m omap_next_not_begin [OF m(1,2)] omap_next_key [of k m] by (auto simp: idle_from_def)
  ultimately show ?thesis by blast
qed

lemma find_queue_diverges:
  assumes "find_queue m cur nxt = Some r"
  shows "\<not> idle_from m cur nxt"
proof (rule find_queue.raw_induct [OF _ assms, where P = "\<lambda>m cur nxt r. \<not> idle_from m cur nxt"])
  fix f m cur nxt r
  assume IH: "\<And>m cur nxt r. f m cur nxt = Some r \<Longrightarrow> \<not> idle_from m cur nxt"
    and body: "(if nxt = Some cur then Some nxt
      else case if nxt = None then omap_begin m else nxt of None \<Rightarrow> Some None
        | Some k \<Rightarrow> (case map_of m k of None \<Rightarrow> Some None
            | Some q \<Rightarrow> if \<not> queues_empty q then Some (Some k) else f m cur (omap_next k m))) = Some r"
  show "\<not> idle_from m cur nxt"
  proof
    assume idle: "idle_from m cur nxt"
    then have "nxt \<noteq> Some cur" by (simp add: idle_from_def)
    with idle_from_step [OF idle] body IH show False by auto
  qed
qed

text \<open>
  C14: a call of \<open>executeNext\<close> without work does not return. When every queue is empty, no command
  waits and the current queue is the first of the map, the search for the next queue goes round
  forever, although the header promises the maximal duration. The Modbus thread avoids the call.
\<close>

theorem executeNext_hangs_when_idle:
  assumes "exec_reachable (libmodbus_env lib clk) x" and "allDone x"
    and "mCurrentSlaveQueue x = omap_begin (mSlaveQueues x)" and "mCurrentSlaveQueue x \<noteq> None"
  shows "executeNext (libmodbus_env lib clk) x = None"
proof -
  have ok: "exec_ok x" using assms(1) libmodbus_ctx.reachable_ok by blast
  obtain k where k: "mCurrentSlaveQueue x = Some k" using assms(4) by blast
  let ?m = "mSlaveQueues x"
  have om: "omap_ok ?m" "omap_begin ?m = Some k" using ok k assms(3) by (simp_all add: exec_ok_def queues_ok_def)
  have all: "list_all (\<lambda>e. queues_empty (snd e)) ?m" "mWaitingCommand x = None"
    using assms(2) by (simp_all add: allDone_def)
  have "idle_from ?m k (omap_next k ?m)"
    using om all omap_next_not_begin [OF om] omap_next_key [of k ?m] by (auto simp: idle_from_def)
  then have "find_queue ?m k (omap_next k ?m) = None"
    using find_queue_diverges by (metis not_None_eq)
  moreover obtain q where q: "map_of ?m k = Some q" using ok k by (auto simp: exec_ok_def)
  moreover have "queues_empty q" using all(1) map_of_SomeD [OF q] by (auto simp: list_all_iff)
  ultimately show ?thesis
    using k all by (simp add: executeNext_def selectNext_def deref_def)
qed

theorem executeNext_hangs_when_idle_witness:
  "executeNext (demo_env 1) (demo_executor 1 [OpRead 0, OpExecute]) = None"
proof -
  let ?x = "demo_executor 1 [OpRead 0, OpExecute]"
  have "allDone ?x" by code_simp
  moreover have "mCurrentSlaveQueue ?x = omap_begin (mSlaveQueues ?x)" by code_simp
  moreover have "mCurrentSlaveQueue ?x \<noteq> None" by code_simp
  ultimately show ?thesis
    using executeNext_hangs_when_idle [OF demo_executor_reachable] by (simp add: demo_env_def)
qed

text \<open>A queue with one poll: it is found if it has a delay, and leaves the queue when elected.\<close>

lemma find_single:
  assumes "mPollQueue q = [p]" and "silence_delay ignore (h p) \<noteq> 0"
    and "\<bar>silence_delay ignore (h p) - per\<bar> < duration_max"
  shows "findForSilencePeriod h per ignore q =
    (silence_delay ignore (h p), q\<lparr>mLastPollFound := Pos 0\<rparr>)"
  using assms by (simp add: findForSilencePeriod_def Let_def)

lemma pop_single:
  "mPollQueue q = [p] \<Longrightarrow> popFirstWithDelay h per ignore (q\<lparr>mLastPollFound := Pos 0\<rparr>) =
     Some (Inr (p, q\<lparr>mPollQueue := [], mLastPollFound := Singular\<rparr>))"
  by (subst popFirstWithDelay.simps) (simp add: erase_found_def)

definition one_poll :: "ptr \<Rightarrow> request_queues" where
  "one_poll p = new_queues\<lparr>mPollQueue := [p]\<rparr>"

lemma one_poll_simps [simp]:
  "mPollQueue (one_poll p) = [p]" "queue_addPollList [p] new_queues = one_poll p"
  by (simp_all add: one_poll_def queue_addPollList_def push_poll_def new_queues_def)

lemma elect_two:
  assumes s: "s1 < s2" and x: "mSlaveQueues x = [(s1, one_poll p1), (s2, one_poll p2)]"
      "mCurrentSlaveQueue x = Some s1"
    and d: "silence_delay True (cmds x p1) = d1" "silence_delay False (cmds x p2) = d2"
      "0 < d2" "d2 < d1" "d1 < duration_max"
    and per: "\<bar>d1 - per\<bar> < duration_max" "\<bar>d2 - per\<bar> < duration_max"
  shows "\<exists>q. queues_empty q \<and> elect per [s1, s2] duration_max x =
    Some (Inr (x\<lparr>mSlaveQueues := [(s1, q), (s2, q)], mWaitingCommand := Some p2,
      mCurrentSlaveQueue := Some s2\<rparr>))"
proof -
  let ?q = "new_queues\<lparr>mPollQueue := [], mLastPollFound := Singular\<rparr>"
  have q: "(one_poll p)\<lparr>mPollQueue := [], mLastPollFound := Singular\<rparr> = ?q" for p
    by (simp add: one_poll_def)
  let ?x = "x\<lparr>mSlaveQueues := [(s1, ?q), (s2, one_poll p2)], mWaitingCommand := Some p1,
    mCurrentSlaveQueue := Some s1\<rparr>"
  have "duration_max \<noteq> 0" "d1 \<noteq> 0" "d2 \<noteq> 0" using d by (auto simp: duration_max_def)
  note f1 = find_single [of "one_poll p1" p1 True "cmds x" per]
  note f2 = find_single [of "one_poll p2" p2 False "cmds x" per]
  have "elect per [s1, s2] duration_max x = elect per [s2] d1 ?x"
    using s x d per f1 pop_single [of "one_poll p1" p1 "cmds x" per True] \<open>d1 \<noteq> 0\<close> \<open>duration_max \<noteq> 0\<close>
    by (simp add: q Let_def)
  also have "\<dots> = Some (Inr (?x\<lparr>mSlaveQueues := [(s1, ?q), (s2, ?q)], mWaitingCommand := Some p2,
      mCurrentSlaveQueue := Some s2\<rparr>))"
    using s d per f2 pop_single [of "one_poll p2" p2 "cmds x" per False] \<open>d1 \<noteq> 0\<close> \<open>d2 \<noteq> 0\<close>
    by (simp add: q Let_def)
  finally show ?thesis
    by (intro exI [of _ ?q]) (simp add: queues_empty_def new_queues_def)
qed

text \<open>
  C15: the election loses commands. Whenever a new executor is given one poll each for two slaves,
  both with a delay, and the delay of the second slave is the smaller one, the poll elected first is
  overwritten by the poll of the second slave: it is in no queue any more and does not wait. The
  delays and the clock are below 2^61 ns, about 73 years.
\<close>

theorem election_loses_command:
  assumes "s1 < s2" and "0 < silence_delay False (cmds w p2)"
    and "silence_delay False (cmds w p2) < silence_delay True (cmds w p1)"
    and "silence_delay True (cmds w p1) < 2 ^ 61" and "\<forall>n. 0 \<le> clock env n \<and> clock env n < 2 ^ 61"
  shows "\<exists>x'. addPollList env [(s1, [p1]), (s2, [p2])] initial (new_executor env w) = Some (Inr x') \<and>
    mWaitingCommand x' = Some p2 \<and> pending x' = {#p2#}"
proof -
  let ?x = "markInitialPoll env initial (new_executor env w)"
  let ?y = "?x\<lparr>mSlaveQueues := [(s1, one_poll p1), (s2, one_poll p2)], mCurrentSlaveQueue := Some s1,
    ticks := Suc (ticks ?x), mCommandsLeft := 2\<rparr>"
  let ?per = "clock env (ticks ?x) - mLastCommandTime ?x"
  let ?d1 = "silence_delay True (cmds w p1)" and ?d2 = "silence_delay False (cmds w p2)"
  have x: "mSlaveQueues ?x = []" "mWaitingCommand ?x = None" "cmds ?x = cmds w"
      "allDone (new_executor env w)" "\<not> mInitialPoll (new_executor env w)"
      "mLastCommandTime ?x = clock env (ticks w) - 100000 * 3600 * 1000000000"
    by (simp_all add: markInitialPoll_def new_executor_def now_def Let_def allDone_def)
  have "0 \<le> clock env (ticks ?x)" "clock env (ticks ?x) < 2 ^ 61" "0 \<le> clock env (ticks w)"
    "clock env (ticks w) < 2 ^ 61" using assms(5) by blast+
  then have per: "\<bar>?d1 - ?per\<bar> < duration_max" "\<bar>?d2 - ?per\<bar> < duration_max" "?d1 < duration_max"
    using assms(2-4) by (simp_all add: x(6) duration_max_def abs_if)
  obtain q where "queues_empty q" and e: "elect ?per [s1, s2] duration_max ?y =
      Some (Inr (?y\<lparr>mSlaveQueues := [(s1, q), (s2, q)], mWaitingCommand := Some p2,
        mCurrentSlaveQueue := Some s2\<rparr>))"
    using elect_two [OF assms(1), of ?y p1 p2 ?d1 ?d2 ?per] assms(2,3) per x(3) by auto
  then have q: "queued q = {#}" by (simp add: queues_empty_iff)
  have "addPollList env [(s1, [p1]), (s2, [p2])] initial (new_executor env w) =
      start_election env s1 (?x\<lparr>mSlaveQueues := [(s1, one_poll p1), (s2, one_poll p2)]\<rparr>)"
    using assms(1) x by (simp add: addPollList_def Let_def omap_insert_def omap_modify_def)
  also have "\<dots> = Some (Inr (?y\<lparr>mSlaveQueues := [(s1, q), (s2, q)], mWaitingCommand := Some p2,
        mCurrentSlaveQueue := Some s2\<rparr>))"
    using e x(2) by (simp add: start_election_def now_def Let_def resetCommandsCounter_def deref_def)
  finally show ?thesis
    using q by (simp add: pending_def queue_sum_def omap_sum_def waiting_def)
qed

definition delay_heap :: heap where
  "delay_heap p = Poll ((new_RegisterPoll (int p) 10 HOLDING 1 1000 ON_CHANGE 0 0 0 0 0)
     \<lparr>mDelayBeforeCommand := msec (100 - 10 * int p)\<rparr>)"

theorem election_loses_command_witness:
  "\<exists>x'. addPollList ((demo_env 1)\<lparr>clock := \<lambda>_. 0\<rparr>) [(1, [1]), (2, [2])] True
       (new_executor ((demo_env 1)\<lparr>clock := \<lambda>_. 0\<rparr>)
         \<lparr>ticks = 0, ios = 0, cmds = delay_heap, fromModbus = []\<rparr>) = Some (Inr x') \<and>
     mWaitingCommand x' = Some 2 \<and> 1 \<notin># pending x'"
proof -
  have "silence_delay False (delay_heap 2) = msec 80" "silence_delay True (delay_heap 1) = msec 90"
    by (simp_all add: silence_delay_def delay_heap_def new_RegisterPoll_def)
  then have "\<exists>x'. addPollList ((demo_env 1)\<lparr>clock := \<lambda>_. 0\<rparr>) [(1, [1]), (2, [2])] True
       (new_executor ((demo_env 1)\<lparr>clock := \<lambda>_. 0\<rparr>)
         \<lparr>ticks = 0, ios = 0, cmds = delay_heap, fromModbus = []\<rparr>) = Some (Inr x') \<and>
     mWaitingCommand x' = Some 2 \<and> pending x' = {#2#}"
    by (intro election_loses_command) simp_all
  then show ?thesis by auto
qed

end
