(* ===== verification/Modbus_Scheduler.thy ===== *)
theory Modbus_Scheduler
  imports Register_Commands
begin

text \<open>
  \<open>modbus_scheduler.hpp\<close> and \<open>.cpp\<close>: which polls are due, how long nothing will be due, and
  the effect of a remote read on the schedule. The scheduler holds pointers to the polls of each
  slave; the polls themselves are in the heap.
\<close>

section \<open>Operations\<close>

type_synonym register_map = "(int, ptr list) omap"

text \<open>The pointers of the map are pointers to polls; what else the heap holds is skipped.\<close>

fun poll_at :: "heap \<Rightarrow> ptr \<Rightarrow> register_poll option" where
  "poll_at h p = (case h p of Poll reg \<Rightarrow> Some reg | Write _ \<Rightarrow> None)"

text \<open>The body of the two nested loops of \<open>getRegistersToPoll\<close>.\<close>

definition schedule_register ::
  "heap \<Rightarrow> time \<Rightarrow> int \<Rightarrow> ptr \<Rightarrow> duration \<times> register_map \<Rightarrow> duration \<times> register_map" where
  "schedule_register h timePoint slave p acc =
     (let (outDuration, ret) = acc in
      case poll_at h p of
        None \<Rightarrow> acc
      | Some reg \<Rightarrow>
          if pollPublishMode reg = ONCE \<and> mLastReadOk reg then acc
          else
            let time_passed = timePoint - mLastReadStartTime reg;
                (time_to_poll, ret) =
                  (if time_passed \<ge> mRefresh reg
                   then (mRefresh reg, omap_modify [] (\<lambda>l. l @ [p]) slave ret)
                   else (mRefresh reg - time_passed, ret))
            in (if outDuration > time_to_poll then time_to_poll else outDuration, ret))"

definition schedule_slave ::
  "heap \<Rightarrow> time \<Rightarrow> int \<times> ptr list \<Rightarrow> duration \<times> register_map \<Rightarrow> duration \<times> register_map" where
  "schedule_slave h timePoint slave acc =
     fold (schedule_register h timePoint (fst slave)) (snd slave) acc"

definition getRegistersToPoll :: "heap \<Rightarrow> register_map \<Rightarrow> time \<Rightarrow> duration \<times> register_map" where
  "getRegistersToPoll h mRegisterMap timePoint =
     fold (schedule_slave h timePoint) mRegisterMap (duration_max, [])"

definition min_refresh :: "heap \<Rightarrow> ptr \<Rightarrow> duration \<Rightarrow> duration" where
  "min_refresh h p ret =
     (case poll_at h p of
        None \<Rightarrow> ret
      | Some reg \<Rightarrow> if mRefresh reg < ret then mRefresh reg else ret)"

definition getMinPollTime :: "heap \<Rightarrow> register_map \<Rightarrow> duration" where
  "getMinPollTime h mRegisterMap =
     fold (\<lambda>slave. fold (min_refresh h) (snd slave)) mRegisterMap duration_max"

text \<open>\<open>remove\<close> erases the first poll of the slave at the register, and the slave when none is left.\<close>

definition poll_matches :: "heap \<Rightarrow> int \<Rightarrow> register_type \<Rightarrow> ptr \<Rightarrow> bool" where
  "poll_matches h reg ty p =
     (case poll_at h p of
        None \<Rightarrow> False
      | Some r \<Rightarrow> mRegister r = reg \<and> mRegisterType r = ty)"

fun erase_first :: "('a \<Rightarrow> bool) \<Rightarrow> 'a list \<Rightarrow> 'a list" where
  "erase_first P [] = []"
| "erase_first P (x # xs) = (if P x then xs else x # erase_first P xs)"

definition scheduler_remove ::
  "heap \<Rightarrow> int \<Rightarrow> int \<Rightarrow> register_type \<Rightarrow> register_map \<Rightarrow> register_map" where
  "scheduler_remove h pSlaveId pRegisterNumber pRegisterType m =
     (case map_of m pSlaveId of
        None \<Rightarrow> m
      | Some ps \<Rightarrow>
          if \<exists>p \<in> set ps. poll_matches h pRegisterNumber pRegisterType p then
            (let ps' = erase_first (poll_matches h pRegisterNumber pRegisterType) ps
             in if ps' = [] then omap_erase pSlaveId m else omap_put pSlaveId ps' m)
          else m)"

definition defer_poll :: "register_poll \<Rightarrow> ptr \<Rightarrow> heap \<Rightarrow> heap" where
  "defer_poll pCompleted p h =
     (case poll_at h p of
        None \<Rightarrow> h
      | Some poll \<Rightarrow>
          if \<not> contains pCompleted poll then h
          else h(p := Poll (poll\<lparr>mLastReadStartTime := mLastReadStartTime pCompleted,
                                 mLastReadFinishTime := mLastReadFinishTime pCompleted\<rparr>)))"

definition notifyRpcRead :: "register_poll \<Rightarrow> register_map \<Rightarrow> heap \<Rightarrow> heap" where
  "notifyRpcRead pCompleted m h =
     (case map_of m (mSlaveId pCompleted) of
        None \<Rightarrow> h
      | Some ps \<Rightarrow> fold (defer_poll pCompleted) ps h)"

section \<open>What the schedule means\<close>

text \<open>A poll takes part unless it is read once and was; it is due once its refresh time is over.\<close>

definition live :: "heap \<Rightarrow> ptr \<Rightarrow> bool" where
  "live h p \<longleftrightarrow> (\<exists>reg. poll_at h p = Some reg \<and> \<not> (pollPublishMode reg = ONCE \<and> mLastReadOk reg))"

definition due :: "heap \<Rightarrow> time \<Rightarrow> ptr \<Rightarrow> bool" where
  "due h t p \<longleftrightarrow> (case poll_at h p of
     None \<Rightarrow> False
   | Some reg \<Rightarrow> \<not> (pollPublishMode reg = ONCE \<and> mLastReadOk reg) \<and>
       mRefresh reg \<le> t - mLastReadStartTime reg)"

definition time_to_poll :: "heap \<Rightarrow> time \<Rightarrow> ptr \<Rightarrow> duration" where
  "time_to_poll h t p = (case poll_at h p of
     None \<Rightarrow> duration_max
   | Some reg \<Rightarrow> if due h t p then mRefresh reg else mRefresh reg - (t - mLastReadStartTime reg))"

text \<open>The reference: the due polls of each slave that has some, and the least time of a live poll.\<close>

definition due_map :: "heap \<Rightarrow> time \<Rightarrow> register_map \<Rightarrow> register_map" where
  "due_map h t m = filter (\<lambda>e. snd e \<noteq> []) (map (\<lambda>e. (fst e, filter (due h t) (snd e))) m)"

definition polls_of :: "register_map \<Rightarrow> ptr list" where
  "polls_of m = concat (map snd m)"

lemma schedule_register_eq:
  "schedule_register h t s p (d, r) =
     (if live h p then min d (time_to_poll h t p) else d,
      if due h t p then omap_modify [] (\<lambda>l. l @ [p]) s r else r)"
  by (auto simp: schedule_register_def live_def due_def time_to_poll_def min_def Let_def
      split: option.splits command.splits)

lemma schedule_registers_fst:
  "fst (fold (schedule_register h t s) ps (d, r)) =
     fold (\<lambda>p d. min d (time_to_poll h t p)) (filter (live h) ps) d"
  by (induction ps arbitrary: d r) (auto simp: schedule_register_eq)

lemma due_live: "due h t p \<Longrightarrow> live h p"
  by (auto simp: due_def live_def split: option.splits command.splits)

text \<open>Pushing to the entry of a key that is beyond all others.\<close>

lemma omap_put_beyond: "\<forall>k' \<in> fst ` set m. k' < k \<Longrightarrow> omap_put k v m = m @ [(k, v)]"
  by (induction m) auto

lemma omap_put_last: "\<forall>k' \<in> fst ` set m. k' < k \<Longrightarrow> omap_put k v (m @ [(k, w)]) = m @ [(k, v)]"
  by (induction m) auto

lemma map_of_last: "\<forall>k' \<in> fst ` set m. k' < (k :: int) \<Longrightarrow> map_of (m @ [(k, w)]) k = Some w"
  by (induction m) auto

lemma map_of_beyond: "\<forall>k' \<in> fst ` set m. k' < (k :: int) \<Longrightarrow> map_of m k = None"
  by (induction m) auto

lemma push_entry:
  assumes "\<forall>k' \<in> fst ` set r. k' < (s :: int)"
  shows "omap_modify [] (\<lambda>l. l @ [p]) s (r @ (if l = [] then [] else [(s, l)])) = r @ [(s, l @ [p])]"
  using assms
  by (simp add: omap_modify_def omap_put_beyond omap_put_last map_of_last map_of_beyond
      del: map_of_append)

lemma schedule_registers_snd:
  assumes "\<forall>k' \<in> fst ` set r. k' < s"
  shows "snd (fold (schedule_register h t s) ps (d, r @ (if l = [] then [] else [(s, l)]))) =
    r @ (if l @ filter (due h t) ps = [] then [] else [(s, l @ filter (due h t) ps)])"
proof (induction ps arbitrary: d l)
  case Nil
  then show ?case by simp
next
  case (Cons p ps)
  show ?case
  proof (cases "due h t p")
    case True
    then show ?thesis
      using Cons [of _ "l @ [p]"] push_entry [OF assms] by (simp add: schedule_register_eq)
  next
    case False
    then show ?thesis using Cons [of _ l] by (simp add: schedule_register_eq)
  qed
qed

lemma getRegistersToPoll_snd:
  assumes "omap_ok m"
  shows "snd (getRegistersToPoll h m t) = due_map h t m"
proof -
  have "snd (fold (schedule_slave h t) m (d, r)) = r @ due_map h t m"
    if "omap_ok m" "\<forall>k \<in> fst ` set r. \<forall>k' \<in> fst ` set m. k < k'" for d r
    using that
  proof (induction m arbitrary: d r)
    case Nil
    then show ?case by (simp add: due_map_def)
  next
    case (Cons e m)
    obtain s ps where e: "e = (s, ps)" by (cases e)
    let ?r = "r @ (if filter (due h t) ps = [] then [] else [(s, filter (due h t) ps)])"
    obtain d' where "schedule_slave h t e (d, r) = (d', ?r)"
      using schedule_registers_snd [of r s h t ps d "[]"] Cons.prems e
      by (cases "schedule_slave h t e (d, r)") (simp add: schedule_slave_def)
    moreover have "snd (fold (schedule_slave h t) m (d', ?r)) = ?r @ due_map h t m"
      using Cons.prems e by (intro Cons.IH) (auto simp: omap_ok_Cons)
    ultimately show ?case using e by (simp add: due_map_def)
  qed
  from this [of "[]"] assms show ?thesis by (simp add: getRegistersToPoll_def)
qed

lemma getRegistersToPoll_fst:
  "fst (getRegistersToPoll h m t) =
     fold (\<lambda>p d. min d (time_to_poll h t p)) (filter (live h) (polls_of m)) duration_max"
proof -
  have "fst (fold (schedule_slave h t) m (d, r)) =
      fold (\<lambda>p d. min d (time_to_poll h t p)) (filter (live h) (polls_of m)) d" for d r
  proof (induction m arbitrary: d r)
    case Nil
    then show ?case by (simp add: polls_of_def)
  next
    case (Cons e m)
    obtain d' r' where 1: "schedule_slave h t e (d, r) = (d', r')" by fastforce
    then have "d' = fold (\<lambda>p d. min d (time_to_poll h t p)) (filter (live h) (snd e)) d"
      using schedule_registers_fst [of h t "fst e" "snd e" d r] by (simp add: schedule_slave_def)
    then show ?case using 1 Cons [of d' r'] by (simp add: polls_of_def)
  qed
  then show ?thesis by (simp add: getRegistersToPoll_def)
qed

lemma fold_min_least:
  "fold (\<lambda>p d. min d (f p)) ps (d :: duration) \<le> d \<and> (\<forall>p \<in> set ps. fold (\<lambda>p d. min d (f p)) ps d \<le> f p)"
proof (induction ps arbitrary: d)
  case (Cons p ps)
  from Cons [of "min d (f p)"] show ?case by auto
qed simp

lemma fold_min_attained:
  "fold (\<lambda>p d. min d (f p)) ps (d :: duration) = d \<or>
   (\<exists>p \<in> set ps. fold (\<lambda>p d. min d (f p)) ps d = f p)"
proof (induction ps arbitrary: d)
  case (Cons p ps)
  from Cons [of "min d (f p)"] show ?case by (auto simp: min_def)
qed simp

lemma polls_of_due_map: "set (polls_of (due_map h t m)) = {p \<in> set (polls_of m). due h t p}"
  by (induction m) (auto simp: due_map_def polls_of_def filter_empty_conv)

text \<open>
  C16: the scheduler returns, slave by slave and in the order of the specification, exactly the polls
  that are due, and no slave without one.
\<close>

theorem schedule_is_what_is_due:
  assumes "omap_ok m"
  shows "snd (getRegistersToPoll h m t) = due_map h t m \<and>
    (\<forall>p. p \<in> set (polls_of (snd (getRegistersToPoll h m t))) \<longleftrightarrow> p \<in> set (polls_of m) \<and> due h t p)"
  using getRegistersToPoll_snd [OF assms] polls_of_due_map by simp

definition demo_schedule :: heap where
  "demo_schedule p =
     (let reg = new_RegisterPoll 1 (int p) HOLDING (1 + int p) 100 ON_CHANGE 0 0 0 0 0
      in Poll (if p = 0 then reg\<lparr>mLastReadStartTime := msec 50\<rparr> else reg))"

theorem schedule_is_what_is_due_witness:
  "snd (getRegistersToPoll demo_schedule [(1, [0, 1])] (msec 120)) = [(1, [1])]"
proof -
  have "omap_ok [(1 :: int, [0, 1 :: ptr])]" by (simp add: omap_ok_def)
  from schedule_is_what_is_due [OF this, of demo_schedule "msec 120"] show ?thesis
    by (simp add: due_map_def due_def demo_schedule_def new_RegisterPoll_def)
qed

text \<open>
  C17: the wait the scheduler asks for misses no poll. A poll that is not due now does not become due
  before the wait is over, and a poll that is due now and is read at some time from now on is not
  due again before the wait is over either.
\<close>

theorem schedule_wait_is_safe:
  assumes "p \<in> set (polls_of m)" and "poll_at h p = Some reg"
    and "t' < t + fst (getRegistersToPoll h m t)" and "t \<le> s"
  shows "(\<not> due h t p \<longrightarrow> \<not> due h t' p) \<and>
    (due h t p \<longrightarrow> \<not> due (h(p := Poll (reg\<lparr>mLastReadStartTime := s, mLastReadOk := b\<rparr>))) t' p)"
proof (cases "live h p")
  case True
  then have "fst (getRegistersToPoll h m t) \<le> time_to_poll h t p"
    using assms(1) fold_min_least [of "time_to_poll h t" "filter (live h) (polls_of m)" duration_max]
    by (simp add: getRegistersToPoll_fst)
  then have "t' < t + time_to_poll h t p" using assms(3) by simp
  then show ?thesis
    using assms(2,4) by (auto simp: due_def time_to_poll_def split: if_splits)
next
  case False
  then have "pollPublishMode reg = ONCE \<and> mLastReadOk reg" using assms(2) by (simp add: live_def)
  then show ?thesis using assms(2) by (auto simp: due_def)
qed

theorem schedule_wait_is_safe_witness:
  "\<not> due demo_schedule (msec 149) 0 \<and> \<not> due demo_schedule (msec 120) 0"
proof -
  have reg: "poll_at demo_schedule 0 =
      Some ((new_RegisterPoll 1 0 HOLDING 1 100 ON_CHANGE 0 0 0 0 0)\<lparr>mLastReadStartTime := msec 50\<rparr>)"
    by (simp add: demo_schedule_def)
  have "fst (getRegistersToPoll demo_schedule [(1, [0, 1])] (msec 120)) = msec 30" by code_simp
  then have wait: "msec 149 < msec 120 + fst (getRegistersToPoll demo_schedule [(1, [0, 1])] (msec 120))"
    by simp
  have mem: "0 \<in> set (polls_of [(1, [0, 1])])" by (simp add: polls_of_def)
  have "\<not> due demo_schedule (msec 120) 0" by code_simp
  with schedule_wait_is_safe [OF mem reg wait order_refl] show ?thesis by blast
qed

section \<open>Remote reads and removal\<close>

lemma defer_poll_eq:
  "defer_poll c p h r =
     (case poll_at h r of
        Some poll \<Rightarrow>
          if r = p \<and> contains c poll
          then Poll (poll\<lparr>mLastReadStartTime := mLastReadStartTime c, mLastReadFinishTime := mLastReadFinishTime c\<rparr>)
          else h r
      | None \<Rightarrow> h r)"
  by (auto simp: defer_poll_def split: option.splits command.splits)

lemma contains_times [simp]:
  "contains c (poll\<lparr>mLastReadStartTime := a, mLastReadFinishTime := b\<rparr>) = contains c (poll :: register_poll)"
  by (simp add: contains_def firstRegister_def lastRegister_def)

lemma fold_defer_poll:
  "fold (defer_poll c) ps h r =
     (case poll_at h r of
        Some poll \<Rightarrow>
          if r \<in> set ps \<and> contains c poll
          then Poll (poll\<lparr>mLastReadStartTime := mLastReadStartTime c, mLastReadFinishTime := mLastReadFinishTime c\<rparr>)
          else h r
      | None \<Rightarrow> h r)"
proof (induction ps arbitrary: h)
  case (Cons p ps)
  show ?case
    unfolding fold_simps o_apply Cons
    by (auto simp: defer_poll_eq split: option.splits command.splits if_splits)
qed (simp split: option.splits)

text \<open>
  C18: a completed remote read defers exactly the polls it covers. A scheduled poll of the same slave
  whose registers all were read takes over the times of the read, so that it is due again only its
  refresh time after the start of the read; every other command is untouched.
\<close>

theorem remote_read_defers_covered_polls:
  "notifyRpcRead c m h r =
     (case poll_at h r of
        Some poll \<Rightarrow>
          if (\<exists>ps. map_of m (mSlaveId c) = Some ps \<and> r \<in> set ps) \<and> contains c poll
          then Poll (poll\<lparr>mLastReadStartTime := mLastReadStartTime c, mLastReadFinishTime := mLastReadFinishTime c\<rparr>)
          else h r
      | None \<Rightarrow> h r)"
  by (auto simp: notifyRpcRead_def fold_defer_poll split: option.splits)

lemma notifyRpcRead_isPoll [simp]: "isPoll (notifyRpcRead c m h r) = isPoll (h r)"
proof (cases "h r")
  case (Poll reg)
  then show ?thesis
    by (auto simp: notifyRpcRead_def fold_defer_poll split: option.splits)
next
  case (Write cmd)
  then show ?thesis
    by (auto simp: notifyRpcRead_def fold_defer_poll split: option.splits)
qed

lemma erase_first_mset:
  "\<exists>x \<in> set xs. P x \<Longrightarrow> \<exists>x \<in> set xs. P x \<and> mset xs = add_mset x (mset (erase_first P xs))"
  by (induction xs) auto

text \<open>
  \<open>remove\<close> takes exactly one matching poll of the slave out of the schedule when there is one,
  changes nothing otherwise, and never leaves a slave without polls behind.
\<close>

theorem remove_takes_one_poll:
  assumes "omap_ok m" and "\<forall>s ps. map_of m s = Some ps \<longrightarrow> ps \<noteq> []"
  shows "omap_ok (scheduler_remove h s reg ty m) \<and>
    (\<forall>s' ps. map_of (scheduler_remove h s reg ty m) s' = Some ps \<longrightarrow> ps \<noteq> []) \<and>
    (\<forall>s'. s' \<noteq> s \<longrightarrow> map_of (scheduler_remove h s reg ty m) s' = map_of m s') \<and>
    (case map_of m s of
       None \<Rightarrow> map_of (scheduler_remove h s reg ty m) s = None
     | Some ps \<Rightarrow>
         if \<exists>p \<in> set ps. poll_matches h reg ty p
         then \<exists>p \<in> set ps. poll_matches h reg ty p \<and> mset ps = add_mset p (mset
           (case map_of (scheduler_remove h s reg ty m) s of None \<Rightarrow> [] | Some ps' \<Rightarrow> ps'))
         else map_of (scheduler_remove h s reg ty m) s = Some ps)"
proof (cases "map_of m s")
  case None
  then show ?thesis using assms by (simp add: scheduler_remove_def)
next
  case (Some ps)
  show ?thesis
  proof (cases "\<exists>p \<in> set ps. poll_matches h reg ty p")
    case True
    let ?ps' = "erase_first (poll_matches h reg ty) ps"
    have m': "scheduler_remove h s reg ty m = (if ?ps' = [] then omap_erase s m else omap_put s ?ps' m)"
      using Some True by (simp add: scheduler_remove_def Let_def)
    have look: "map_of (scheduler_remove h s reg ty m) = (map_of m)(s := (if ?ps' = [] then None else Some ?ps'))"
      using m' assms(1) by (simp add: map_of_omap_put map_of_omap_erase)
    show ?thesis
      using assms Some True m' look erase_first_mset [OF True] by auto
  next
    case False
    then show ?thesis using Some assms by (simp add: scheduler_remove_def)
  qed
qed

theorem remove_takes_one_poll_witness:
  "\<exists>p \<in> {0, 1}. poll_matches demo_schedule 1 HOLDING p \<and> {#0, 1#} = add_mset p (mset
     (case map_of (scheduler_remove demo_schedule 1 1 HOLDING [(1, [0, 1])]) 1 of
        None \<Rightarrow> [] | Some ps \<Rightarrow> ps))"
proof -
  let ?m = "[(1 :: int, [0, 1 :: ptr])]"
  have "omap_ok ?m" and "\<forall>s ps. map_of ?m s = Some ps \<longrightarrow> ps \<noteq> []" by (simp_all add: omap_ok_def)
  note rem = remove_takes_one_poll [OF this, of demo_schedule 1 1 HOLDING]
  have "poll_matches demo_schedule 1 HOLDING 1" by code_simp
  with rem show ?thesis by simp
qed

end
