(* ===== verification/Text_Numbers.thy ===== *)
theory Text_Numbers
  imports Gateway_Prelude "HOL-Library.Sublist"
begin

text \<open>
  Strings as the sources use them: \<open>strutils.hpp\<close>, the number conversions of the standard
  library (\<open>std::stoi\<close>, \<open>strtol\<close>, \<open>std::to_string\<close>), \<open>std::getline\<close> on a separator, and the
  exceptions that leave the configuration code.
\<close>

named_theorems text_simps \<open>rules for printed and parsed numbers\<close>

section \<open>Exceptions\<close>

text \<open>
  \<open>ConfigurationException\<close> carries \<open>mLineNumber\<close> and \<open>mWhat\<close>. \<open>Undefined\<close> stands for undefined
  behaviour: a signed overflow or a read of a variable that was never written.
\<close>

datatype cpp_exn =
    InvalidArgument string
  | OutOfRange
  | ConfigurationException int string
  | BadConversion
  | ConvNameParserException string
  | ConvException string
  | MosquittoException string
  | MqttPayloadConversionException string
  | ConvPluginNotFoundException string
  | LogicError string
  | Undefined

text \<open>\<open>what()\<close>; the number parsers of the standard library put their name there.\<close>

fun exn_what :: "cpp_exn \<Rightarrow> string" where
  "exn_what (InvalidArgument w) = w"
| "exn_what OutOfRange = ''stoi''"
| "exn_what (ConfigurationException l w) = w"
| "exn_what BadConversion = ''bad conversion''"
| "exn_what (ConvNameParserException w) = w"
| "exn_what (ConvException w) = w"
| "exn_what (MosquittoException w) = w"
| "exn_what (MqttPayloadConversionException w) = w"
| "exn_what (ConvPluginNotFoundException w) = w"
| "exn_what (LogicError w) = w"
| "exn_what Undefined = []"

section \<open>Characters\<close>

definition isspace :: "char \<Rightarrow> bool" where
  "isspace c \<longleftrightarrow> c \<in> {CHR '' '', CHR 0x09, CHR 0x0A, CHR 0x0B, CHR 0x0C, CHR 0x0D}"

text \<open>The value of a digit, for bases up to 36.\<close>

definition digit_val :: "char \<Rightarrow> nat" where
  "digit_val c =
     (let n = of_char c in
      if 48 \<le> n \<and> n \<le> 57 then n - 48
      else if 97 \<le> n \<and> n \<le> 122 then n - 87
      else if 65 \<le> n \<and> n \<le> 90 then n - 55
      else 36)"

definition is_digit :: "nat \<Rightarrow> char \<Rightarrow> bool" where
  "is_digit base c \<longleftrightarrow> digit_val c < base"

definition digit_char :: "nat \<Rightarrow> char" where
  "digit_char d = char_of (48 + d)"

lemma digit_val_char [simp]: "d < 10 \<Longrightarrow> digit_val (digit_char d) = d"
  by (simp add: digit_val_def digit_char_def of_char_of)

lemma is_digit_char [simp]: "d < 10 \<Longrightarrow> is_digit 10 (digit_char d)"
  by (simp add: is_digit_def)

lemma of_char_digit_char: "d < 10 \<Longrightarrow> of_char (digit_char d) = 48 + d"
  by (simp add: digit_char_def of_char_of)

section \<open>Numbers\<close>

definition digits_value :: "nat \<Rightarrow> string \<Rightarrow> nat" where
  "digits_value base ds = fold (\<lambda>c acc. acc * base + digit_val c) ds 0"

definition has_hex_prefix :: "string \<Rightarrow> bool" where
  "has_hex_prefix s =
     (case s of
        a # x # d # _ \<Rightarrow> a = CHR ''0'' \<and> (x = CHR ''x'' \<or> x = CHR ''X'') \<and> is_digit 16 d
      | _ \<Rightarrow> False)"

text \<open>
  \<open>strtol\<close>: blanks, a sign, the prefix of the base, digits. The result is the number and the
  position after it, or \<open>None\<close> when there is no digit.
\<close>

definition split_sign :: "string \<Rightarrow> int \<times> nat \<times> string" where
  "split_sign s =
     (case s of
        c # r \<Rightarrow> if c = CHR ''-'' then (-1, 1, r) else if c = CHR ''+'' then (1, 1, r) else (1, 0, s)
      | [] \<Rightarrow> (1, 0, s))"

definition split_base :: "nat \<Rightarrow> string \<Rightarrow> nat \<times> nat \<times> string" where
  "split_base base s =
     (if (base = 0 \<or> base = 16) \<and> has_hex_prefix s then (16, 2, drop 2 s)
      else if base = 0 then
        (case s of c # _ \<Rightarrow> if c = CHR ''0'' then (8, 0, s) else (10, 0, s) | [] \<Rightarrow> (10, 0, s))
      else (base, 0, s))"

definition strtol :: "nat \<Rightarrow> string \<Rightarrow> (int \<times> nat) option" where
  "strtol base s =
     (let blanks = length (takeWhile isspace s);
          (sgn, signs, r) = split_sign (drop blanks s);
          (b, prefix, r) = split_base base r;
          ds = takeWhile (is_digit b) r
      in if ds = [] then None
         else Some (sgn * int (digits_value b ds), blanks + signs + prefix + length ds))"

definition INT_MAX :: int where "INT_MAX = 2147483647"
definition INT_MIN :: int where "INT_MIN = - 2147483648"

definition in_int :: "int \<Rightarrow> bool" where
  "in_int v \<longleftrightarrow> INT_MIN \<le> v \<and> v \<le> INT_MAX"

text \<open>\<open>std::stoi(s, &pos, base)\<close>\<close>

definition stoi :: "nat \<Rightarrow> string \<Rightarrow> cpp_exn + (int \<times> nat)" where
  "stoi base s =
     (case strtol base s of
        None \<Rightarrow> Inl (InvalidArgument ''stoi'')
      | Some (v, pos) \<Rightarrow> if in_int v then Inr (v, pos) else Inl OutOfRange)"

text \<open>\<open>std::to_string\<close> of an integer\<close>

fun nat_string :: "nat \<Rightarrow> string" where
  "nat_string n =
     (if n < 10 then [digit_char n] else nat_string (n div 10) @ [digit_char (n mod 10)])"

declare nat_string.simps [simp del]

definition to_string :: "int \<Rightarrow> string" where
  "to_string v = (if v < 0 then CHR ''-'' # nat_string (nat (- v)) else nat_string (nat v))"

lemma nat_string_digits: "list_all (is_digit 10) (nat_string n)"
proof (induction n rule: nat_string.induct)
  case (1 n)
  then show ?case by (subst nat_string.simps) simp
qed

lemma nat_string_nonempty [simp]: "nat_string n \<noteq> []"
  by (subst nat_string.simps) simp

lemma digits_value_snoc: "digits_value b (ds @ [c]) = digits_value b ds * b + digit_val c"
  by (simp add: digits_value_def)

lemma digits_value_nat_string [simp]: "digits_value 10 (nat_string n) = n"
proof (induction n rule: nat_string.induct)
  case (1 n)
  show ?case
  proof (cases "n < 10")
    case True
    then show ?thesis by (simp add: nat_string.simps [of n] digits_value_def)
  next
    case False
    with 1 show ?thesis by (simp add: nat_string.simps [of n] digits_value_snoc)
  qed
qed

lemma nat_string_hd_digit: "is_digit 10 (hd (nat_string n))"
  using nat_string_digits [of n] by (cases "nat_string n") auto

lemma is_digit_code: "is_digit 10 c \<longleftrightarrow> 48 \<le> (of_char c :: nat) \<and> (of_char c :: nat) \<le> 57"
  by (auto simp: is_digit_def digit_val_def Let_def)

lemma digit_not_special:
  assumes "is_digit 10 c"
  shows "\<not> isspace c" "c \<noteq> CHR ''-''" "c \<noteq> CHR ''+''" "c \<noteq> CHR '',''"
  using assms by (auto simp: is_digit_code isspace_def)

text \<open>A printed number is read back, whatever follows it, as long as that is not a digit.\<close>

lemma takeWhile_digits:
  assumes "list_all P ds" and "rest = [] \<or> \<not> P (hd rest)"
  shows "takeWhile P (ds @ rest) = ds"
  using assms by (induction ds) (cases rest; auto)+

lemma strtol_nat_string:
  assumes rest: "rest = [] \<or> \<not> is_digit 10 (hd rest)"
  shows "strtol 10 (nat_string n @ rest) = Some (int n, length (nat_string n))"
proof -
  obtain c cs where c: "nat_string n = c # cs" by (cases "nat_string n") auto
  then have d: "is_digit 10 c" using nat_string_hd_digit [of n] by simp
  have "takeWhile (is_digit 10) (nat_string n @ rest) = nat_string n"
    using takeWhile_digits [OF nat_string_digits rest] .
  then show ?thesis
    using digit_not_special [OF d] d c digits_value_nat_string [of n]
    by (simp add: strtol_def split_sign_def split_base_def del: digits_value_nat_string)
qed

lemma strtol_to_string [text_simps]:
  assumes rest: "rest = [] \<or> \<not> is_digit 10 (hd rest)"
  shows "strtol 10 (to_string v @ rest) = Some (v, length (to_string v))"
proof (cases "v < 0")
  case True
  have "takeWhile (is_digit 10) (nat_string (nat (- v)) @ rest) = nat_string (nat (- v))"
    using takeWhile_digits [OF nat_string_digits rest] .
  moreover have "\<not> isspace (CHR ''-'')" by (simp add: isspace_def)
  ultimately show ?thesis using True
    by (simp add: to_string_def strtol_def split_sign_def split_base_def)
next
  case False
  then show ?thesis using strtol_nat_string [OF rest, of "nat v"] by (simp add: to_string_def)
qed

lemma stoi_to_string [text_simps]:
  assumes "rest = [] \<or> \<not> is_digit 10 (hd rest)" and "in_int v"
  shows "stoi 10 (to_string v @ rest) = Inr (v, length (to_string v))"
  using assms by (simp add: stoi_def strtol_to_string)

lemma to_string_nonempty [simp]: "to_string v \<noteq> []"
  by (simp add: to_string_def)

section \<open>Lines and blanks\<close>

text \<open>
  \<open>std::getline(stream, segment, sep)\<close> until it fails: the pieces between separators, without an
  empty piece after the last separator.
\<close>

function getline_all :: "char \<Rightarrow> string \<Rightarrow> string list" where
  "getline_all sep s =
     (if s = [] then []
      else takeWhile (\<lambda>c. c \<noteq> sep) s #
           getline_all sep (drop 1 (dropWhile (\<lambda>c. c \<noteq> sep) s)))"
  by auto
termination
proof (relation "measure (\<lambda>(sep, s). length s)", simp)
  fix sep :: char and s :: string
  assume "s \<noteq> []"
  moreover have "length (dropWhile (\<lambda>c. c \<noteq> sep) s) \<le> length s"
    by (rule length_dropWhile_le)
  ultimately show "((sep, drop 1 (dropWhile (\<lambda>c. c \<noteq> sep) s)), (sep, s)) \<in> measure (\<lambda>(sep, s). length s)"
    by (cases s) (auto simp: less_Suc_eq_le intro: le_trans [OF diff_le_self length_dropWhile_le])
qed

declare getline_all.simps [simp del]

fun join_with :: "char \<Rightarrow> string list \<Rightarrow> string" where
  "join_with sep [] = []"
| "join_with sep [x] = x"
| "join_with sep (x # y # zs) = x @ sep # join_with sep (y # zs)"

lemma getline_all_join:
  assumes "\<forall>x \<in> set xs. sep \<notin> set x" and "xs \<noteq> [] \<longrightarrow> last xs \<noteq> []"
  shows "getline_all sep (join_with sep xs) = xs"
  using assms
proof (induction sep xs rule: join_with.induct)
  case (1 sep)
  then show ?case by (simp add: getline_all.simps)
next
  case (2 sep x)
  then have all: "\<forall>c \<in> set x. c \<noteq> sep" by auto
  then have "getline_all sep (drop (Suc 0) (dropWhile (\<lambda>c. c \<noteq> sep) x)) = []"
    by (simp only: dropWhile_eq_Nil_conv [THEN iffD2, OF all]) (simp add: getline_all.simps)
  with 2 all show ?case by (simp add: getline_all.simps [of sep x] takeWhile_eq_all_conv)
next
  case (3 sep x y zs)
  then have x: "\<forall>c \<in> set x. c \<noteq> sep" by auto
  have "takeWhile (\<lambda>c. c \<noteq> sep) (x @ sep # r) = x"
    "dropWhile (\<lambda>c. c \<noteq> sep) (x @ sep # r) = sep # r" for r
    using x by (simp_all add: takeWhile_append dropWhile_append)
  with 3 show ?case
    by (simp add: getline_all.simps [of sep "x @ sep # join_with sep (y # zs)"])
qed

text \<open>\<open>StrUtils\<close> erases in place; the result is the returned string.\<close>

definition ltrim :: "string \<Rightarrow> string" where
  "ltrim s = dropWhile isspace s"

definition rtrim :: "string \<Rightarrow> string" where
  "rtrim s = rev (dropWhile isspace (rev s))"

definition trim :: "string \<Rightarrow> string" where
  "trim s = ltrim (rtrim s)"

lemma rtrim_prefix: "\<exists>r. s = rtrim s @ r \<and> list_all isspace r"
proof -
  have "s = rev (dropWhile isspace (rev s)) @ rev (takeWhile isspace (rev s))"
    by (metis rev_append rev_rev_ident takeWhile_dropWhile_id)
  moreover have "list_all isspace (rev (takeWhile isspace (rev s)))"
    by (auto simp: list_all_iff dest: set_takeWhileD)
  ultimately show ?thesis by (auto simp: rtrim_def)
qed

lemma ltrim_suffix: "\<exists>l. s = l @ ltrim s \<and> list_all isspace l"
  by (rule exI [of _ "takeWhile isspace s"]) (auto simp: ltrim_def list_all_iff dest: set_takeWhileD)

lemma ltrim_hd: "ltrim s \<noteq> [] \<Longrightarrow> \<not> isspace (hd (ltrim s))"
  by (simp add: ltrim_def hd_dropWhile)

lemma rtrim_last: "rtrim s \<noteq> [] \<Longrightarrow> \<not> isspace (last (rtrim s))"
  by (simp add: rtrim_def last_rev hd_dropWhile)

lemma trim_parts:
  "\<exists>l r. s = l @ trim s @ r \<and> list_all isspace l \<and> list_all isspace r \<and>
     (trim s \<noteq> [] \<longrightarrow> \<not> isspace (hd (trim s)) \<and> \<not> isspace (last (trim s)))"
proof -
  obtain r where r: "s = rtrim s @ r" "list_all isspace r" using rtrim_prefix [of s] by blast
  obtain l where l: "rtrim s = l @ trim s" "list_all isspace l"
    using ltrim_suffix [of "rtrim s"] by (auto simp: trim_def)
  have "trim s \<noteq> [] \<Longrightarrow> \<not> isspace (last (trim s))"
    using rtrim_last [of s] l by auto
  moreover have "trim s \<noteq> [] \<Longrightarrow> \<not> isspace (hd (trim s))"
    using ltrim_hd [of "rtrim s"] by (simp add: trim_def)
  ultimately show ?thesis using r l by auto
qed

end
