(* ===== verification/Gateway_Config.thy ===== *)
theory Gateway_Config
  imports Text_Numbers Modbus_Types
begin

text \<open>
  The configuration classes: \<open>config.hpp\<close>, \<open>config.cpp\<close>, \<open>modbus_slave.hpp\<close>,
  \<open>modbus_slave.cpp\<close> and the converters of \<open>yaml_converters.hpp\<close>. yaml-cpp is a parameter: a
  record of the functions of \<open>YAML::Node\<close> the sources call. \<open>None\<close> of a conversion is the
  exception \<open>YAML::BadConversion\<close>, \<open>None\<close> of the line is a null mark. A document is a finite tree,
  and \<open>nodeHeight\<close> is the number of levels below a node.
\<close>

section \<open>The YAML library\<close>

record 'n yaml_lib =
  child :: "'n \<Rightarrow> string \<Rightarrow> 'n"
  IsDefined :: "'n \<Rightarrow> bool"
  IsScalar :: "'n \<Rightarrow> bool"
  markLine :: "'n \<Rightarrow> int option"
  asString :: "'n \<Rightarrow> string option"
  asInt :: "'n \<Rightarrow> int option"
  asUShort :: "'n \<Rightarrow> u16 option"
  asChar :: "'n \<Rightarrow> char option"
  asBool :: "'n \<Rightarrow> bool option"
  IsSequence :: "'n \<Rightarrow> bool"
  IsMap :: "'n \<Rightarrow> bool"
  elements :: "'n \<Rightarrow> 'n list"
  nodeHeight :: "'n \<Rightarrow> nat"

definition as_or_throw :: "'a option \<Rightarrow> cpp_exn + 'a" where
  "as_or_throw r = (case r of None \<Rightarrow> Inl BadConversion | Some v \<Rightarrow> Inr v)"

abbreviation as_string :: "'n yaml_lib \<Rightarrow> 'n \<Rightarrow> cpp_exn + string" where
  "as_string lib node \<equiv> as_or_throw (asString lib node)"

abbreviation as_int :: "'n yaml_lib \<Rightarrow> 'n \<Rightarrow> cpp_exn + int" where
  "as_int lib node \<equiv> as_or_throw (asInt lib node)"

abbreviation as_ushort :: "'n yaml_lib \<Rightarrow> 'n \<Rightarrow> cpp_exn + u16" where
  "as_ushort lib node \<equiv> as_or_throw (asUShort lib node)"

abbreviation as_bool :: "'n yaml_lib \<Rightarrow> 'n \<Rightarrow> cpp_exn + bool" where
  "as_bool lib node \<equiv> as_or_throw (asBool lib node)"

section \<open>Reading values\<close>

text \<open>The constructor of \<open>ConfigurationException\<close>.\<close>

definition config_exn :: "int option \<Rightarrow> string \<Rightarrow> cpp_exn" where
  "config_exn mark what =
     (case mark of
        None \<Rightarrow> ConfigurationException 0 (''config error'' @ '': '' @ what)
      | Some line \<Rightarrow>
          ConfigurationException (line + 1)
            (''config error'' @ ''(line '' @ to_string (line + 1) @ ''): '' @ what))"

text \<open>\<open>ConfigTools\<close>; \<open>as\<close> is the conversion of the type parameter.\<close>

definition readRequiredNode ::
  "'n yaml_lib \<Rightarrow> ('n \<Rightarrow> cpp_exn + 'a) \<Rightarrow> 'n \<Rightarrow> cpp_exn + 'a" where
  "readRequiredNode lib as node =
     (if \<not> IsScalar lib node
      then Inl (config_exn (markLine lib node) ''string expected, list/null found'')
      else as node)"

definition readRequiredValue ::
  "'n yaml_lib \<Rightarrow> ('n \<Rightarrow> cpp_exn + 'a) \<Rightarrow> 'n \<Rightarrow> string \<Rightarrow> cpp_exn + 'a" where
  "readRequiredValue lib as parent nodeName =
     (let node = child lib parent nodeName in
      if \<not> IsDefined lib node
      then Inl (config_exn (markLine lib parent)
                  (''Missing reqired property '' @ [CHR 0x27] @ nodeName @ [CHR 0x27]))
      else readRequiredNode lib as node)"

definition readRequiredString :: "'n yaml_lib \<Rightarrow> 'n \<Rightarrow> string \<Rightarrow> cpp_exn + string" where
  "readRequiredString lib parent nodeName =
     bindE (readRequiredValue lib (as_string lib) parent nodeName) (\<lambda>ret.
       if ret = []
       then Inl (config_exn (markLine lib parent) (nodeName @ '' is an empty string''))
       else Inr ret)"

text \<open>\<open>None\<close>: the node is not defined and the destination keeps its value.\<close>

definition readOptionalValue ::
  "'n yaml_lib \<Rightarrow> ('n \<Rightarrow> cpp_exn + 'a) \<Rightarrow> 'n \<Rightarrow> string \<Rightarrow> cpp_exn + 'a option" where
  "readOptionalValue lib as parent nodeName =
     (let node = child lib parent nodeName in
      if IsDefined lib node then
        (if \<not> IsScalar lib node
         then Inl (config_exn (markLine lib parent)
                     (nodeName @ '' must have a single value. List/null found''))
         else bindE (as node) (\<lambda>v. Inr (Some v)))
      else Inr None)"

definition readOptionalInto ::
  "'n yaml_lib \<Rightarrow> ('n \<Rightarrow> cpp_exn + 'a) \<Rightarrow> 'n \<Rightarrow> string \<Rightarrow> 'a \<Rightarrow> cpp_exn + 'a" where
  "readOptionalInto lib as parent nodeName dest =
     bindE (readOptionalValue lib as parent nodeName)
       (\<lambda>v. Inr (case v of None \<Rightarrow> dest | Some v \<Rightarrow> v))"

text \<open>
  \<open>registerNumberFromString\<close>: a decimal number counts from 1, a hexadecimal one from 0.
\<close>

definition registerNumberFromString :: "string \<Rightarrow> cpp_exn + int" where
  "registerNumberFromString pRegStr =
     (if pRegStr = [] then Inl (InvalidArgument ''Empty register number'')
      else
        bindE (stoi 0 pRegStr) (\<lambda>(val, pos).
          if pos \<noteq> length pRegStr
          then Inl (InvalidArgument (''Invalid register number: '' @ pRegStr))
          else
            let isHex = length pRegStr > 1 \<and>
                        (pRegStr ! 1 = CHR ''x'' \<or> pRegStr ! 1 = CHR ''X'')
            in if \<not> isHex then
                 (if val = 0
                  then Inl (InvalidArgument ''Use hex address for 0-based register number'')
                  else if in_int (val - 1) then Inr (val - 1) else Inl Undefined)
               else Inr val))"

section \<open>Converters\<close>

datatype rtu_serial_mode = UNSPECIFIED | RS232 | RS485
datatype rtu_rts_mode = RTS_NONE | RTS_UP | RTS_DOWN

definition decode_serial_mode :: "string \<Rightarrow> rtu_serial_mode option" where
  "decode_serial_mode str =
     (if str = ''rs232'' then Some RS232 else if str = ''rs485'' then Some RS485 else None)"

definition decode_rts_mode :: "string \<Rightarrow> rtu_rts_mode option" where
  "decode_rts_mode str =
     (if str = ''down'' then Some RTS_DOWN else if str = ''up'' then Some RTS_UP else None)"

definition decode_write_mode :: "string \<Rightarrow> write_mode option" where
  "decode_write_mode str =
     (if str = ''auto'' then Some AUTO
      else if str = ''force_multiple_registers'' then Some FORCE_MULTIPLE_REGISTERS else None)"

text \<open>\<open>node.as<T>()\<close> for a converter on the string of the node\<close>

definition as_decoded ::
  "'n yaml_lib \<Rightarrow> (string \<Rightarrow> 'a option) \<Rightarrow> 'n \<Rightarrow> cpp_exn + 'a" where
  "as_decoded lib dec node = bindE (as_string lib node) (\<lambda>str. as_or_throw (dec str))"

definition c_str :: "string \<Rightarrow> string" where
  "c_str s = takeWhile (\<lambda>c. c \<noteq> CHR 0x00) s"

text \<open>A product of \<open>int\<close>s; a signed overflow is undefined behaviour.\<close>

definition int_mul :: "int \<Rightarrow> int \<Rightarrow> cpp_exn + int" where
  "int_mul a b = (if in_int (a * b) then Inr (a * b) else Inl Undefined)"

text \<open>
  \<open>std::chrono::milliseconds\<close>. The expression \<open>([0-9]+)(ms|s|min)\<close> matches a string exactly
  if its digits are followed by one of the units.
\<close>

definition decode_msec :: "int option \<Rightarrow> string \<Rightarrow> cpp_exn + int" where
  "decode_msec mark strval =
     (let digits = takeWhile (is_digit 10) (c_str strval);
          unit = dropWhile (is_digit 10) (c_str strval)
      in if digits = [] \<or> unit \<notin> {''ms'', ''s'', ''min''}
         then Inl (config_exn mark ''Invalid time specification'')
         else
           bindE (stoi 10 digits) (\<lambda>(mval, _).
             if unit = ''s'' then int_mul mval 1000
             else if unit = ''min'' then int_mul mval (1000 * 60)
             else Inr mval))"

definition as_msec :: "'n yaml_lib \<Rightarrow> 'n \<Rightarrow> cpp_exn + int" where
  "as_msec lib node = bindE (as_string lib node) (decode_msec (markLine lib node))"

text \<open>Lists of numbers and ranges such as \<open>1,2,4-5\<close>\<close>

definition toNumber :: "int option \<Rightarrow> string \<Rightarrow> cpp_exn + int" where
  "toNumber mark val =
     (case stoi 10 val of
        Inr (ret, idx) \<Rightarrow>
          if idx \<noteq> length val
          then Inl (config_exn mark (''Conversion to number failed, unknown char at '' @
                 to_string (int idx) @ '' position in '' @ val))
          else Inr ret
      | Inl (InvalidArgument _) \<Rightarrow>
          Inl (config_exn mark (''Conversion to number or number list failed for ['' @ val @ '']''))
      | Inl OutOfRange \<Rightarrow>
          Inl (config_exn mark
            ''Conversion to number or number list contains number that is out of range'')
      | Inl e \<Rightarrow> Inl e)"

text \<open>The two groups of \<open>\s*([0-9]+)-([0-9]+)\s*\<close>\<close>

definition match_range :: "string \<Rightarrow> (string \<times> string) option" where
  "match_range s =
     (let s = dropWhile isspace s;
          a = takeWhile (is_digit 10) s;
          s = dropWhile (is_digit 10) s
      in case s of
           [] \<Rightarrow> None
         | c # s \<Rightarrow>
             (let b = takeWhile (is_digit 10) s in
              if a \<noteq> [] \<and> c = CHR ''-'' \<and> b \<noteq> [] \<and>
                 list_all isspace (dropWhile (is_digit 10) s)
              then Some (a, b) else None))"

definition decode_segment :: "int option \<Rightarrow> string \<Rightarrow> cpp_exn + (int \<times> int)" where
  "decode_segment mark segment =
     (case match_range (c_str segment) of
        Some (a, b) \<Rightarrow>
          bindE (toNumber mark a) (\<lambda>f. bindE (toNumber mark b) (\<lambda>s. Inr (f, s)))
      | None \<Rightarrow> bindE (toNumber mark segment) (\<lambda>f. Inr (f, f)))"

fun decode_segments :: "int option \<Rightarrow> string list \<Rightarrow> cpp_exn + (int \<times> int) list" where
  "decode_segments mark [] = Inr []"
| "decode_segments mark (s # ss) =
     bindE (decode_segment mark s) (\<lambda>i. bindE (decode_segments mark ss) (\<lambda>is. Inr (i # is)))"

definition decode_ranges :: "int option \<Rightarrow> string \<Rightarrow> cpp_exn + (int \<times> int) list" where
  "decode_ranges mark sval = decode_segments mark (getline_all (CHR '','') sval)"

definition decode_names :: "string \<Rightarrow> string list" where
  "decode_names sval = map trim (getline_all (CHR '','') sval)"

definition as_ranges :: "'n yaml_lib \<Rightarrow> 'n \<Rightarrow> cpp_exn + (int \<times> int) list" where
  "as_ranges lib node = bindE (as_string lib node) (decode_ranges (markLine lib node))"

definition as_names :: "'n yaml_lib \<Rightarrow> 'n \<Rightarrow> cpp_exn + string list" where
  "as_names lib node = bindE (as_string lib node) (\<lambda>sval. Inr (decode_names sval))"

section \<open>Network, slave and broker\<close>

record watchdog_config =
  mAutoWatchPeriod :: bool
  mWatchPeriod :: duration
  mDevicePath :: string

definition default_watchdog_config :: watchdog_config where
  "default_watchdog_config =
     \<lparr>mAutoWatchPeriod = True, mWatchPeriod = 10 * 1000000000, mDevicePath = []\<rparr>"

datatype network_type = RTU | TCPIP

text \<open>Delays are \<open>std::shared_ptr\<close>s to milliseconds, \<open>None\<close> when null.\<close>

record network_config =
  ncType :: network_type
  ncName :: string
  mResponseTimeout :: int
  mResponseDataTimeout :: int
  ncDelayBeforeCommand :: "int option"
  ncDelayBeforeFirstCommand :: "int option"
  ncMaxWriteRetryCount :: u16
  ncMaxReadRetryCount :: u16
  mDevice :: string
  mBaud :: int
  mParity :: char
  mDataBit :: int
  mStopBit :: int
  mRtuSerialMode :: rtu_serial_mode
  mRtsMode :: rtu_rts_mode
  mRtsDelayUs :: int
  mAddress :: string
  ncPort :: int
  mWatchdogConfig :: watchdog_config

definition MAX_RESPONSE_TIMEOUT :: int where
  "MAX_RESPONSE_TIMEOUT = 999"

text \<open>\<open>mType\<close> has no initial value; every constructor that returns has set it.\<close>

definition default_network_config :: network_config where
  "default_network_config =
     \<lparr>ncType = RTU, ncName = [], mResponseTimeout = 500, mResponseDataTimeout = 0,
      ncDelayBeforeCommand = None, ncDelayBeforeFirstCommand = None,
      ncMaxWriteRetryCount = 2, ncMaxReadRetryCount = 1, mDevice = [], mBaud = 0,
      mParity = CHR 0x00, mDataBit = 0, mStopBit = 0, mRtuSerialMode = UNSPECIFIED,
      mRtsMode = RTS_NONE, mRtsDelayUs = 0, mAddress = [], ncPort = 0,
      mWatchdogConfig = default_watchdog_config\<rparr>"

definition readTimeout :: "'n yaml_lib \<Rightarrow> 'n \<Rightarrow> string \<Rightarrow> int \<Rightarrow> cpp_exn + int" where
  "readTimeout lib source name dest =
     bindE (readOptionalValue lib (as_msec lib) source name) (\<lambda>v.
       case v of
         None \<Rightarrow> Inr dest
       | Some t \<Rightarrow>
           if t < 0 \<or> t > MAX_RESPONSE_TIMEOUT
           then Inl (config_exn (markLine lib (child lib source name))
                       (name @ '' value must be in range 0-999ms''))
           else Inr t)"

text \<open>
  The variable \<open>tmpval\<close> is shared by the delays and by the watchdog period. It is \<open>None\<close> until
  something is read into it.
\<close>

definition readDelay ::
  "'n yaml_lib \<Rightarrow> 'n \<Rightarrow> string \<Rightarrow> int option \<times> int option \<Rightarrow> cpp_exn + (int option \<times> int option)" where
  "readDelay lib source name s =
     bindE (readOptionalValue lib (as_msec lib) source name) (\<lambda>v.
       Inr (case v of None \<Rightarrow> s | Some t \<Rightarrow> (Some t, Some t)))"

definition readNetworkDelays ::
  "'n yaml_lib \<Rightarrow> 'n \<Rightarrow> network_config \<Rightarrow> cpp_exn + (int option \<times> network_config)" where
  "readNetworkDelays lib source cfg =
     bindE (readDelay lib source ''min_delay_before_poll'' (None, None)) (\<lambda>(tmpval, every).
     bindE (readDelay lib source ''delay_before_command'' (tmpval, every)) (\<lambda>(tmpval, every).
     bindE (readDelay lib source ''delay_before_first_command'' (tmpval, None))
       (\<lambda>(tmpval, first).
       Inr (tmpval, cfg\<lparr>ncDelayBeforeCommand := every, ncDelayBeforeFirstCommand := first\<rparr>))))"

definition readRtu :: "'n yaml_lib \<Rightarrow> 'n \<Rightarrow> network_config \<Rightarrow> cpp_exn + network_config" where
  "readRtu lib source cfg =
     bindE (readRequiredString lib source ''device'') (\<lambda>device.
     bindE (readRequiredValue lib (as_int lib) source ''baud'') (\<lambda>baud.
     bindE (readRequiredValue lib (\<lambda>n. as_or_throw (asChar lib n)) source ''parity'') (\<lambda>parity.
     bindE (readRequiredValue lib (as_int lib) source ''data_bit'') (\<lambda>data_bit.
     bindE (readRequiredValue lib (as_int lib) source ''stop_bit'') (\<lambda>stop_bit.
     bindE (readOptionalInto lib (as_decoded lib decode_serial_mode) source ''rtu_serial_mode''
              (mRtuSerialMode cfg)) (\<lambda>serial.
     bindE (readOptionalInto lib (as_decoded lib decode_rts_mode) source ''rtu_rts_mode''
              (mRtsMode cfg)) (\<lambda>rts.
     bindE (readOptionalInto lib (as_int lib) source ''rtu_rts_delay_us'' (mRtsDelayUs cfg))
       (\<lambda>rtsDelay.
       Inr (cfg\<lparr>ncType := RTU, mDevice := device, mBaud := baud, mParity := parity,
                mDataBit := data_bit, mStopBit := stop_bit, mRtuSerialMode := serial,
                mRtsMode := rts, mRtsDelayUs := rtsDelay,
                mWatchdogConfig := (mWatchdogConfig cfg)\<lparr>mDevicePath := device\<rparr>\<rparr>)))))))))"

definition readTcp :: "'n yaml_lib \<Rightarrow> 'n \<Rightarrow> network_config \<Rightarrow> cpp_exn + network_config" where
  "readTcp lib source cfg =
     bindE (readRequiredString lib source ''address'') (\<lambda>address.
     bindE (readRequiredValue lib (as_int lib) source ''port'') (\<lambda>port.
       Inr (cfg\<lparr>ncType := TCPIP, mAddress := address, ncPort := port\<rparr>)))"

definition readWatchdog ::
  "'n yaml_lib \<Rightarrow> 'n \<Rightarrow> int option \<Rightarrow> network_config \<Rightarrow> cpp_exn + network_config" where
  "readWatchdog lib source tmpval cfg =
     (if IsDefined lib (child lib source ''watchdog'') then
        bindE (readDelay lib (child lib source ''watchdog'') ''watch_period'' (tmpval, None))
          (\<lambda>(tmpval, _).
            case tmpval of
              None \<Rightarrow> Inl Undefined
            | Some t \<Rightarrow>
                Inr (cfg\<lparr>mWatchdogConfig := (mWatchdogConfig cfg)
                           \<lparr>mWatchPeriod := msec t, mAutoWatchPeriod := False\<rparr>\<rparr>))
      else Inr cfg)"

definition readNetworkKind :: "'n yaml_lib \<Rightarrow> 'n \<Rightarrow> network_config \<Rightarrow> cpp_exn + network_config" where
  "readNetworkKind lib source cfg =
     (if IsDefined lib (child lib source ''device'') then readRtu lib source cfg
      else if IsDefined lib (child lib source ''address'') then readTcp lib source cfg
      else Inl (config_exn (markLine lib source)
             (''Cannot determine modbus network type: missing '' @ [CHR 0x27] @ ''device'' @
              [CHR 0x27] @ '' or '' @ [CHR 0x27] @ ''address'' @ [CHR 0x27])))"

definition new_ModbusNetworkConfig :: "'n yaml_lib \<Rightarrow> 'n \<Rightarrow> cpp_exn + network_config" where
  "new_ModbusNetworkConfig lib source =
     (let cfg = default_network_config in
      bindE (readRequiredString lib source ''name'') (\<lambda>name.
      bindE (readTimeout lib source ''response_timeout'' (mResponseTimeout cfg)) (\<lambda>rt.
      bindE (readTimeout lib source ''response_data_timeout'' (mResponseDataTimeout cfg)) (\<lambda>rdt.
      bindE (readNetworkDelays lib source
               (cfg\<lparr>ncName := name, mResponseTimeout := rt, mResponseDataTimeout := rdt\<rparr>))
        (\<lambda>(tmpval, cfg).
      bindE (readOptionalInto lib (as_ushort lib) source ''write_retries''
               (ncMaxWriteRetryCount cfg)) (\<lambda>wr.
      bindE (readOptionalInto lib (as_ushort lib) source ''read_retries''
               (ncMaxReadRetryCount cfg)) (\<lambda>rr.
      bindE (readNetworkKind lib source
               (cfg\<lparr>ncMaxWriteRetryCount := wr, ncMaxReadRetryCount := rr\<rparr>)) (\<lambda>cfg.
        readWatchdog lib source tmpval cfg))))))))"

record slave_config =
  scAddress :: int
  mSlaveName :: string
  scWriteMode :: write_mode
  scDelayBeforeCommand :: "int option"
  scDelayBeforeFirstCommand :: "int option"
  scMaxWriteRetryCount :: u16
  scMaxReadRetryCount :: u16

definition new_ModbusSlaveConfig :: "'n yaml_lib \<Rightarrow> int \<Rightarrow> 'n \<Rightarrow> cpp_exn + slave_config" where
  "new_ModbusSlaveConfig lib pAddress data =
     bindE (readOptionalInto lib (as_string lib) data ''name'' []) (\<lambda>name.
     bindE (readDelay lib data ''delay_before_poll'' (None, None)) (\<lambda>(tmpval, every).
     bindE (readDelay lib data ''delay_before_command'' (tmpval, every)) (\<lambda>(tmpval, every).
     bindE (readDelay lib data ''delay_before_first_poll'' (tmpval, None)) (\<lambda>(tmpval, first).
     bindE (readDelay lib data ''delay_before_first_command'' (tmpval, first)) (\<lambda>(_, first).
     bindE (readOptionalInto lib (as_ushort lib) data ''write_retries'' 0) (\<lambda>wr.
     bindE (readOptionalInto lib (as_ushort lib) data ''read_retries'' 0) (\<lambda>rr.
     bindE (readOptionalInto lib (as_decoded lib decode_write_mode) data ''write_mode'' AUTO)
       (\<lambda>mode.
       Inr \<lparr>scAddress = pAddress, mSlaveName = name, scWriteMode = mode,
            scDelayBeforeCommand = every, scDelayBeforeFirstCommand = first,
            scMaxWriteRetryCount = wr, scMaxReadRetryCount = rr\<rparr>))))))))"

record broker_config =
  mHost :: string
  mPort :: int
  mKeepalive :: int
  mUsername :: string
  mPassword :: string
  mTLS :: bool
  mCafile :: string
  mProtocolV5 :: bool

definition broker_isSameAs :: "broker_config \<Rightarrow> broker_config \<Rightarrow> bool" where
  "broker_isSameAs this other \<longleftrightarrow>
     mHost this = mHost other \<and> mPort this = mPort other \<and> mKeepalive this = mKeepalive other \<and>
     mUsername this = mUsername other \<and> mPassword this = mPassword other \<and>
     mTLS this = mTLS other \<and> mCafile this = mCafile other"

text \<open>\<open>isFile\<close>: the path exists and is not a directory.\<close>

definition readTls :: "'n yaml_lib \<Rightarrow> (string \<Rightarrow> bool) \<Rightarrow> 'n \<Rightarrow> cpp_exn + (bool \<times> int \<times> string)" where
  "readTls lib isFile source =
     (if IsDefined lib (child lib source ''tls'') then
        bindE (readOptionalValue lib (as_string lib) (child lib source ''tls'') ''cafile'')
          (\<lambda>v. case v of
             None \<Rightarrow> Inr (True, 8883, [])
           | Some cafile \<Rightarrow>
               if \<not> isFile cafile
               then Inl (config_exn (markLine lib (child lib (child lib source ''tls'') ''cafile''))
                      (''CA file '' @ [CHR 0x27] @ cafile @ [CHR 0x27] @ '' is not a readable file''))
               else Inr (True, 8883, cafile))
      else Inr (False, 1883, []))"

definition new_MqttBrokerConfig ::
  "'n yaml_lib \<Rightarrow> (string \<Rightarrow> bool) \<Rightarrow> 'n \<Rightarrow> cpp_exn + broker_config" where
  "new_MqttBrokerConfig lib isFile source =
     bindE (readRequiredString lib source ''host'') (\<lambda>host.
     bindE (readTls lib isFile source) (\<lambda>(tls, port, cafile).
     bindE (readOptionalInto lib (as_int lib) source ''port'' port) (\<lambda>port.
     bindE (readOptionalInto lib (as_int lib) source ''keepalive'' 60) (\<lambda>keepalive.
     bindE (readOptionalInto lib (as_string lib) source ''username'' []) (\<lambda>username.
     bindE (readOptionalInto lib (as_string lib) source ''password'' []) (\<lambda>password.
       Inr \<lparr>mHost = host, mPort = port, mKeepalive = keepalive, mUsername = username,
            mPassword = password, mTLS = tls, mCafile = cafile, mProtocolV5 = False\<rparr>))))))"

end
