(* ===== verification/Modbus_Watchdog.thy ===== *)
theory Modbus_Watchdog
  imports Gateway_Config Register_Commands
begin

text \<open>
  \<open>modbus_watchdog.hpp\<close> and \<open>.cpp\<close>: the watchdog asks for a reconnection when no command has
  succeeded for the watch period, or when the device file of a serial line is gone. The clock
  reading and the answer of \<open>std::filesystem::exists\<close> are arguments; they are ignored on the
  paths that do not ask.
\<close>

section \<open>Operations\<close>

record watchdog =
  mConfig :: watchdog_config
  mLastSuccessfulCommandTime :: time
  mLastDeviceCheckTime :: time
  mLastCommandOk :: bool
  mDeviceRemoved :: bool

definition sDeviceCheckPeriod :: duration where
  "sDeviceCheckPeriod = msec 300"

definition new_watchdog :: watchdog where
  "new_watchdog =
     \<lparr>mConfig = default_watchdog_config, mLastSuccessfulCommandTime = 0,
      mLastDeviceCheckTime = 0, mLastCommandOk = True, mDeviceRemoved = False\<rparr>"

definition watchdog_reset :: "time \<Rightarrow> watchdog \<Rightarrow> watchdog" where
  "watchdog_reset t w =
     w\<lparr>mLastSuccessfulCommandTime := t, mDeviceRemoved := False, mLastCommandOk := True\<rparr>"

definition watchdog_init :: "watchdog_config \<Rightarrow> time \<Rightarrow> watchdog \<Rightarrow> watchdog" where
  "watchdog_init conf t w = watchdog_reset t (w\<lparr>mConfig := conf\<rparr>)"

definition setWatchPeriod :: "duration \<Rightarrow> watchdog \<Rightarrow> watchdog" where
  "setWatchPeriod pWatchPeriod w = w\<lparr>mConfig := (mConfig w)\<lparr>mWatchPeriod := pWatchPeriod\<rparr>\<rparr>"

definition inspectCommand :: "command \<Rightarrow> time \<Rightarrow> bool \<Rightarrow> watchdog \<Rightarrow> watchdog" where
  "inspectCommand command now exists w =
     (let w =
        (if executedOk command then watchdog_reset now w
         else if mDevicePath (mConfig w) \<noteq> [] then
           (if \<not> mDeviceRemoved w \<and>
               (mLastCommandOk w \<or> now - mLastDeviceCheckTime w > sDeviceCheckPeriod)
            then w\<lparr>mDeviceRemoved := \<not> exists, mLastDeviceCheckTime := now\<rparr>
            else w)
         else w)
      in w\<lparr>mLastCommandOk := executedOk command\<rparr>)"

definition getCurrentErrorPeriod :: "time \<Rightarrow> watchdog \<Rightarrow> duration" where
  "getCurrentErrorPeriod now w = now - mLastSuccessfulCommandTime w"

definition isReconnectRequired :: "time \<Rightarrow> watchdog \<Rightarrow> bool" where
  "isReconnectRequired now w =
     (if mDeviceRemoved w then True
      else getCurrentErrorPeriod now w > mWatchPeriod (mConfig w))"

section \<open>Runs\<close>

text \<open>
  What the watchdog sees between two resets: a command, when it was inspected, and whether the
  device file existed then.
\<close>

record inspection =
  inCommand :: command
  inTime :: time
  inExists :: bool

definition inOk :: "inspection \<Rightarrow> bool" where
  "inOk e = executedOk (inCommand e)"

definition inspect :: "inspection \<Rightarrow> watchdog \<Rightarrow> watchdog" where
  "inspect e w = inspectCommand (inCommand e) (inTime e) (inExists e) w"

definition watch :: "inspection list \<Rightarrow> watchdog \<Rightarrow> watchdog" where
  "watch es w = fold inspect es w"

text \<open>The time of the last success, counting the start of the run as one.\<close>

definition last_success :: "time \<Rightarrow> inspection list \<Rightarrow> time" where
  "last_success t0 es = fold (\<lambda>e t. if inOk e then inTime e else t) es t0"

text \<open>The failures since the last success.\<close>

definition failures :: "inspection list \<Rightarrow> inspection list" where
  "failures es = rev (takeWhile (\<lambda>e. \<not> inOk e) (rev es))"

lemma watch_Nil [simp]: "watch [] w = w"
  by (simp add: watch_def)

lemma watch_snoc [simp]: "watch (es @ [e]) w = inspect e (watch es w)"
  by (simp add: watch_def)

lemma watch_append: "watch (es @ es') w = watch es' (watch es w)"
  by (simp add: watch_def)

lemma failures_snoc:
  "failures (es @ [e]) = (if inOk e then [] else failures es @ [e])"
  by (simp add: failures_def)

lemma inspect_keeps_config [simp]: "mConfig (inspect e w) = mConfig w"
  by (simp add: inspect_def inspectCommand_def watchdog_reset_def Let_def)

lemma watch_keeps_config [simp]: "mConfig (watch es w) = mConfig w"
  by (induction es rule: rev_induct) simp_all

lemma watch_last_success:
  "mLastSuccessfulCommandTime (watch es (watchdog_init conf t0 w)) = last_success t0 es"
proof (induction es rule: rev_induct)
  case Nil
  then show ?case by (simp add: last_success_def watchdog_init_def watchdog_reset_def)
next
  case (snoc e es)
  then show ?case
    by (simp add: last_success_def inspect_def inspectCommand_def watchdog_reset_def Let_def inOk_def)
qed

lemma watch_command_ok:
  "mLastCommandOk (watch es (watchdog_init conf t0 w)) \<longleftrightarrow> failures es = []"
proof (induction es rule: rev_induct)
  case Nil
  then show ?case by (simp add: failures_def watchdog_init_def watchdog_reset_def)
next
  case (snoc e es)
  then show ?case by (simp add: failures_snoc inspect_def inspectCommand_def inOk_def Let_def)
qed

text \<open>
  The failures at which the device file is looked for: the first one, and then each that comes
  later than the check period after the last look.
\<close>

definition device_checks :: "inspection list \<Rightarrow> inspection list" where
  "device_checks fs =
     fold (\<lambda>e cs. if cs = [] \<or> inTime e - inTime (last cs) > sDeviceCheckPeriod then cs @ [e] else cs)
       fs []"

lemma device_checks_Nil [simp]: "device_checks [] = []"
  by (simp add: device_checks_def)

lemma device_checks_snoc:
  "device_checks (fs @ [e]) =
     (let cs = device_checks fs
      in if cs = [] \<or> inTime e - inTime (last cs) > sDeviceCheckPeriod then cs @ [e] else cs)"
  by (simp add: device_checks_def Let_def)

lemma device_checks_subset: "set (device_checks fs) \<subseteq> set fs"
  by (induction fs rule: rev_induct) (auto simp: device_checks_snoc Let_def)

lemma device_checks_empty [simp]: "device_checks fs = [] \<longleftrightarrow> fs = []"
  by (cases fs rule: rev_cases) (auto simp: device_checks_snoc Let_def)

text \<open>The flag of the watchdog tells whether a check since the last success found the file gone.\<close>

definition looked_ok :: "inspection list \<Rightarrow> watchdog \<Rightarrow> bool" where
  "looked_ok es w \<longleftrightarrow>
     (let cs = device_checks (failures es)
      in (mDeviceRemoved w \<longleftrightarrow> mDevicePath (mConfig w) \<noteq> [] \<and> (\<exists>e \<in> set cs. \<not> inExists e)) \<and>
         (mDevicePath (mConfig w) \<noteq> [] \<and> cs \<noteq> [] \<and> \<not> mDeviceRemoved w \<longrightarrow>
            mLastDeviceCheckTime w = inTime (last cs)))"

lemma watch_looked: "looked_ok es (watch es (watchdog_init conf t0 w))"
proof (induction es rule: rev_induct)
  case Nil
  then show ?case by (simp add: looked_ok_def failures_def watchdog_init_def watchdog_reset_def)
next
  case (snoc e es)
  have first: "mLastCommandOk (watch es (watchdog_init conf t0 w)) \<longleftrightarrow> failures es = []"
    by (rule watch_command_ok)
  show ?case
  proof (cases "inOk e")
    case True
    then show ?thesis
      by (simp add: looked_ok_def failures_snoc inspect_def inspectCommand_def watchdog_reset_def
          Let_def inOk_def)
  next
    case False
    with first snoc show ?thesis
      by (auto simp: looked_ok_def failures_snoc device_checks_snoc inspect_def inspectCommand_def
          Let_def inOk_def)
  qed
qed

lemma removed_until_success:
  "mDeviceRemoved w \<Longrightarrow> \<forall>e \<in> set es. \<not> inOk e \<Longrightarrow> mDeviceRemoved (watch es w)"
proof (induction es rule: rev_induct)
  case (snoc e es)
  then show ?case by (auto simp: inspect_def inspectCommand_def Let_def inOk_def)
qed simp

lemma gone_is_noticed:
  assumes "\<not> inOk e" "\<not> inExists e" "mDevicePath (mConfig w) \<noteq> []"
    and "inTime e - mLastDeviceCheckTime w > sDeviceCheckPeriod \<or> mLastCommandOk w"
  shows "mDeviceRemoved (inspect e w)"
  using assms by (auto simp: inspect_def inspectCommand_def Let_def inOk_def)

lemma unnoticed_keeps_check:
  assumes "\<not> inOk e" "\<not> inExists e" "\<not> mDeviceRemoved (inspect e w)"
  shows "mLastDeviceCheckTime (inspect e w) = mLastDeviceCheckTime w \<and> \<not> mDeviceRemoved w"
  using assms by (auto simp: inspect_def inspectCommand_def Let_def inOk_def split: if_splits)

lemma unnoticed_run_keeps_check:
  "\<forall>e \<in> set es. \<not> inOk e \<and> \<not> inExists e \<Longrightarrow> \<not> mDeviceRemoved (watch es w) \<Longrightarrow>
   mLastDeviceCheckTime (watch es w) = mLastDeviceCheckTime w"
proof (induction es rule: rev_induct)
  case (snoc e es)
  then have "mLastDeviceCheckTime (inspect e (watch es w)) = mLastDeviceCheckTime (watch es w)"
    "\<not> mDeviceRemoved (watch es w)"
    using unnoticed_keeps_check [of e "watch es w"] by auto
  with snoc show ?case by simp
qed simp

section \<open>Properties\<close>

text \<open>
  C28: over any run of inspected commands the watchdog asks for a reconnection exactly when the
  last success is longer ago than the watch period, or the line has a device file and a look for it
  since that success did not find it. The first failed command after a success looks, and then each
  failed command that comes more than 300 ms after the last look.
\<close>

theorem reconnect_only_when_needed:
  "isReconnectRequired t (watch es (watchdog_init conf t0 w)) \<longleftrightarrow>
     t - last_success t0 es > mWatchPeriod conf \<or>
     mDevicePath conf \<noteq> [] \<and> (\<exists>e \<in> set (device_checks (failures es)). \<not> inExists e)"
proof -
  have "mConfig (watchdog_init conf t0 w) = conf"
    by (simp add: watchdog_init_def watchdog_reset_def)
  then show ?thesis
    using watch_looked [of es conf t0 w]
    by (auto simp: isReconnectRequired_def getCurrentErrorPeriod_def watch_last_success looked_ok_def
        Let_def)
qed

text \<open>
  C29: a removed device is noticed: when every command fails from some failure on that found the
  device gone, and the device stays away, the watchdog asks for a reconnection after the first
  failure, or else once a command fails more than the check period later.
\<close>

theorem removed_device_noticed:
  assumes path: "mDevicePath conf \<noteq> []"
    and gone: "\<forall>e \<in> set (first # later). \<not> inOk e \<and> \<not> inExists e"
    and order: "\<forall>e \<in> set es. inTime e \<le> inTime first"
    and late: "failures es = [] \<or> inTime (last (first # later)) - inTime first > sDeviceCheckPeriod"
  shows "isReconnectRequired t (watch (es @ first # later) (watchdog_init conf t0 w))"
proof -
  let ?w = "watch es (watchdog_init conf t0 w)" and ?v = "inspect first (watch es (watchdog_init conf t0 w))"
  have p: "mDevicePath (mConfig ?w) \<noteq> []" "mDevicePath (mConfig ?v) \<noteq> []"
    using path by (simp_all add: watchdog_init_def watchdog_reset_def)
  have "mDeviceRemoved (watch later ?v)"
  proof (rule ccontr)
    assume not: "\<not> mDeviceRemoved (watch later ?v)"
    then have "\<not> mDeviceRemoved ?v" using removed_until_success gone by fastforce
    then have check: "mLastDeviceCheckTime ?v = mLastDeviceCheckTime ?w" "\<not> mDeviceRemoved ?w"
      using unnoticed_keeps_check gone by auto
    have nonempty: "failures es \<noteq> []"
      using gone_is_noticed [of first ?w] gone p(1) \<open>\<not> mDeviceRemoved ?v\<close>
        watch_command_ok [of es conf t0 w] by auto
    then have "device_checks (failures es) \<noteq> []" by simp
    moreover from this have "last (device_checks (failures es)) \<in> set (failures es)"
      using device_checks_subset by fastforce
    ultimately obtain e where "e \<in> set (failures es)" "mLastDeviceCheckTime ?w = inTime e"
      using watch_looked [of es conf t0 w] check(2) p(1) by (auto simp: looked_ok_def Let_def)
    then have "mLastDeviceCheckTime ?v \<le> inTime first"
      using order check(1) by (auto simp: failures_def dest: set_takeWhileD)
    moreover have "later \<noteq> []" using late nonempty by (auto simp: sDeviceCheckPeriod_def)
    then obtain mid l where l: "later = mid @ [l]" by (cases later rule: rev_cases) auto
    then have "\<not> mDeviceRemoved (watch mid ?v)"
      using not gone removed_until_success [of "watch mid ?v" "[l]"] by (auto simp: watch_def)
    then have "mLastDeviceCheckTime (watch mid ?v) = mLastDeviceCheckTime ?v"
      using unnoticed_run_keeps_check gone l by auto
    ultimately have "inTime l - mLastDeviceCheckTime (watch mid ?v) > sDeviceCheckPeriod"
      using late nonempty l by auto
    then show False using gone_is_noticed [of l "watch mid ?v"] gone l p(2) not by auto
  qed
  then show ?thesis by (simp add: watch_def isReconnectRequired_def)
qed

definition demo_inspection :: "time \<Rightarrow> bool \<Rightarrow> inspection" where
  "demo_inspection t exists =
     \<lparr>inCommand = Poll (new_RegisterPoll 1 0 HOLDING 1 1000 ON_CHANGE 0 0 0 0 0),
      inTime = t, inExists = exists\<rparr>"

theorem removed_device_noticed_witness:
  "isReconnectRequired 0
     (watch ([demo_inspection 1 True] @ demo_inspection 2 False # [demo_inspection (msec 301) False])
        (watchdog_init (default_watchdog_config\<lparr>mDevicePath := ''/dev/ttyS0''\<rparr>) 0 new_watchdog))"
  by (rule removed_device_noticed)
    (simp_all add: demo_inspection_def inOk_def new_RegisterPoll_def sDeviceCheckPeriod_def)

end
