(* ===== verification/Config_Properties.thy ===== *)
theory Config_Properties
  imports Gateway_Config
begin

text \<open>
  What the configuration classes accept: the bounds every accepted network has, the values that
  printed durations, register numbers and register lists are read back as, and where the watchdog
  period comes from.
\<close>

section \<open>A concrete YAML document\<close>

text \<open>An instance of the library parameter on which the properties are exercised.\<close>

datatype doc = Leaf string | Node "(string \<times> doc) list" | Items "doc list" | Absent

fun doc_text :: "doc \<Rightarrow> string option" where
  "doc_text (Leaf s) = Some s"
| "doc_text _ = None"

fun doc_child :: "doc \<Rightarrow> string \<Rightarrow> doc" where
  "doc_child (Node es) name = (case map_of es name of None \<Rightarrow> Absent | Some d \<Rightarrow> d)"
| "doc_child _ name = Absent"

definition doc_int :: "doc \<Rightarrow> int option" where
  "doc_int d = (case doc_text d of
     None \<Rightarrow> None
   | Some s \<Rightarrow> (case stoi 10 s of
       Inr (v, pos) \<Rightarrow> if pos = length s then Some v else None
     | Inl _ \<Rightarrow> None))"

fun doc_items :: "doc \<Rightarrow> doc list" where
  "doc_items (Items ds) = ds"
| "doc_items _ = []"

definition doc_bool :: "doc \<Rightarrow> bool option" where
  "doc_bool d =
     (if doc_text d = Some ''true'' then Some True
      else if doc_text d = Some ''false'' then Some False else None)"

definition doc_lib :: "doc yaml_lib" where
  "doc_lib =
     \<lparr>child = doc_child, IsDefined = (\<lambda>d. d \<noteq> Absent),
      IsScalar = (\<lambda>d. doc_text d \<noteq> None), markLine = (\<lambda>_. None), asString = doc_text,
      asInt = doc_int, asUShort = (\<lambda>d. map_option of_int (doc_int d)),
      asChar = (\<lambda>d. case doc_text d of Some [c] \<Rightarrow> Some c | _ \<Rightarrow> None),
      asBool = doc_bool, IsSequence = (\<lambda>d. case d of Items _ \<Rightarrow> True | _ \<Rightarrow> False),
      IsMap = (\<lambda>d. case d of Node _ \<Rightarrow> True | _ \<Rightarrow> False), elements = doc_items,
      nodeHeight = size\<rparr>"

definition rtu_doc :: doc where
  "rtu_doc = Node [(''name'', Leaf ''net''), (''device'', Leaf ''/dev/ttyS0''),
     (''baud'', Leaf ''9600''), (''parity'', Leaf ''N''), (''data_bit'', Leaf ''8''),
     (''stop_bit'', Leaf ''1''), (''response_timeout'', Leaf ''20ms''),
     (''delay_before_first_command'', Leaf ''15ms''), (''watchdog'', Node [])]"

section \<open>Networks\<close>

lemma readRequiredString_nonempty:
  "readRequiredString lib source name = Inr s \<Longrightarrow> s \<noteq> []"
  by (auto simp: readRequiredString_def fault_simps split: if_splits)

lemma readTimeout_bounds:
  "readTimeout lib source name d = Inr t \<Longrightarrow> 0 \<le> d \<Longrightarrow> d \<le> MAX_RESPONSE_TIMEOUT \<Longrightarrow>
   0 \<le> t \<and> t \<le> MAX_RESPONSE_TIMEOUT"
proof -
  assume "readTimeout lib source name d = Inr t" and d: "0 \<le> d" "d \<le> MAX_RESPONSE_TIMEOUT"
  then obtain v where "(case v of None \<Rightarrow> Inr d | Some t \<Rightarrow>
      if t < 0 \<or> t > MAX_RESPONSE_TIMEOUT
      then Inl (config_exn (markLine lib (child lib source name))
                  (name @ '' value must be in range 0-999ms''))
      else Inr t) = (Inr t :: cpp_exn + int)"
    unfolding readTimeout_def bindE_Inr_iff by blast
  with d show ?thesis by (cases v) (simp_all split: if_splits)
qed

text \<open>What the parts of the constructor leave alone.\<close>

lemma readNetworkDelays_keeps:
  assumes "readNetworkDelays lib source cfg = Inr (tmpval, cfg')"
  shows "ncName cfg' = ncName cfg \<and> mResponseTimeout cfg' = mResponseTimeout cfg \<and>
    mResponseDataTimeout cfg' = mResponseDataTimeout cfg \<and>
    mWatchdogConfig cfg' = mWatchdogConfig cfg"
  using assms by (auto simp: readNetworkDelays_def fault_simps)

definition kind_ok :: "network_config \<Rightarrow> bool" where
  "kind_ok cfg \<longleftrightarrow>
     (case ncType cfg of
        RTU \<Rightarrow> mDevice cfg \<noteq> [] \<and> mDevicePath (mWatchdogConfig cfg) = mDevice cfg
      | TCPIP \<Rightarrow> mAddress cfg \<noteq> [] \<and> mDevicePath (mWatchdogConfig cfg) = [])"

lemma readNetworkKind_keeps:
  assumes "readNetworkKind lib source cfg = Inr cfg'"
    and "mDevicePath (mWatchdogConfig cfg) = []"
  shows "ncName cfg' = ncName cfg \<and> mResponseTimeout cfg' = mResponseTimeout cfg \<and>
    mResponseDataTimeout cfg' = mResponseDataTimeout cfg \<and> kind_ok cfg' \<and>
    mWatchPeriod (mWatchdogConfig cfg') = mWatchPeriod (mWatchdogConfig cfg)"
  using assms
  by (auto simp: readNetworkKind_def readRtu_def readTcp_def fault_simps kind_ok_def
      dest: readRequiredString_nonempty split: if_splits)

lemma readWatchdog_keeps:
  assumes "readWatchdog lib source tmpval cfg = Inr cfg'"
  shows "ncName cfg' = ncName cfg \<and> mResponseTimeout cfg' = mResponseTimeout cfg \<and>
    mResponseDataTimeout cfg' = mResponseDataTimeout cfg \<and> (kind_ok cfg \<longrightarrow> kind_ok cfg')"
  using assms
  by (auto simp: readWatchdog_def fault_simps kind_ok_def split: if_splits option.splits
      network_type.splits)

lemma accepted_config:
  assumes "new_ModbusNetworkConfig lib source = Inr cfg"
  shows "ncName cfg \<noteq> [] \<and>
    0 \<le> mResponseTimeout cfg \<and> mResponseTimeout cfg \<le> 999 \<and>
    0 \<le> mResponseDataTimeout cfg \<and> mResponseDataTimeout cfg \<le> 999 \<and>
    kind_ok cfg"
proof -
  let ?d = default_network_config
  obtain name rt rdt tmpval c1 wr rr c2 where
    name: "readRequiredString lib source ''name'' = Inr name" and
    rt: "readTimeout lib source ''response_timeout'' (mResponseTimeout ?d) = Inr rt" and
    rdt: "readTimeout lib source ''response_data_timeout'' (mResponseDataTimeout ?d) = Inr rdt" and
    c1: "readNetworkDelays lib source
      (?d\<lparr>ncName := name, mResponseTimeout := rt, mResponseDataTimeout := rdt\<rparr>) = Inr (tmpval, c1)" and
    c2: "readNetworkKind lib source
      (c1\<lparr>ncMaxWriteRetryCount := wr, ncMaxReadRetryCount := rr\<rparr>) = Inr c2" and
    cfg: "readWatchdog lib source tmpval c2 = Inr cfg"
    using assms unfolding new_ModbusNetworkConfig_def Let_def by (auto simp: fault_simps)
  have "0 \<le> rt \<and> rt \<le> 999" "0 \<le> rdt \<and> rdt \<le> 999"
    using readTimeout_bounds [OF rt] readTimeout_bounds [OF rdt]
    by (simp_all add: default_network_config_def MAX_RESPONSE_TIMEOUT_def)
  moreover note readNetworkDelays_keeps [OF c1]
  moreover from this have "mDevicePath (mWatchdogConfig c1) = []"
    by (simp add: default_network_config_def default_watchdog_config_def)
  then have "ncName c2 = ncName c1 \<and> mResponseTimeout c2 = mResponseTimeout c1 \<and>
    mResponseDataTimeout c2 = mResponseDataTimeout c1 \<and> kind_ok c2"
    using readNetworkKind_keeps [OF c2] by simp
  ultimately show ?thesis
    using readWatchdog_keeps [OF cfg] readRequiredString_nonempty [OF name] by simp
qed

lemma accepted_timeouts:
  "new_ModbusNetworkConfig lib source = Inr cfg \<Longrightarrow>
   (0 \<le> mResponseTimeout cfg \<and> mResponseTimeout cfg \<le> 999) \<and>
   (0 \<le> mResponseDataTimeout cfg \<and> mResponseDataTimeout cfg \<le> 999)"
  by (drule accepted_config) simp

text \<open>
  C19: a network section that is accepted has a name, both response timeouts between 0 and 999 ms,
  and is either a serial line with a device, whose path the watchdog monitors, or a TCP network
  with an address, for which the watchdog monitors no device.
\<close>

theorem network_config_valid:
  assumes "new_ModbusNetworkConfig lib source = Inr cfg"
  shows "ncName cfg \<noteq> [] \<and>
    0 \<le> mResponseTimeout cfg \<and> mResponseTimeout cfg \<le> 999 \<and>
    0 \<le> mResponseDataTimeout cfg \<and> mResponseDataTimeout cfg \<le> 999 \<and>
    (case ncType cfg of
       RTU \<Rightarrow> mDevice cfg \<noteq> [] \<and> mDevicePath (mWatchdogConfig cfg) = mDevice cfg
     | TCPIP \<Rightarrow> mAddress cfg \<noteq> [] \<and> mDevicePath (mWatchdogConfig cfg) = [])"
  using accepted_config [OF assms] unfolding kind_ok_def .

theorem network_config_valid_witness:
  "\<exists>cfg. new_ModbusNetworkConfig doc_lib rtu_doc = Inr cfg \<and> ncName cfg \<noteq> [] \<and>
     0 \<le> mResponseTimeout cfg \<and> mResponseTimeout cfg \<le> 999"
proof -
  have "case new_ModbusNetworkConfig doc_lib rtu_doc of Inr _ \<Rightarrow> True | Inl _ \<Rightarrow> False"
    by code_simp
  then obtain cfg where "new_ModbusNetworkConfig doc_lib rtu_doc = Inr cfg"
    by (auto split: sum.splits)
  with network_config_valid [OF this] show ?thesis by simp
qed

lemma readDelay_undefined:
  "\<not> IsDefined lib (child lib source name) \<Longrightarrow> readDelay lib source name s = Inr s"
  by (simp add: readDelay_def readOptionalValue_def)

lemma readDelay_defined:
  "IsDefined lib (child lib source name) \<Longrightarrow> IsScalar lib (child lib source name) \<Longrightarrow>
   as_msec lib (child lib source name) = Inr t \<Longrightarrow>
   readDelay lib source name s = Inr (Some t, Some t)"
  by (simp add: readDelay_def readOptionalValue_def)

text \<open>
  C20: a watchdog section without \<open>watch_period\<close> does not keep the default period. The period
  becomes \<open>delay_before_first_command\<close>, whose value the shared variable still holds.
\<close>

theorem watchdog_period_is_stale:
  assumes cfg: "new_ModbusNetworkConfig lib source = Inr cfg"
    and watchdog: "IsDefined lib (child lib source ''watchdog'')"
    and no_period: "\<not> IsDefined lib (child lib (child lib source ''watchdog'') ''watch_period'')"
    and delay: "IsDefined lib (child lib source ''delay_before_first_command'')"
      "IsScalar lib (child lib source ''delay_before_first_command'')"
      "as_msec lib (child lib source ''delay_before_first_command'') = Inr t"
  shows "mWatchPeriod (mWatchdogConfig cfg) = msec t \<and>
         \<not> mAutoWatchPeriod (mWatchdogConfig cfg)"
proof -
  obtain tmpval c0 c1 c2 where
    c1: "readNetworkDelays lib source c0 = Inr (tmpval, c1)" and
    cfg: "readWatchdog lib source tmpval c2 = Inr cfg"
    using cfg unfolding new_ModbusNetworkConfig_def Let_def by (auto simp: fault_simps)
  have "tmpval = Some t"
    using c1 readDelay_defined [OF delay] by (auto simp: readNetworkDelays_def fault_simps)
  then show ?thesis
    using cfg watchdog no_period by (auto simp: readWatchdog_def readDelay_undefined)
qed

theorem watchdog_period_is_stale_witness:
  "\<exists>cfg. new_ModbusNetworkConfig doc_lib rtu_doc = Inr cfg \<and>
     mWatchPeriod (mWatchdogConfig cfg) = msec 15 \<and> \<not> mAutoWatchPeriod (mWatchdogConfig cfg)"
proof -
  have "case new_ModbusNetworkConfig doc_lib rtu_doc of Inr _ \<Rightarrow> True | Inl _ \<Rightarrow> False"
    by code_simp
  then obtain cfg where cfg: "new_ModbusNetworkConfig doc_lib rtu_doc = Inr cfg"
    by (auto split: sum.splits)
  have "IsDefined doc_lib (child doc_lib rtu_doc ''watchdog'')"
    "\<not> IsDefined doc_lib (child doc_lib (child doc_lib rtu_doc ''watchdog'') ''watch_period'')"
    "IsDefined doc_lib (child doc_lib rtu_doc ''delay_before_first_command'')"
    "IsScalar doc_lib (child doc_lib rtu_doc ''delay_before_first_command'')"
    "as_msec doc_lib (child doc_lib rtu_doc ''delay_before_first_command'') = Inr 15"
    by code_simp+
  note stale = watchdog_period_is_stale [OF cfg this]
  show ?thesis
    by (rule exI [of _ cfg]) (rule conjI [OF cfg stale])
qed

section \<open>Durations\<close>

lemma c_str_digits: "list_all (is_digit 10) ds \<Longrightarrow> c_str (ds @ r) = ds @ c_str r"
  by (induction ds) (auto simp: c_str_def is_digit_code)

lemma unit_heads:
  "\<not> is_digit 10 (CHR ''m'')" "\<not> is_digit 10 (CHR ''s'')" "\<not> is_digit 10 (CHR ''-'')"
  "\<not> is_digit 10 (CHR '','')"
  by (simp_all add: is_digit_code)

lemma split_digits:
  assumes "rest = [] \<or> \<not> is_digit 10 (hd rest)"
  shows "takeWhile (is_digit 10) (nat_string n @ rest) = nat_string n"
    "dropWhile (is_digit 10) (nat_string n @ rest) = rest"
proof -
  show t: "takeWhile (is_digit 10) (nat_string n @ rest) = nat_string n"
    using takeWhile_digits [OF nat_string_digits assms] .
  show "dropWhile (is_digit 10) (nat_string n @ rest) = rest"
    using takeWhile_dropWhile_id [of "is_digit 10" "nat_string n @ rest"] t by simp
qed

lemma digits_alone [simp]:
  "takeWhile (is_digit 10) (nat_string n) = nat_string n"
  "dropWhile (is_digit 10) (nat_string n) = []"
  using nat_string_digits [of n] by (auto simp: list_all_iff takeWhile_eq_all_conv)

lemma stoi_nat_string:
  "stoi 10 (nat_string n) =
     (if int n \<le> INT_MAX then Inr (int n, length (nat_string n)) else Inl OutOfRange)"
  using strtol_nat_string [of "[]" n]
  by (simp add: stoi_def in_int_def INT_MIN_def)

lemma decode_msec_unit:
  assumes u: "u \<in> {''ms'', ''s'', ''min''}"
  shows "decode_msec mark (nat_string n @ u) =
    (if int n \<le> INT_MAX
     then (if u = ''s'' then int_mul (int n) 1000
           else if u = ''min'' then int_mul (int n) 60000 else Inr (int n))
     else Inl OutOfRange)"
proof -
  have h: "u = [] \<or> \<not> is_digit 10 (hd u)" and c: "c_str u = u"
    using u by (auto simp: unit_heads c_str_def)
  have "c_str (nat_string n @ u) = nat_string n @ u"
    using c_str_digits [OF nat_string_digits] c by simp
  then show ?thesis
    using u split_digits [OF h, of n]
    by (elim insertE) (simp_all add: decode_msec_def Let_def stoi_nat_string)
qed

text \<open>
  C21: a duration is read as its number of milliseconds for every unit as long as the product fits
  an \<open>int\<close>; a number that does not fit is refused, and a product that does not fit is a signed
  overflow.
\<close>

theorem duration_read_back:
  "decode_msec mark (nat_string n @ ''ms'') =
     (if int n \<le> INT_MAX then Inr (int n) else Inl OutOfRange) \<and>
   decode_msec mark (nat_string n @ ''s'') =
     (if int n * 1000 \<le> INT_MAX then Inr (int n * 1000)
      else if int n \<le> INT_MAX then Inl Undefined else Inl OutOfRange) \<and>
   decode_msec mark (nat_string n @ ''min'') =
     (if int n * 60000 \<le> INT_MAX then Inr (int n * 60000)
      else if int n \<le> INT_MAX then Inl Undefined else Inl OutOfRange)"
  by (auto simp: decode_msec_unit int_mul_def in_int_def INT_MAX_def INT_MIN_def)

section \<open>Register numbers and lists\<close>

definition print_range :: "nat \<times> nat \<Rightarrow> string" where
  "print_range r =
     (if fst r = snd r then nat_string (fst r)
      else nat_string (fst r) @ CHR ''-'' # nat_string (snd r))"

lemma nat_string_chars: "c \<in> set (nat_string n) \<Longrightarrow> is_digit 10 c"
  using nat_string_digits [of n] by (auto simp: list_all_iff)

lemma dropWhile_isspace_nat_string [simp]:
  "dropWhile isspace (nat_string n @ r) = nat_string n @ r"
  using nat_string_hd_digit [of n] by (cases "nat_string n") (auto simp: digit_not_special)

lemma toNumber_nat_string: "int n \<le> INT_MAX \<Longrightarrow> toNumber mark (nat_string n) = Inr (int n)"
  by (simp add: toNumber_def stoi_nat_string)

lemma match_range_single: "match_range (nat_string n) = None"
  using dropWhile_isspace_nat_string [of n "[]"]
  by (simp add: match_range_def Let_def)

lemma match_range_pair:
  "match_range (nat_string a @ CHR ''-'' # nat_string b) = Some (nat_string a, nat_string b)"
  using split_digits [of "CHR ''-'' # nat_string b" a] unit_heads
  by (simp add: match_range_def Let_def)

lemma decode_segment_print:
  assumes "int a \<le> INT_MAX" "int b \<le> INT_MAX"
  shows "decode_segment mark (print_range (a, b)) = Inr (int a, int b)"
proof (cases "a = b")
  case True
  have "c_str (nat_string b) = nat_string b"
    using c_str_digits [OF nat_string_digits [of b], of "[]"] by (simp add: c_str_def)
  with True assms show ?thesis
    by (simp add: decode_segment_def print_range_def match_range_single toNumber_nat_string)
next
  case False
  have "c_str (nat_string a @ CHR ''-'' # nat_string b) = nat_string a @ CHR ''-'' # nat_string b"
    using c_str_digits [OF nat_string_digits, of a] c_str_digits [OF nat_string_digits, of b "[]"]
    by (simp add: c_str_def)
  with False assms show ?thesis
    by (simp add: decode_segment_def print_range_def match_range_pair toNumber_nat_string)
qed

lemma decode_segments_print:
  "\<forall>r \<in> set rs. int (fst r) \<le> INT_MAX \<and> int (snd r) \<le> INT_MAX \<Longrightarrow>
   decode_segments mark (map print_range rs) = Inr (map (\<lambda>r. (int (fst r), int (snd r))) rs)"
  by (induction rs) (auto simp: decode_segment_print)

text \<open>
  C22: a list of register ranges, printed with commas and dashes, is read back as the same list
  of ranges, in the same order.
\<close>

theorem ranges_read_back:
  assumes "\<forall>r \<in> set rs. int (fst r) \<le> INT_MAX \<and> int (snd r) \<le> INT_MAX"
  shows "decode_ranges mark (join_with (CHR '','') (map print_range rs)) =
    Inr (map (\<lambda>r. (int (fst r), int (snd r))) rs)"
proof -
  have "CHR '','' \<notin> set (print_range r)" for r
    using unit_heads nat_string_chars by (auto simp: print_range_def)
  moreover have "print_range r \<noteq> []" for r
    by (simp add: print_range_def)
  ultimately have "getline_all (CHR '','') (join_with (CHR '','') (map print_range rs)) =
      map print_range rs"
    by (intro getline_all_join) (auto simp: last_map)
  then show ?thesis
    using decode_segments_print [OF assms] by (simp add: decode_ranges_def)
qed

theorem ranges_read_back_witness:
  "decode_ranges None (join_with (CHR '','') (map print_range [(1, 1), (4, 12), (30, 30)])) =
     Inr [(1, 1), (4, 12), (30, 30)]"
  using ranges_read_back [of "[(1, 1), (4, 12), (30, 30)]" None] by (simp add: INT_MAX_def)

lemma hd_nat_string: "0 < n \<Longrightarrow> hd (nat_string n) \<noteq> CHR ''0''"
proof (induction n rule: nat_string.induct)
  case (1 n)
  show ?case
  proof (cases "n < 10")
    case True
    then have "(of_char (digit_char n) :: nat) \<noteq> of_char (CHR ''0'')"
      using "1.prems" by (simp add: of_char_digit_char)
    with True show ?thesis by (auto simp: nat_string.simps [of n])
  next
    case False
    then show ?thesis using 1 by (simp add: nat_string.simps [of n])
  qed
qed

text \<open>The number behind digits of a base, for a string that has nothing else.\<close>

lemma strtol_base0:
  assumes "ds \<noteq> []" "list_all (is_digit b) ds" "split_base 0 (p @ ds) = (b, length p, ds)"
    and "p @ ds \<noteq> []" "is_digit 10 (hd (p @ ds))"
  shows "strtol 0 (p @ ds) = Some (int (digits_value b ds), length (p @ ds))"
proof -
  obtain c cs where c: "p @ ds = c # cs" using assms(4) by (cases "p @ ds") auto
  then have d: "is_digit 10 c" using assms(5) by simp
  have t: "takeWhile (is_digit b) ds = ds"
    using assms(2) by (auto simp: list_all_iff takeWhile_eq_all_conv)
  have "Suc (length cs) = length p + length ds"
    using c by (metis length_Cons length_append)
  then show ?thesis
    using c d assms(1,3) digit_not_special [OF d]
    by (simp add: strtol_def split_sign_def t)
qed

text \<open>
  Register numbers: a decimal number counts from 1 and is read as its predecessor, a number
  with the prefix \<open>0x\<close> counts from 0 and is read as it is, and a number with a leading zero is
  read as an octal number that counts from 1.
\<close>

theorem register_numbers:
  "(0 < n \<and> int n \<le> INT_MAX \<longrightarrow> registerNumberFromString (nat_string n) = Inr (int n - 1)) \<and>
   (hs \<noteq> [] \<and> list_all (is_digit 16) hs \<and> int (digits_value 16 hs) \<le> INT_MAX \<longrightarrow>
      registerNumberFromString (''0x'' @ hs) = Inr (int (digits_value 16 hs))) \<and>
   (os \<noteq> [] \<and> list_all (is_digit 8) os \<and> 0 < digits_value 8 os \<and>
      int (digits_value 8 os) \<le> INT_MAX \<longrightarrow>
      registerNumberFromString (CHR ''0'' # os) = Inr (int (digits_value 8 os) - 1))"
proof (intro conjI impI; elim conjE)
  assume n: "0 < n" "int n \<le> INT_MAX"
  have "split_base 0 (nat_string n) = (10, 0, nat_string n)"
    using hd_nat_string [OF n(1)] by (cases "nat_string n") (auto simp: split_base_def has_hex_prefix_def split: list.splits)
  then have s: "strtol 0 (nat_string n) = Some (int n, length (nat_string n))"
    using strtol_base0 [of "nat_string n" 10 "[]"] nat_string_hd_digit [of n] nat_string_digits [of n]
    by simp
  have "\<not> (1 < length (nat_string n) \<and> (nat_string n ! 1 = CHR ''x'' \<or> nat_string n ! 1 = CHR ''X''))"
    using nat_string_chars [OF nth_mem, of 1 n] by (auto simp: is_digit_code)
  with s n show "registerNumberFromString (nat_string n) = Inr (int n - 1)"
    by (simp add: registerNumberFromString_def stoi_def in_int_def INT_MIN_def Let_def)
next
  assume h: "hs \<noteq> []" "list_all (is_digit 16) hs" "int (digits_value 16 hs) \<le> INT_MAX"
  have "split_base 0 (''0x'' @ hs) = (16, 2, hs)"
    using h(1,2) by (cases hs) (simp_all add: split_base_def has_hex_prefix_def)
  then have "strtol 0 (''0x'' @ hs) = Some (int (digits_value 16 hs), length (''0x'' @ hs))"
    using strtol_base0 [of hs 16 "''0x''"] h by (simp add: is_digit_code)
  with h show "registerNumberFromString (''0x'' @ hs) = Inr (int (digits_value 16 hs))"
    by (simp add: registerNumberFromString_def stoi_def in_int_def INT_MIN_def)
next
  assume o: "os \<noteq> []" "list_all (is_digit 8) os" "0 < digits_value 8 os"
    "int (digits_value 8 os) \<le> INT_MAX"
  obtain c cs where c: "os = c # cs" using o(1) by (cases os) auto
  have nx: "c \<noteq> CHR ''x'' \<and> c \<noteq> CHR ''X''"
    using o(2) c by (auto simp: is_digit_def digit_val_def)
  have "split_base 0 (CHR ''0'' # os) = (8, 0, CHR ''0'' # os)"
    using nx c by (auto simp: split_base_def has_hex_prefix_def split: list.splits)
  moreover have "digits_value 8 (CHR ''0'' # os) = digits_value 8 os"
    by (simp add: digits_value_def digit_val_def)
  ultimately have "strtol 0 (CHR ''0'' # os) =
      Some (int (digits_value 8 os), length (CHR ''0'' # os))"
    using strtol_base0 [of "CHR ''0'' # os" 8 "[]"] o(2)
    by (simp add: is_digit_code is_digit_def digit_val_def)
  with o c nx show "registerNumberFromString (CHR ''0'' # os) = Inr (int (digits_value 8 os) - 1)"
    by (simp add: registerNumberFromString_def stoi_def in_int_def INT_MIN_def Let_def)
qed

theorem register_numbers_witness:
  "registerNumberFromString ''100'' = Inr 99 \<and> registerNumberFromString ''0x10'' = Inr 16 \<and>
   registerNumberFromString ''010'' = Inr 7"
proof -
  have "nat_string 100 = ''100''" "digits_value 16 ''10'' = 16" "digits_value 8 ''10'' = 8"
    "list_all (is_digit 16) ''10''" "list_all (is_digit 8) ''10''"
    by code_simp+
  then show ?thesis
    using register_numbers [of 100 "''10''" "''10''"] by (simp add: INT_MAX_def)
qed

end
