(* ===== verification/Modbus_Connection.thy ===== *)
theory Modbus_Connection
  imports Modbus_Context Config_Properties
begin

text \<open>
  The other half of \<open>modbus_context.cpp\<close>: creating the libmodbus context from the configuration,
  connecting and disconnecting. libmodbus is a parameter \<open>lib\<close>: the return code of a call, which
  may depend on how many calls were made before. The calls are recorded in the state.
\<close>

section \<open>State and operations\<close>

datatype modbus_call =
    ModbusNewTcp string int
  | ModbusNewRtu string int char int int
  | ModbusSetErrorRecovery bool
  | ModbusRtuSetSerialMode rtu_serial_mode
  | ModbusRtuSetRts rtu_rts_mode
  | ModbusRtuSetRtsDelay int
  | ModbusSetResponseTimeout int int
  | ModbusSetByteTimeout int int
  | ModbusClose
  | ModbusConnect

text \<open>A constructor returns 0 for the null pointer. \<open>ModbusSetErrorRecovery\<close> tells whether the link is recovered too.\<close>

type_synonym modbus_lib = "nat \<Rightarrow> modbus_call \<Rightarrow> int"

record modbus_ctx =
  mIsConnected :: bool
  mNetworkType :: network_type
  mNetworkAddress :: string
  mCtx :: bool
  ctxCalls :: "modbus_call list"

definition new_ModbusContext :: modbus_ctx where
  "new_ModbusContext =
     \<lparr>mIsConnected = False, mNetworkType = RTU, mNetworkAddress = [], mCtx = False, ctxCalls = []\<rparr>"

definition modbus_do :: "modbus_lib \<Rightarrow> modbus_call \<Rightarrow> modbus_ctx \<Rightarrow> int \<times> modbus_ctx" where
  "modbus_do lib c ctx =
     (lib (length (ctxCalls ctx)) c, ctx\<lparr>ctxCalls := ctxCalls ctx @ [c]\<rparr>)"

text \<open>A call whose non-zero return code is a \<open>ModbusContextException\<close>, if it is made at all.\<close>

definition modbus_try ::
  "modbus_lib \<Rightarrow> bool \<Rightarrow> modbus_call \<Rightarrow> modbus_ctx \<Rightarrow> context_exn + modbus_ctx" where
  "modbus_try lib made c ctx =
     (if made then
        (let (rc, ctx) = modbus_do lib c ctx in
         if rc \<noteq> 0 then Inl OtherContextException else Inr ctx)
      else Inr ctx)"

definition init_tcp :: "modbus_lib \<Rightarrow> network_config \<Rightarrow> modbus_ctx \<Rightarrow> modbus_ctx" where
  "init_tcp lib config ctx =
     (let (rc, ctx) = modbus_do lib (ModbusNewTcp (mAddress config) (ncPort config))
            (ctx\<lparr>mNetworkAddress := mAddress config\<rparr>);
          (_, ctx) = modbus_do lib (ModbusSetErrorRecovery True) (ctx\<lparr>mCtx := (rc \<noteq> 0)\<rparr>)
      in ctx)"

definition create_rtu :: "modbus_lib \<Rightarrow> network_config \<Rightarrow> modbus_ctx \<Rightarrow> modbus_ctx" where
  "create_rtu lib config ctx =
     (let (rc, ctx) = modbus_do lib (ModbusNewRtu (mDevice config) (mBaud config) (mParity config)
            (mDataBit config) (mStopBit config)) (ctx\<lparr>mNetworkAddress := mDevice config\<rparr>);
          (_, ctx) = modbus_do lib (ModbusSetErrorRecovery False) (ctx\<lparr>mCtx := (rc \<noteq> 0)\<rparr>)
      in ctx)"

definition init_rtu :: "modbus_lib \<Rightarrow> network_config \<Rightarrow> modbus_ctx \<Rightarrow> context_exn + modbus_ctx" where
  "init_rtu lib config ctx =
     bindE (modbus_try lib (mRtuSerialMode config \<noteq> UNSPECIFIED)
              (ModbusRtuSetSerialMode (mRtuSerialMode config)) (create_rtu lib config ctx)) (\<lambda>ctx.
     bindE (modbus_try lib (mRtsMode config \<noteq> RTS_NONE)
              (ModbusRtuSetRts (mRtsMode config)) ctx) (\<lambda>ctx.
       modbus_try lib (mRtsDelayUs config > 0)
         (ModbusRtuSetRtsDelay (mRtsDelayUs config)) ctx))"

text \<open>\<open>duration_cast\<close> of milliseconds to microseconds, stored in a \<open>uint32_t\<close>\<close>

definition usec_of :: "int \<Rightarrow> int" where
  "usec_of ms = uint (of_int (ms * 1000) :: 32 word)"

definition context_init ::
  "modbus_lib \<Rightarrow> network_config \<Rightarrow> modbus_ctx \<Rightarrow> context_exn + modbus_ctx" where
  "context_init lib config ctx =
     (let ctx = ctx\<lparr>mNetworkType := ncType config\<rparr> in
      bindE (if ncType config = TCPIP then Inr (init_tcp lib config ctx)
             else init_rtu lib config ctx) (\<lambda>ctx.
      bindE (modbus_try lib True
               (ModbusSetResponseTimeout 0 (usec_of (mResponseTimeout config))) ctx) (\<lambda>ctx.
      bindE (modbus_try lib (mResponseDataTimeout config > 0)
               (ModbusSetByteTimeout 0 (usec_of (mResponseDataTimeout config))) ctx) (\<lambda>ctx.
        if \<not> mCtx ctx then Inl OtherContextException else Inr ctx))))"

definition context_connect :: "modbus_lib \<Rightarrow> modbus_ctx \<Rightarrow> modbus_ctx" where
  "context_connect lib ctx =
     (let ctx = (if mCtx ctx then snd (modbus_do lib ModbusClose ctx) else ctx);
          (rc, ctx) = modbus_do lib ModbusConnect ctx
      in ctx\<lparr>mIsConnected := (rc \<noteq> -1)\<rparr>)"

definition context_disconnect :: "modbus_lib \<Rightarrow> modbus_ctx \<Rightarrow> modbus_ctx" where
  "context_disconnect lib ctx = (snd (modbus_do lib ModbusClose ctx))\<lparr>mIsConnected := False\<rparr>"

section \<open>What libmodbus is asked\<close>

lemma modbus_try_calls:
  assumes "modbus_try lib made c ctx = Inr ctx'"
  shows "ctxCalls ctx' = ctxCalls ctx @ (if made then [c] else []) \<and>
    mIsConnected ctx' = mIsConnected ctx"
  using assms by (auto simp: modbus_try_def modbus_do_def split: if_splits)

text \<open>The calls of an initialisation, in order.\<close>

definition init_calls :: "network_config \<Rightarrow> modbus_call list" where
  "init_calls config =
     (if ncType config = TCPIP
      then [ModbusNewTcp (mAddress config) (ncPort config), ModbusSetErrorRecovery True]
      else [ModbusNewRtu (mDevice config) (mBaud config) (mParity config) (mDataBit config)
              (mStopBit config), ModbusSetErrorRecovery False] @
        (if mRtuSerialMode config \<noteq> UNSPECIFIED
         then [ModbusRtuSetSerialMode (mRtuSerialMode config)] else []) @
        (if mRtsMode config \<noteq> RTS_NONE then [ModbusRtuSetRts (mRtsMode config)] else []) @
        (if mRtsDelayUs config > 0 then [ModbusRtuSetRtsDelay (mRtsDelayUs config)] else [])) @
     [ModbusSetResponseTimeout 0 (usec_of (mResponseTimeout config))] @
     (if mResponseDataTimeout config > 0
      then [ModbusSetByteTimeout 0 (usec_of (mResponseDataTimeout config))] else [])"

lemma init_rtu_calls:
  assumes "init_rtu lib config ctx = Inr ctx'"
  shows "ctxCalls ctx' = ctxCalls ctx @
      [ModbusNewRtu (mDevice config) (mBaud config) (mParity config) (mDataBit config)
         (mStopBit config), ModbusSetErrorRecovery False] @
      (if mRtuSerialMode config \<noteq> UNSPECIFIED
       then [ModbusRtuSetSerialMode (mRtuSerialMode config)] else []) @
      (if mRtsMode config \<noteq> RTS_NONE then [ModbusRtuSetRts (mRtsMode config)] else []) @
      (if mRtsDelayUs config > 0 then [ModbusRtuSetRtsDelay (mRtsDelayUs config)] else []) \<and>
    mIsConnected ctx' = mIsConnected ctx"
proof -
  let ?c0 = "create_rtu lib config ctx"
  obtain c1 c2 where
    c1: "modbus_try lib (mRtuSerialMode config \<noteq> UNSPECIFIED)
      (ModbusRtuSetSerialMode (mRtuSerialMode config)) ?c0 = Inr c1" and
    c2: "modbus_try lib (mRtsMode config \<noteq> RTS_NONE) (ModbusRtuSetRts (mRtsMode config)) c1 = Inr c2"
      "modbus_try lib (mRtsDelayUs config > 0) (ModbusRtuSetRtsDelay (mRtsDelayUs config)) c2 = Inr ctx'"
    using assms unfolding init_rtu_def bindE_Inr_iff by blast
  have "ctxCalls ?c0 = ctxCalls ctx @
      [ModbusNewRtu (mDevice config) (mBaud config) (mParity config) (mDataBit config)
         (mStopBit config), ModbusSetErrorRecovery False]" "mIsConnected ?c0 = mIsConnected ctx"
    by (simp_all add: create_rtu_def modbus_do_def)
  then show ?thesis
    using modbus_try_calls [OF c1] modbus_try_calls [OF c2(1)] modbus_try_calls [OF c2(2)] by simp
qed

lemma init_tcp_calls:
  "ctxCalls (init_tcp lib config ctx) = ctxCalls ctx @
     [ModbusNewTcp (mAddress config) (ncPort config), ModbusSetErrorRecovery True] \<and>
   mIsConnected (init_tcp lib config ctx) = mIsConnected ctx"
  by (simp add: init_tcp_def modbus_do_def)

lemma context_init_calls:
  assumes "context_init lib config ctx = Inr ctx'"
  shows "ctxCalls ctx' = ctxCalls ctx @ init_calls config \<and> mIsConnected ctx' = mIsConnected ctx"
proof -
  let ?ctx = "ctx\<lparr>mNetworkType := ncType config\<rparr>"
  let ?data = "\<lambda>ctx. if \<not> mCtx ctx then Inl OtherContextException else Inr ctx"
  obtain c0 c1 c2 where
    c0: "(if ncType config = TCPIP then Inr (init_tcp lib config ?ctx)
          else init_rtu lib config ?ctx) = Inr c0" and
    c1: "modbus_try lib True
      (ModbusSetResponseTimeout 0 (usec_of (mResponseTimeout config))) c0 = Inr c1" and
    c2: "modbus_try lib (mResponseDataTimeout config > 0)
      (ModbusSetByteTimeout 0 (usec_of (mResponseDataTimeout config))) c1 = Inr c2" and
    "?data c2 = Inr ctx'"
    using assms unfolding context_init_def Let_def bindE_Inr_iff by blast
  then have e: "ctxCalls ctx' = ctxCalls c0 @
      [ModbusSetResponseTimeout 0 (usec_of (mResponseTimeout config))] @
      (if mResponseDataTimeout config > 0
       then [ModbusSetByteTimeout 0 (usec_of (mResponseDataTimeout config))] else [])"
    "mIsConnected ctx' = mIsConnected c0"
    using modbus_try_calls [OF c1] modbus_try_calls [OF c2] by (simp_all split: if_splits)
  show ?thesis
  proof (cases "ncType config = TCPIP")
    case True
    then have "c0 = init_tcp lib config ?ctx" using c0 by simp
    with True show ?thesis
      unfolding e init_calls_def by (simp add: init_tcp_calls)
  next
    case False
    then have "init_rtu lib config ?ctx = Inr c0" using c0 by simp
    from init_rtu_calls [OF this] False show ?thesis
      unfolding e init_calls_def by simp
  qed
qed

lemma usec_of_bounds: "0 \<le> ms \<Longrightarrow> ms \<le> 999 \<Longrightarrow> usec_of ms = ms * 1000"
  by (simp only: usec_of_def uint_word_of_int_eq) (simp add: take_bit_int_eq_self)

text \<open>
  C30: a network whose configuration was accepted and whose context was initialised has passed to
  libmodbus timeouts below one second, as the library demands, and among them the configured
  response timeout unchanged. A configured response timeout of 0 is passed on as 0 seconds and 0
  microseconds.
\<close>

theorem timeouts_fit_libmodbus:
  assumes "new_ModbusNetworkConfig yaml source = Inr cfg"
    and "context_init lib cfg new_ModbusContext = Inr ctx"
  shows "ModbusSetResponseTimeout 0 (mResponseTimeout cfg * 1000) \<in> set (ctxCalls ctx) \<and>
    (\<forall>s us. ModbusSetResponseTimeout s us \<in> set (ctxCalls ctx) \<or>
            ModbusSetByteTimeout s us \<in> set (ctxCalls ctx) \<longrightarrow> s = 0 \<and> 0 \<le> us \<and> us < 1000000)"
proof -
  have "ctxCalls ctx = init_calls cfg"
    using context_init_calls [OF assms(2)] by (simp add: new_ModbusContext_def)
  then show ?thesis
    using usec_of_bounds [of "mResponseTimeout cfg"] usec_of_bounds [of "mResponseDataTimeout cfg"]
      accepted_timeouts [OF assms(1)]
    by (auto simp: init_calls_def split: if_splits)
qed

theorem timeouts_fit_libmodbus_witness:
  "\<exists>cfg ctx. new_ModbusNetworkConfig doc_lib rtu_doc = Inr cfg \<and>
     context_init (\<lambda>n c. if n = 0 then 1 else 0) cfg new_ModbusContext = Inr ctx \<and>
     ModbusSetResponseTimeout 0 (mResponseTimeout cfg * 1000) \<in> set (ctxCalls ctx)"
proof -
  let ?lib = "\<lambda>n c. if n = 0 then 1 else 0"
  have "case new_ModbusNetworkConfig doc_lib rtu_doc of
      Inr cfg \<Rightarrow> (case context_init ?lib cfg new_ModbusContext of Inr _ \<Rightarrow> True | Inl _ \<Rightarrow> False)
    | Inl _ \<Rightarrow> False"
    by code_simp
  then obtain cfg ctx where c: "new_ModbusNetworkConfig doc_lib rtu_doc = Inr cfg"
    "context_init ?lib cfg new_ModbusContext = Inr ctx"
    by (auto split: sum.splits)
  note t = timeouts_fit_libmodbus [OF c, THEN conjunct1]
  show ?thesis by (rule exI [of _ cfg], rule exI [of _ ctx]) (rule conjI [OF c(1) conjI [OF c(2) t]])
qed

end
