(* ===== verification/Modbus_Thread.thy ===== *)
theory Modbus_Thread
  imports Executor_Reachable Modbus_Scheduler Modbus_Watchdog Modbus_Connection
begin

text \<open>
  \<open>modbus_thread.hpp\<close> and \<open>.cpp\<close>: the thread of a Modbus network. It owns the scheduler, the
  executor, the watchdog and the connection, handles the messages of the main thread and repeats
  one iteration until it is told to stop.

  The environment is a parameter: the clock and the bus of the executor, the return codes of
  libmodbus, the existence of files, and the messages a wait on the queue returns: the list of
  items dequeued until the queue is found empty, \<open>[]\<close> when the wait ran into its timeout.
  \<open>std::shared_ptr\<close> objects are allocated at pointers that were never used before.
\<close>

section \<open>State\<close>

datatype modbus_item =
    NetworkConfigItem network_config
  | SlaveConfigItem slave_config
  | MessageItem queue_item

record thread_env =
  thEnv :: env
  thLib :: modbus_lib
  fileExists :: "nat \<Rightarrow> string \<Rightarrow> bool"
  waitDequeue :: "nat \<Rightarrow> duration \<Rightarrow> modbus_item list"

record modbus_thread =
  mNetworkName :: string
  thDelayBeforeCommand :: "int option"
  thDelayBeforeFirstCommand :: "int option"
  thMaxReadRetryCount :: u16
  thMaxWriteRetryCount :: u16
  mSlaves :: "(int, slave_config) omap"
  mShouldRun :: bool
  mMqttConnected :: bool
  mModbus :: "modbus_ctx option"
  mScheduler :: register_map
  mExecutor :: executor
  mWatchdog :: watchdog
  idleWaitDuration :: duration
  nextPollTimePoint :: time
  nextPtr :: ptr

text \<open>
  The sum of two 64-bit tick counts. \<open>duration::max()\<close> is the wait of a scheduler with nothing
  to poll, and the sums it takes part in leave the range.
\<close>

definition wrap64 :: "int \<Rightarrow> int" where
  "wrap64 v = (v + 2 ^ 63) mod 2 ^ 64 - 2 ^ 63"

definition thNow :: "thread_env \<Rightarrow> modbus_thread \<Rightarrow> time \<times> modbus_thread" where
  "thNow env th =
     (let (t, x) = now (thEnv env) (mExecutor th) in (t, th\<lparr>mExecutor := x\<rparr>))"

text \<open>
  The constructor, and the locals of \<open>run\<close>, which start with the clock reading; the retry counts
  are set by \<open>configure\<close>.
\<close>

definition new_ModbusThread :: "thread_env \<Rightarrow> string \<Rightarrow> world \<Rightarrow> modbus_thread" where
  "new_ModbusThread env pNetworkName w =
     (let (t, x) = now (thEnv env) (new_executor (thEnv env) w) in
      \<lparr>mNetworkName = pNetworkName, thDelayBeforeCommand = None,
       thDelayBeforeFirstCommand = None, thMaxReadRetryCount = 0, thMaxWriteRetryCount = 0,
       mSlaves = [], mShouldRun = True, mMqttConnected = False, mModbus = None,
       mScheduler = [], mExecutor = x, mWatchdog = new_watchdog,
       idleWaitDuration = duration_max, nextPollTimePoint = t, nextPtr = 0\<rparr>)"

definition isConnected :: "modbus_thread \<Rightarrow> bool" where
  "isConnected th = (case mModbus th of None \<Rightarrow> False | Some ctx \<Rightarrow> mIsConnected ctx)"

definition thread_sendMessage :: "queue_item \<Rightarrow> modbus_thread \<Rightarrow> modbus_thread" where
  "thread_sendMessage item th = th\<lparr>mExecutor := sendMessage item (mExecutor th)\<rparr>"

definition networkState :: "bool \<Rightarrow> modbus_thread \<Rightarrow> modbus_thread" where
  "networkState up th = thread_sendMessage (ModbusNetworkState (mNetworkName th) up) th"

section \<open>Messages\<close>

definition setCommandDelays ::
  "int option \<Rightarrow> int option \<Rightarrow> 'a register_command_scheme \<Rightarrow> 'a register_command_scheme" where
  "setCommandDelays everyTime onChange cmd =
     (let cmd = (case everyTime of None \<Rightarrow> cmd | Some d \<Rightarrow> cmd\<lparr>mDelayBeforeCommand := msec d\<rparr>)
      in case onChange of None \<Rightarrow> cmd | Some d \<Rightarrow> cmd\<lparr>mDelayBeforeFirstCommand := msec d\<rparr>)"

definition applySlaveConfig ::
  "modbus_thread \<Rightarrow> int \<Rightarrow> 'a register_command_scheme \<Rightarrow> 'a register_command_scheme" where
  "applySlaveConfig th pSlaveId pCmd =
     (let pCmd = setMaxRetryCounts (thMaxReadRetryCount th) (thMaxWriteRetryCount th) True
            (setCommandDelays (thDelayBeforeCommand th) (thDelayBeforeFirstCommand th) pCmd)
      in case map_of (mSlaves th) pSlaveId of
           None \<Rightarrow> pCmd
         | Some cfg \<Rightarrow>
             setMaxRetryCounts (scMaxReadRetryCount cfg) (scMaxWriteRetryCount cfg) False
               (setCommandDelays (scDelayBeforeCommand cfg) (scDelayBeforeFirstCommand cfg) pCmd))"

definition allocate :: "command \<Rightarrow> modbus_thread \<Rightarrow> ptr \<times> modbus_thread" where
  "allocate c th =
     (nextPtr th, th\<lparr>mExecutor := store (nextPtr th) c (mExecutor th), nextPtr := Suc (nextPtr th)\<rparr>)"

definition configure ::
  "thread_env \<Rightarrow> network_config \<Rightarrow> modbus_thread \<Rightarrow> fault + modbus_thread" where
  "configure env config th =
     (let th = th\<lparr>mNetworkName := ncName config\<rparr> in
      case context_init (thLib env) config new_ModbusContext of
        Inl _ \<Rightarrow> Inl ContextException
      | Inr ctx \<Rightarrow>
          (let (t, th) = thNow env (th\<lparr>mModbus := Some ctx\<rparr>)
           in Inr (th\<lparr>mWatchdog := watchdog_init (mWatchdogConfig config) t (mWatchdog th),
                thDelayBeforeCommand :=
                  (if ncDelayBeforeCommand config \<noteq> None then ncDelayBeforeCommand config
                   else thDelayBeforeCommand th),
                thDelayBeforeFirstCommand :=
                  (if ncDelayBeforeFirstCommand config \<noteq> None
                   then ncDelayBeforeFirstCommand config else thDelayBeforeFirstCommand th),
                thMaxReadRetryCount := ncMaxReadRetryCount config,
                thMaxWriteRetryCount := ncMaxWriteRetryCount config\<rparr>)))"

text \<open>A new \<open>RegisterPoll\<close>, whose constructor reads the clock twice.\<close>

definition allocatePoll ::
  "thread_env \<Rightarrow> 'a modbus_msg_scheme \<Rightarrow> int \<Rightarrow> publish_mode \<Rightarrow> int \<Rightarrow> modbus_thread
    \<Rightarrow> ptr \<times> modbus_thread" where
  "allocatePoll env m refreshMsec publishMode commandId th =
     (let (t1, th) = thNow env th;
          (t2, th) = thNow env th;
          reg = new_RegisterPoll (mSlaveId m) (mRegister m) (mRegisterType m) (mCount m)
                  refreshMsec publishMode commandId 0 0 t1 t2
      in allocate (Poll (applySlaveConfig th (mSlaveId m) reg)) th)"

definition newPoll :: "thread_env \<Rightarrow> msg_register_poll \<Rightarrow> modbus_thread \<Rightarrow> ptr \<times> modbus_thread" where
  "newPoll env m th = allocatePoll env m (mRefreshMsec m) (mPublishMode m) 0 th"

fun newPolls ::
  "thread_env \<Rightarrow> msg_register_poll list \<Rightarrow> register_map \<Rightarrow> modbus_thread
    \<Rightarrow> register_map \<times> modbus_thread" where
  "newPolls env [] registerMap th = (registerMap, th)"
| "newPolls env (m # ms) registerMap th =
     (if mRefreshMsec m \<noteq> INVALID_REFRESH then
        (let (p, th) = newPoll env m th
         in newPolls env ms (omap_modify [] (\<lambda>l. l @ [p]) (mSlaveId m) registerMap) th)
      else newPolls env ms registerMap th)"

definition updateWatchPeriod :: "modbus_thread \<Rightarrow> modbus_thread" where
  "updateWatchPeriod th =
     (if mAutoWatchPeriod (mConfig (mWatchdog th)) then
        (let watchPeriod = wrap64 (getMinPollTime (cmds (mExecutor th)) (mScheduler th) * 2)
         in if mWatchPeriod (mConfig (mWatchdog th)) < watchPeriod
            then th\<lparr>mWatchdog := setWatchPeriod watchPeriod (mWatchdog th)\<rparr> else th)
      else th)"

definition setPollSpecification ::
  "thread_env \<Rightarrow> poll_spec \<Rightarrow> modbus_thread \<Rightarrow> (fault + modbus_thread) option" where
  "setPollSpecification env spec th =
     (let (registerMap, th) = newPolls env (specRegisters spec) [] th;
          th = th\<lparr>mScheduler := registerMap\<rparr>
      in case setupInitialPoll (thEnv env) registerMap (mExecutor th) of
           None \<Rightarrow> None
         | Some (Inl f) \<Rightarrow> Some (Inl f)
         | Some (Inr x) \<Rightarrow> Some (Inr (updateWatchPeriod (th\<lparr>mExecutor := x\<rparr>))))"

definition processReadRequest ::
  "thread_env \<Rightarrow> modbus_msg \<Rightarrow> modbus_thread \<Rightarrow> fault + modbus_thread" where
  "processReadRequest env m th =
     (let (p, th) = allocatePoll env m 0 ONCE (mCommandId m) th
      in bindE (addReadCommand p (mExecutor th)) (\<lambda>x. Inr (th\<lparr>mExecutor := x\<rparr>)))"

definition newWrite :: "modbus_thread \<Rightarrow> msg_register_values \<Rightarrow> register_write" where
  "newWrite th m =
     (let cmd = applySlaveConfig th (mSlaveId m)
            ((new_RegisterWrite m 0 0)\<lparr>mReturnMessage := Some m\<rparr>)
      in case map_of (mSlaves th) (mSlaveId m) of
           None \<Rightarrow> cmd
         | Some cfg \<Rightarrow> if writeMode cmd = AUTO then cmd\<lparr>writeMode := scWriteMode cfg\<rparr> else cmd)"

definition processWrite :: "msg_register_values \<Rightarrow> modbus_thread \<Rightarrow> fault + modbus_thread" where
  "processWrite m th =
     (let (p, th) = allocate (Write (newWrite th m)) th
      in bindE (addWriteCommand p (mExecutor th)) (\<lambda>x. Inr (th\<lparr>mExecutor := x\<rparr>)))"

definition reconfigure_poll :: "slave_config \<Rightarrow> ptr \<Rightarrow> heap \<Rightarrow> heap" where
  "reconfigure_poll pConfig p h =
     (case h p of
        Poll reg \<Rightarrow>
          h(p := Poll (setMaxRetryCounts (scMaxReadRetryCount pConfig) (scMaxWriteRetryCount pConfig)
                   False (setCommandDelays (scDelayBeforeCommand pConfig)
                            (scDelayBeforeFirstCommand pConfig) reg)))
      | Write _ \<Rightarrow> h)"

definition updateFromSlaveConfig :: "slave_config \<Rightarrow> modbus_thread \<Rightarrow> modbus_thread" where
  "updateFromSlaveConfig pConfig th =
     (let th = th\<lparr>mSlaves := omap_put (scAddress pConfig) pConfig (mSlaves th)\<rparr>
      in case map_of (mScheduler th) (scAddress pConfig) of
           None \<Rightarrow> th
         | Some ps \<Rightarrow>
             th\<lparr>mExecutor := (mExecutor th)
                  \<lparr>cmds := fold (reconfigure_poll pConfig) ps (cmds (mExecutor th))\<rparr>\<rparr>)"

text \<open>One message of \<open>dispatchMessages\<close>, and all that were dequeued.\<close>

fun dispatchMessage ::
  "thread_env \<Rightarrow> modbus_item \<Rightarrow> modbus_thread \<Rightarrow> (fault + modbus_thread) option" where
  "dispatchMessage env (NetworkConfigItem c) th = Some (configure env c th)"
| "dispatchMessage env (MessageItem (RegisterPollSpecification spec)) th =
     setPollSpecification env spec th"
| "dispatchMessage env (MessageItem EndWork) th = Some (Inr (th\<lparr>mShouldRun := False\<rparr>))"
| "dispatchMessage env (MessageItem (RegisterValues m)) th = Some (processWrite m th)"
| "dispatchMessage env (MessageItem (RegisterReadRequest m)) th = Some (processReadRequest env m th)"
| "dispatchMessage env (MessageItem (MqttNetworkState up)) th =
     Some (Inr (th\<lparr>mMqttConnected := up\<rparr>))"
| "dispatchMessage env (SlaveConfigItem c) th = Some (Inr (updateFromSlaveConfig c th))"
| "dispatchMessage env (MessageItem _) th = Some (Inr th)"

fun dispatchMessages ::
  "thread_env \<Rightarrow> modbus_item list \<Rightarrow> modbus_thread \<Rightarrow> (fault + modbus_thread) option" where
  "dispatchMessages env [] th = Some (Inr th)"
| "dispatchMessages env (i # is) th =
     (case dispatchMessage env i th of
        None \<Rightarrow> None
      | Some (Inl f) \<Rightarrow> Some (Inl f)
      | Some (Inr th) \<Rightarrow> dispatchMessages env is th)"

section \<open>The loop\<close>

definition maxReconnectTime :: duration where
  "maxReconnectTime = 60 * 1000000000"

text \<open>Connecting, when the network is configured and not connected.\<close>

definition connectedStep :: "thread_env \<Rightarrow> modbus_thread \<Rightarrow> (fault + modbus_thread) option" where
  "connectedStep env th =
     (let (t, th) = thNow env th;
          th = networkState True (th\<lparr>mWatchdog := watchdog_reset t (mWatchdog th)\<rparr>)
      in if \<not> mInitialPoll (mExecutor th) then
           (case setupInitialPoll (thEnv env) (mScheduler th) (mExecutor th) of
              None \<Rightarrow> None
            | Some (Inl f) \<Rightarrow> Some (Inl f)
            | Some (Inr x) \<Rightarrow> Some (Inr (th\<lparr>mExecutor := x\<rparr>)))
         else Some (Inr th))"

definition connectStep ::
  "thread_env \<Rightarrow> modbus_ctx \<Rightarrow> modbus_thread \<Rightarrow> (fault + modbus_thread) option" where
  "connectStep env ctx th =
     (if mIsConnected ctx then Some (Inr th)
      else
        let th = th\<lparr>idleWaitDuration :=
                   (if idleWaitDuration th > maxReconnectTime then 0 else idleWaitDuration th),
                   mModbus := Some (context_connect (thLib env) ctx)\<rparr>
        in if isConnected th then connectedStep env th else Some (Inr th))"

text \<open>Adding the polls that are due.\<close>

definition scheduleStep :: "thread_env \<Rightarrow> time \<Rightarrow> modbus_thread \<Rightarrow> (fault + modbus_thread) option" where
  "scheduleStep env t th =
     (if \<not> mInitialPoll (mExecutor th) \<and> nextPollTimePoint th < t then
        (let (schedulerWaitDuration, regsToPoll) =
               getRegistersToPoll (cmds (mExecutor th)) (mScheduler th) t;
             th = th\<lparr>nextPollTimePoint := wrap64 (t + schedulerWaitDuration)\<rparr>
         in case addPollList (thEnv env) regsToPoll False (mExecutor th) of
              None \<Rightarrow> None
            | Some (Inl f) \<Rightarrow> Some (Inl f)
            | Some (Inr x) \<Rightarrow> Some (Inr (th\<lparr>mExecutor := x\<rparr>)))
      else Some (Inr th))"

text \<open>The bookkeeping after a command was sent: the watchdog and the schedule.\<close>

definition commandSent :: "thread_env \<Rightarrow> modbus_thread \<Rightarrow> fault + modbus_thread" where
  "commandSent env th =
     (case mLastCommand (mExecutor th) of
        None \<Rightarrow> Inl NullPointer
      | Some p \<Rightarrow>
          (let cmd = cmds (mExecutor th) p;
               exists = fileExists env (ticks (mExecutor th)) (mDevicePath (mConfig (mWatchdog th)));
               (t, th) = thNow env th;
               th = th\<lparr>mWatchdog := inspectCommand cmd t exists (mWatchdog th)\<rparr>
           in Inr (case cmd of
                     Poll rpcRead \<Rightarrow>
                       if isRpc rpcRead \<and> executedOk cmd
                       then th\<lparr>mExecutor := (mExecutor th)
                              \<lparr>cmds := notifyRpcRead rpcRead (mScheduler th) (cmds (mExecutor th))\<rparr>\<rparr>
                       else th
                   | Write _ \<Rightarrow> th)))"

definition executeStep :: "thread_env \<Rightarrow> time \<Rightarrow> modbus_thread \<Rightarrow> (fault + modbus_thread) option" where
  "executeStep env t th =
     (if allDone (mExecutor th)
      then Some (Inr (th\<lparr>idleWaitDuration := wrap64 (nextPollTimePoint th - t)\<rparr>))
      else
        case executeNext (thEnv env) (mExecutor th) of
          None \<Rightarrow> None
        | Some (Inl f) \<Rightarrow> Some (Inl f)
        | Some (Inr (d, x)) \<Rightarrow>
            (let th = th\<lparr>mExecutor := x, idleWaitDuration := d\<rparr>
             in Some (if d = 0 then commandSent env th else Inr th)))"

definition workStep :: "thread_env \<Rightarrow> modbus_thread \<Rightarrow> (fault + modbus_thread) option" where
  "workStep env th =
     (if isConnected th then
        (if mMqttConnected th then
           (let (t, th) = thNow env th
            in case scheduleStep env t th of
                 Some (Inr th) \<Rightarrow> executeStep env t th
               | r \<Rightarrow> r)
         else Some (Inr (th\<lparr>idleWaitDuration := duration_max\<rparr>)))
      else
        let th = networkState False th
        in Some (Inr (if idleWaitDuration th < maxReconnectTime
                      then th\<lparr>idleWaitDuration := idleWaitDuration th + 5 * 1000000000\<rparr> else th)))"

text \<open>
  The watchdog, or the wait for messages. The clock reading of \<open>isReconnectRequired\<close> is made even
  when the device is known to be gone.
\<close>

definition waitStep :: "thread_env \<Rightarrow> modbus_thread \<Rightarrow> (fault + modbus_thread) option" where
  "waitStep env th =
     (let (t, th) = (if isConnected th then thNow env th else (0, th)) in
      if isConnected th \<and> isReconnectRequired t (mWatchdog th) then
        (let (t, th) = thNow env th
         in Some (Inr (networkState False
              (th\<lparr>mWatchdog := watchdog_reset t (mWatchdog th),
                  mModbus := map_option (context_disconnect (thLib env)) (mModbus th)\<rparr>))))
      else dispatchMessages env (waitDequeue env (ticks (mExecutor th)) (idleWaitDuration th)) th)"

definition networkStep :: "thread_env \<Rightarrow> modbus_thread \<Rightarrow> (fault + modbus_thread) option" where
  "networkStep env th =
     (case mModbus th of
        None \<Rightarrow> Some (Inr (th\<lparr>idleWaitDuration := duration_max\<rparr>))
      | Some ctx \<Rightarrow>
          (case connectStep env ctx th of
             Some (Inr th) \<Rightarrow> workStep env th
           | r \<Rightarrow> r))"

text \<open>One iteration of the loop of \<open>run\<close>, for a thread that should run.\<close>

definition iteration :: "thread_env \<Rightarrow> modbus_thread \<Rightarrow> (fault + modbus_thread) option" where
  "iteration env th =
     (case networkStep env th of
        Some (Inr th) \<Rightarrow> waitStep env th
      | r \<Rightarrow> r)"

text \<open>The whole thread; \<open>None\<close> when it does not end within the given number of iterations.\<close>

fun run :: "thread_env \<Rightarrow> nat \<Rightarrow> modbus_thread \<Rightarrow> (fault + modbus_thread) option" where
  "run env n th =
     (if \<not> mShouldRun th then
        Some (Inr (if isConnected th
                   then th\<lparr>mModbus := map_option (context_disconnect (thLib env)) (mModbus th)\<rparr>
                   else th))
      else
        case n of
          0 \<Rightarrow> None
        | Suc n \<Rightarrow>
            (case iteration env th of
               Some (Inr th) \<Rightarrow> run env n th
             | r \<Rightarrow> r))"

end
