(* ===== verification/Thread_Invariant.thy ===== *)
theory Thread_Invariant
  imports Modbus_Thread
begin

text \<open>
  The invariant of the Modbus thread: the executor is in a good state, and every pointer the
  executor or the scheduler holds was allocated and points at the right kind of command. Every
  step of an iteration returns and keeps it.
\<close>

section \<open>The invariant\<close>

definition exec_fits :: "ptr \<Rightarrow> executor \<Rightarrow> bool" where
  "exec_fits n x \<longleftrightarrow> exec_ok x \<and> writable_pending x \<and> (\<forall>p \<in># pending x. p < n)"

definition polls_fit :: "ptr \<Rightarrow> register_map \<Rightarrow> heap \<Rightarrow> bool" where
  "polls_fit n m h \<longleftrightarrow> omap_ok m \<and> (\<forall>e \<in> set m. \<forall>p \<in> set (snd e). p < n \<and> isPoll (h p))"

definition thread_ok :: "modbus_thread \<Rightarrow> bool" where
  "thread_ok th \<longleftrightarrow> exec_fits (nextPtr th) (mExecutor th) \<and>
     polls_fit (nextPtr th) (mScheduler th) (cmds (mExecutor th))"

text \<open>Libmodbus has no function that writes to read-only registers; such a write is an exception.\<close>

fun item_ok :: "modbus_item \<Rightarrow> bool" where
  "item_ok (MessageItem (RegisterValues m)) = (mRegisterType m = COIL \<or> mRegisterType m = HOLDING)"
| "item_ok _ = True"

text \<open>\<open>r\<close> is a good state, or one of the faults listed.\<close>

definition good_or :: "fault set \<Rightarrow> (fault + modbus_thread) option \<Rightarrow> bool" where
  "good_or F r \<longleftrightarrow> (case r of
     None \<Rightarrow> False
   | Some (Inl f) \<Rightarrow> f \<in> F
   | Some (Inr th) \<Rightarrow> thread_ok th)"

lemma good_or_simps [simp]:
  "good_or F (Some (Inr th)) = thread_ok th" "good_or F (Some (Inl f)) = (f \<in> F)"
  "\<not> good_or F None"
  by (simp_all add: good_or_def)

lemma good_or_cases:
  assumes "good_or F r"
  obtains th where "r = Some (Inr th)" "thread_ok th" | f where "r = Some (Inl f)" "f \<in> F"
  using assms by (auto simp: good_or_def split: option.splits sum.splits)

section \<open>Executor facts\<close>

lemma sendMessage_irrelevant [simp]:
  "pending (sendMessage i x) = pending (x :: executor)" "exec_ok (sendMessage i x) = exec_ok x"
  "writable_pending (sendMessage i x) = writable_pending x"
  "cmds (sendMessage i x) = cmds x" "ios (sendMessage i x) = ios x"
  by (simp_all add: sendMessage_def pending_def queue_sum_def waiting_def pending_writes_def
      queues_ok_def allDone_def exec_ok_def writable_pending_def split: option.splits)

lemma exec_fits_sendMessage [simp]: "exec_fits n (sendMessage i x) = exec_fits n x"
  by (simp add: exec_fits_def)

lemma exec_fits_ticks [simp]: "exec_fits n (x\<lparr>ticks := t\<rparr>) = exec_fits n x"
  by (simp add: exec_fits_def)

lemma exec_fits_heap:
  assumes "exec_fits n x" and "\<And>p. p < n \<Longrightarrow> isPoll (h p) = isPoll (cmds x p)"
    and "\<And>p. p < n \<Longrightarrow> writable (h p) = writable (cmds x p)" and "n \<le> n'"
  shows "exec_fits n' (x\<lparr>cmds := h\<rparr>)"
proof -
  have p: "\<forall>p \<in># pending x. isPoll (h p) = isPoll (cmds x p) \<and> writable (h p) = writable (cmds x p)"
    using assms by (auto simp: exec_fits_def)
  have "pending (x\<lparr>cmds := h\<rparr>) = pending x" by (simp add: pending_def queue_sum_def waiting_def)
  with heap_step_ok [OF _ _ p] assms show ?thesis by (fastforce simp: exec_fits_def)
qed

lemma selectNext_cmds: "selectNext x = Some (Inr (b, x')) \<Longrightarrow> cmds x' = cmds x"
  by (auto simp: selectNext_def popCurrent_def resetCommandsCounter_def bindE_Inr_iff
      split: option.splits sum.splits if_splits prod.splits)

lemma executeSelected_kinds:
  assumes "executeSelected env x = Inr (d, x')"
  shows "same_kinds (cmds x) (cmds x')"
proof (cases "mWaitingCommand x")
  case None
  then show ?thesis using assms by (auto simp: executeSelected_def)
next
  case (Some p)
  have send: "same_kinds (cmds y) (cmds y')"
    if "sendAndFinish env y = Inr (e, y')" "mWaitingCommand y = Some p" for y e y'
    using that sendCommand_frame [of env y _ p] by (auto simp: sendAndFinish_def bindE_Inr_iff)
  show ?thesis
    using assms Some send [of x d x'] send [of "x\<lparr>ticks := Suc (ticks x)\<rparr>" d x']
    by (auto simp: executeSelected_def now_def Let_def bindE_Inr_iff split: if_splits)
qed

lemma executeNext_kinds:
  assumes "executeNext env x = Some (Inr (d, x'))"
  shows "same_kinds (cmds x) (cmds x')"
  using assms selectNext_cmds executeSelected_kinds
  by (auto simp: executeNext_def split: option.splits sum.splits if_splits) fastforce

lemma served_pending: "served p x x' \<Longrightarrow> set_mset (pending x') \<subseteq> set_mset (pending x)"
  by (auto simp: served_def split: if_splits)

section \<open>Steps\<close>

lemma thNow_eq: "thNow env th =
  (clock (thEnv env) (ticks (mExecutor th)),
   th\<lparr>mExecutor := (mExecutor th)\<lparr>ticks := Suc (ticks (mExecutor th))\<rparr>\<rparr>)"
  by (simp add: thNow_def now_def Let_def)

lemma thread_ok_now: "thNow env th = (t, th') \<Longrightarrow> thread_ok th' = thread_ok th"
  by (auto simp: thNow_eq thread_ok_def)

text \<open>The fields the invariant does not depend on.\<close>

lemma thread_ok_fields [simp]:
  "thread_ok (th\<lparr>mNetworkName := a\<rparr>) = thread_ok th"
  "thread_ok (th\<lparr>thDelayBeforeCommand := b\<rparr>) = thread_ok th"
  "thread_ok (th\<lparr>thDelayBeforeFirstCommand := b\<rparr>) = thread_ok th"
  "thread_ok (th\<lparr>thMaxReadRetryCount := c\<rparr>) = thread_ok th"
  "thread_ok (th\<lparr>thMaxWriteRetryCount := c\<rparr>) = thread_ok th"
  "thread_ok (th\<lparr>mSlaves := d\<rparr>) = thread_ok th"
  "thread_ok (th\<lparr>mShouldRun := e\<rparr>) = thread_ok th"
  "thread_ok (th\<lparr>mMqttConnected := e\<rparr>) = thread_ok th"
  "thread_ok (th\<lparr>mModbus := f\<rparr>) = thread_ok th"
  "thread_ok (th\<lparr>mWatchdog := g\<rparr>) = thread_ok th"
  "thread_ok (th\<lparr>idleWaitDuration := i\<rparr>) = thread_ok th"
  "thread_ok (th\<lparr>nextPollTimePoint := i\<rparr>) = thread_ok th"
  by (simp_all add: thread_ok_def)

lemma networkState_ok [simp]: "thread_ok (networkState up th) = thread_ok th"
  by (simp add: thread_ok_def networkState_def thread_sendMessage_def)

lemma thread_ok_executor:
  assumes "thread_ok th" and "exec_fits (nextPtr th) x"
    and "\<And>p. isPoll (cmds x p) = isPoll (cmds (mExecutor th) p)"
  shows "thread_ok (th\<lparr>mExecutor := x\<rparr>)"
  using assms by (simp add: thread_ok_def polls_fit_def)

lemma thread_ok_heap:
  assumes "thread_ok th" and "\<And>p. isPoll (h p) = isPoll (cmds (mExecutor th) p)"
    and "\<And>p. writable (h p) = writable (cmds (mExecutor th) p)"
  shows "thread_ok (th\<lparr>mExecutor := (mExecutor th)\<lparr>cmds := h\<rparr>\<rparr>)"
  using assms exec_fits_heap [of "nextPtr th" "mExecutor th" h "nextPtr th"]
  by (auto simp: thread_ok_def polls_fit_def)

text \<open>A new command is nowhere in use.\<close>

lemma allocate_ok:
  assumes ok: "thread_ok th" and a: "allocate c th = (p, th')"
  shows "thread_ok th' \<and> p < nextPtr th' \<and> cmds (mExecutor th') p = c \<and>
    nextPtr th' = Suc (nextPtr th) \<and> p = nextPtr th \<and> mScheduler th' = mScheduler th \<and>
    (\<forall>q. q < nextPtr th \<longrightarrow> cmds (mExecutor th') q = cmds (mExecutor th) q)"
proof -
  have p: "p = nextPtr th" and th': "th' = th\<lparr>mExecutor :=
      (mExecutor th)\<lparr>cmds := (cmds (mExecutor th))(p := c)\<rparr>, nextPtr := Suc p\<rparr>"
    using a by (auto simp: allocate_def store_def)
  have "exec_fits (Suc p) ((mExecutor th)\<lparr>cmds := (cmds (mExecutor th))(p := c)\<rparr>)"
    using ok p by (intro exec_fits_heap [of p]) (auto simp: thread_ok_def)
  then show ?thesis
    using ok p th' by (fastforce simp: thread_ok_def polls_fit_def)
qed

lemma setCommandDelays_kind [simp]:
  "mRegisterType (setCommandDelays a b c) = mRegisterType c"
  "mSlaveId (setCommandDelays a b c) = mSlaveId c"
  by (simp_all add: setCommandDelays_def split: option.splits)

lemma setMaxRetryCounts_kind [simp]:
  "mRegisterType (setMaxRetryCounts a b f c) = mRegisterType c"
  "mSlaveId (setMaxRetryCounts a b f c) = mSlaveId c"
  by (simp_all add: setMaxRetryCounts_def Let_def)

lemma applySlaveConfig_kind [simp]:
  "mRegisterType (applySlaveConfig th s c) = mRegisterType c"
  "mSlaveId (applySlaveConfig th s c) = mSlaveId c"
  by (simp_all add: applySlaveConfig_def Let_def split: option.splits)

lemma configure_good:
  "thread_ok th \<Longrightarrow>
   good_or (if isl (context_init (thLib env) c new_ModbusContext) then {ContextException} else {})
     (Some (configure env c th))"
  by (auto simp: configure_def thNow_eq Let_def thread_ok_def split: sum.splits)

lemma polls_fit_mono:
  "polls_fit n m h \<Longrightarrow> n \<le> n' \<Longrightarrow> (\<And>q. q < n \<Longrightarrow> h' q = h q) \<Longrightarrow> polls_fit n' m h'"
  by (fastforce simp: polls_fit_def)

lemma polls_fit_push:
  assumes "polls_fit n m h" and "p < n" and "isPoll (h p)"
  shows "polls_fit n (omap_modify [] (\<lambda>l. l @ [p]) k m) h"
proof -
  have om: "omap_ok m" using assms(1) by (simp add: polls_fit_def)
  then have om': "omap_ok (omap_modify [] (\<lambda>l. l @ [p]) k m)" by (rule omap_ok_modify)
  have "q < n \<and> isPoll (h q)"
    if "map_of (omap_modify [] (\<lambda>l. l @ [p]) k m) j = Some ps" "q \<in> set ps" for j ps q
  proof -
    have "q = p \<or> (\<exists>ps. map_of m j = Some ps \<and> q \<in> set ps)"
      using that om by (auto simp: map_of_omap_modify split: if_splits option.splits)
    then show ?thesis
    proof
      assume "\<exists>ps. map_of m j = Some ps \<and> q \<in> set ps"
      then obtain ps where "(j, ps) \<in> set m" "q \<in> set ps" by (auto dest: map_of_SomeD)
      with assms(1) show ?thesis by (force simp: polls_fit_def)
    qed (use assms in simp)
  qed
  then show ?thesis using om' by (auto simp: polls_fit_def omap_in_set_iff [OF om'])
qed

lemma allocatePoll_ok:
  assumes "thread_ok th" and "allocatePoll env m r pm cid th = (p, th')"
  shows "thread_ok th' \<and> p < nextPtr th' \<and> isPoll (cmds (mExecutor th') p) \<and>
    nextPtr th \<le> nextPtr th' \<and>
    (\<forall>q. q < nextPtr th \<longrightarrow> cmds (mExecutor th') q = cmds (mExecutor th) q)"
proof -
  define th2 where "th2 = snd (thNow env (snd (thNow env th)))"
  obtain reg where a: "allocate (Poll reg) th2 = (p, th')"
    using assms(2) by (auto simp: allocatePoll_def th2_def thNow_eq Let_def)
  have "thread_ok th2" "nextPtr th2 = nextPtr th" "cmds (mExecutor th2) = cmds (mExecutor th)"
    using assms(1) by (simp_all add: th2_def thNow_eq thread_ok_def)
  then show ?thesis using allocate_ok [OF _ a] by fastforce
qed

lemma newPolls_ok:
  "thread_ok th \<Longrightarrow> polls_fit (nextPtr th) m (cmds (mExecutor th)) \<Longrightarrow>
   newPolls env ms m th = (m', th') \<Longrightarrow>
   thread_ok th' \<and> polls_fit (nextPtr th') m' (cmds (mExecutor th'))"
proof (induction env ms m th rule: newPolls.induct)
  case (2 env r ms m th)
  show ?case
  proof (cases "mRefreshMsec r = INVALID_REFRESH")
    case True
    with 2 show ?thesis by simp
  next
    case False
    obtain p th1 where p: "newPoll env r th = (p, th1)" by fastforce
    note n = allocatePoll_ok [OF "2.prems"(1) p [unfolded newPoll_def]]
    then have "polls_fit (nextPtr th1) (omap_modify [] (\<lambda>l. l @ [p]) (mSlaveId r) m)
        (cmds (mExecutor th1))"
      using polls_fit_mono [OF "2.prems"(2)] by (intro polls_fit_push) auto
    then show ?thesis using "2.IH"(1) [OF False p [symmetric] refl] n "2.prems"(3) False p by simp
  qed
qed simp

lemma updateWatchPeriod_ok [simp]: "thread_ok (updateWatchPeriod th) = thread_ok th"
  by (simp add: updateWatchPeriod_def Let_def)

lemma reconfigure_kind [simp]:
  "isPoll (reconfigure_poll c p h q) = isPoll (h q)"
  "writable (reconfigure_poll c p h q) = writable (h q)"
  by (cases "h p"; simp add: reconfigure_poll_def)+

lemma fold_reconfigure_kind [simp]:
  "isPoll (fold (reconfigure_poll c) ps h q) = isPoll (h q)"
  "writable (fold (reconfigure_poll c) ps h q) = writable (h q)"
  by (induction ps arbitrary: h) simp_all

lemma updateFromSlaveConfig_ok:
  assumes "thread_ok th"
  shows "thread_ok (updateFromSlaveConfig c th)"
proof -
  have "thread_ok (th\<lparr>mSlaves := s, mExecutor := (mExecutor th)
      \<lparr>cmds := fold (reconfigure_poll c) ps (cmds (mExecutor th))\<rparr>\<rparr>)" for s ps
    using thread_ok_heap [of "th\<lparr>mSlaves := s\<rparr>"] assms by simp
  then show ?thesis
    using assms by (auto simp: updateFromSlaveConfig_def Let_def split: option.splits)
qed

section \<open>Steps that use the executor\<close>

context modbus_context
begin

lemma addPollList_fits:
  assumes "exec_fits n x" and "polls_fit n pr (cmds x)"
  shows "\<exists>x'. addPollList env pr ini x = Some (Inr x') \<and> exec_fits n x' \<and> cmds x' = cmds x \<and>
    ios x' = ios x"
proof -
  have ok: "exec_ok x" and polls: "\<forall>e \<in> set pr. \<forall>p \<in> set (snd e). isPoll (cmds x p)"
    using assms by (auto simp: exec_fits_def polls_fit_def)
  from addPollList_ok [OF ok polls, of env ini] obtain x' a where
    x': "addPollList env pr ini x = Some (Inr x')" "cmds x' = cmds x" "ios x' = ios x"
      "set_mset a \<subseteq> (\<Union>e \<in> set pr. set (snd e))" "pending x' \<subseteq># pending x + a"
    by blast
  have "exec_ok x' \<and> writable_pending x'"
    using exec_step_ok [OF step_polls [OF polls x'(1)]] assms(1) by (simp add: exec_fits_def)
  moreover have "p < n" if "p \<in># pending x'" for p
  proof -
    have "p \<in># pending x \<or> p \<in># a" using x'(5) that by (meson mset_subset_eqD union_iff)
    then show ?thesis using assms x'(4) by (fastforce simp: exec_fits_def polls_fit_def)
  qed
  ultimately show ?thesis using x' by (auto simp: exec_fits_def)
qed

lemma thread_addPollList:
  assumes "thread_ok th" and "polls_fit (nextPtr th) pr (cmds (mExecutor th))"
  shows "\<exists>x. addPollList env pr ini (mExecutor th) = Some (Inr x) \<and>
    thread_ok (th\<lparr>mExecutor := x\<rparr>) \<and> ios x = ios (mExecutor th)"
  using addPollList_fits [of "nextPtr th" "mExecutor th" pr ini] assms thread_ok_executor [of th]
  by (fastforce simp: thread_ok_def)

lemma setPollSpecification_good:
  assumes "thread_ok th" and env: "thEnv tenv = env"
  shows "good_or {} (setPollSpecification tenv spec th)"
proof -
  obtain m th1 where n: "newPolls tenv (specRegisters spec) [] th = (m, th1)" by fastforce
  have "polls_fit (nextPtr th) [] (cmds (mExecutor th))" by (simp add: polls_fit_def)
  note ok = newPolls_ok [OF assms(1) this n]
  let ?th = "th1\<lparr>mScheduler := m\<rparr>"
  have "thread_ok ?th" using ok by (simp add: thread_ok_def)
  from thread_addPollList [OF this, of m True] ok obtain x where
    "addPollList env m True (mExecutor th1) = Some (Inr x)" "thread_ok (?th\<lparr>mExecutor := x\<rparr>)"
    by auto
  then show ?thesis using env n by (simp add: setPollSpecification_def setupInitialPoll_def)
qed

lemma processReadRequest_good:
  assumes "thread_ok th"
  shows "good_or {} (Some (processReadRequest tenv m th))"
proof -
  obtain p th3 where a: "allocatePoll tenv m 0 ONCE (mCommandId m) th = (p, th3)" by fastforce
  note n = allocatePoll_ok [OF assms a]
  then have ok: "exec_fits (nextPtr th3) (mExecutor th3)" "isPoll (cmds (mExecutor th3) p)"
    by (auto simp: thread_ok_def)
  from addReadCommand_pending [OF _ ok(2)] ok(1) obtain x where
    x: "addReadCommand p (mExecutor th3) = Inr x" "exec_ok x" "cmds x = cmds (mExecutor th3)"
      "pending x = pending (mExecutor th3) +
        (case map_of (mSlaveQueues (mExecutor th3)) (cmdSlaveId (cmds (mExecutor th3) p)) of
           None \<Rightarrow> {#p#}
         | Some q \<Rightarrow> if p \<in> set (mPollQueue q) then {#} else {#p#})"
    unfolding exec_fits_def by blast
  then have sub: "set_mset (pending x) \<subseteq> insert p (set_mset (pending (mExecutor th3)))"
    by (auto split: option.splits if_splits)
  have "writable_pending x"
    using exec_step_ok [OF step_read [OF ok(2) x(1)]] ok(1) by (simp add: exec_fits_def)
  then have "exec_fits (nextPtr th3) x" using x(2) sub ok(1) n by (auto simp: exec_fits_def)
  then show ?thesis
    using a x n thread_ok_executor [of th3 x] by (simp add: processReadRequest_def)
qed

lemma processWrite_good:
  assumes "thread_ok th" and "mRegisterType m = COIL \<or> mRegisterType m = HOLDING"
  shows "good_or (if map_of (mSlaveQueues (mExecutor th)) (mSlaveId m) = None then {DerefEnd} else {})
    (Some (processWrite m th))"
proof -
  obtain p th1 where a: "allocate (Write (newWrite th m)) th = (p, th1)" by fastforce
  note n = allocate_ok [OF assms(1) a]
  have k: "\<not> isPoll (cmds (mExecutor th1) p)" "writable (cmds (mExecutor th1) p)"
    using n assms(2) by (auto simp: newWrite_def new_RegisterWrite_def Let_def split: option.splits)
  have ok: "exec_fits (nextPtr th1) (mExecutor th1)"
    using n [THEN conjunct1] by (simp add: thread_ok_def)
  then have "exec_ok (mExecutor th1)" by (simp add: exec_fits_def)
  from addWriteCommand_pending [OF this k(1)] consider
    "addWriteCommand p (mExecutor th1) = Inl DerefEnd"
      "map_of (mSlaveQueues (mExecutor th1)) (cmdSlaveId (cmds (mExecutor th1) p)) = None"
  | x where "addWriteCommand p (mExecutor th1) = Inr x" "exec_ok x"
      "cmds x = cmds (mExecutor th1)" "pending x = add_mset p (pending (mExecutor th1))"
    by (auto split: if_splits)
  then show ?thesis
  proof cases
    case 1
    moreover have "cmds (mExecutor th1) p = Write (newWrite th m)" using n by blast
    moreover have "mSlaveId (newWrite th m) = mSlaveId m"
      by (simp add: newWrite_def new_RegisterWrite_def Let_def split: option.splits)
    moreover have "mSlaveQueues (mExecutor th1) = mSlaveQueues (mExecutor th)"
      using a by (auto simp: allocate_def store_def)
    ultimately show ?thesis using a by (simp add: processWrite_def)
  next
    case (2 x)
    then have "writable_pending x"
      using exec_step_ok [OF step_write [OF k 2(1)]] ok by (simp add: exec_fits_def)
    then have "exec_fits (nextPtr th1) x" using 2 ok n by (auto simp: exec_fits_def)
    then show ?thesis using a 2 n thread_ok_executor [of th1 x] by (simp add: processWrite_def)
  qed
qed

end

end
