(* ===== verification/Thread_Queues.thy ===== *)
theory Thread_Queues
  imports Thread_Invariant
begin

text \<open>
  The known_slaves the executor has a queue for. Queues are created when commands are added and never
  removed, so no step of the thread takes a slave away.
\<close>

section \<open>The executor\<close>

definition queue_slaves :: "executor \<Rightarrow> int set" where
  "queue_slaves x = fst ` set (mSlaveQueues x)"

lemma queue_slaves_iff: "k \<in> queue_slaves x \<longleftrightarrow> map_of (mSlaveQueues x) k \<noteq> None"
  by (simp add: queue_slaves_def map_of_eq_None_iff)

lemma queue_slaves_put: "queue_slaves (x\<lparr>mSlaveQueues := omap_put k q (mSlaveQueues x)\<rparr>) =
    insert k (queue_slaves x)"
  by (simp add: queue_slaves_def set_keys_omap_put)

lemma queue_slaves_fields [simp]:
  "queue_slaves (x\<lparr>ticks := a\<rparr>) = queue_slaves x"
  "queue_slaves (x\<lparr>cmds := b\<rparr>) = queue_slaves x"
  "queue_slaves (x\<lparr>mCurrentSlaveQueue := c\<rparr>) = queue_slaves x"
  "queue_slaves (x\<lparr>mWaitingCommand := d\<rparr>) = queue_slaves x"
  "queue_slaves (x\<lparr>mCommandsLeft := e\<rparr>) = queue_slaves x"
  "queue_slaves (x\<lparr>mWriteCommandsQueued := e\<rparr>) = queue_slaves x"
  "queue_slaves (x\<lparr>mInitialPoll := f\<rparr>) = queue_slaves x"
  "queue_slaves (x\<lparr>mInitialPollStart := e\<rparr>) = queue_slaves x"
  "queue_slaves (sendMessage i x) = queue_slaves x"
  "queue_slaves (store p k x) = queue_slaves x"
  by (simp_all add: queue_slaves_def sendMessage_def store_def)

lemma keys_omap_modify: "fst ` set (omap_modify d f k m) = insert k (fst ` set m)"
  by (simp add: omap_modify_def set_keys_omap_put)

lemma queue_slaves_modify [simp]:
  "queue_slaves (x\<lparr>mSlaveQueues := omap_modify d f k (mSlaveQueues x)\<rparr>) = insert k (queue_slaves x)"
  by (simp add: queue_slaves_def keys_omap_modify)

lemma keys_omap_insert: "fst ` set m \<subseteq> fst ` set (omap_insert k v m)"
  by (auto simp: omap_insert_def set_keys_omap_put split: option.splits)

lemma insert_polls_keys: "insert_polls pr f m = (f', m') \<Longrightarrow> fst ` set m \<subseteq> fst ` set m'"
proof (induction pr f m rule: insert_polls.induct)
  case (2 k ps rest f m)
  let ?m = "omap_modify new_queues (queue_addPollList ps) k (omap_insert k new_queues m)"
  have "fst ` set m \<subseteq> fst ` set ?m" using keys_omap_insert [of m] by (auto simp: keys_omap_modify)
  moreover have "fst ` set ?m \<subseteq> fst ` set m'" using 2 by (simp add: Let_def)
  ultimately show ?case by (rule subset_trans)
qed simp

lemma reset_slaves: "resetCommandsCounter x = Inr x' \<Longrightarrow> queue_slaves x' = queue_slaves x"
  by (auto simp: resetCommandsCounter_def bindE_Inr_iff)

lemma pop_slaves: "popCurrent x = Inr x' \<Longrightarrow> queue_slaves x \<subseteq> queue_slaves x'"
  by (auto simp: popCurrent_def bindE_Inr_iff queue_slaves_put split: option.splits prod.splits)

lemma elect_slaves: "elect per ks cd x = Some (Inr x') \<Longrightarrow> queue_slaves x \<subseteq> queue_slaves x'"
proof (induction per ks cd x rule: elect.induct)
  case (2 per k ks cd x)
  have put: "queue_slaves (x\<lparr>mSlaveQueues := omap_put k q (mSlaveQueues x), mWaitingCommand := w,
      mCurrentSlaveQueue := c\<rparr>) = insert k (queue_slaves x)" for q w c
    by (simp add: queue_slaves_def set_keys_omap_put)
  from 2 show ?case
    by (auto simp: Let_def put queue_slaves_put split: if_splits option.splits sum.splits prod.splits)
qed simp

lemma start_election_slaves:
  assumes "start_election env k x = Some (Inr x')"
  shows "queue_slaves x \<subseteq> queue_slaves x'"
proof -
  let ?x = "x\<lparr>mCurrentSlaveQueue := Some k, ticks := Suc (ticks x)\<rparr>"
  obtain y z per where y: "resetCommandsCounter ?x = Inr y"
    and z: "elect per (map fst (mSlaveQueues y)) duration_max y = Some (Inr z)"
    and x': "(if mWaitingCommand z = None then popCurrent z else Inr z) = Inr x'"
    using assms
    by (auto simp: start_election_def now_def Let_def split: if_splits option.splits sum.splits)
  have "queue_slaves y = queue_slaves x" using reset_slaves [OF y] by simp
  moreover have "queue_slaves z \<subseteq> queue_slaves x'" using x' pop_slaves by (auto split: if_splits)
  ultimately show ?thesis using elect_slaves [OF z] by simp
qed

lemma addPollList_slaves:
  assumes "addPollList env pr ini x = Some (Inr x')"
  shows "queue_slaves x \<subseteq> queue_slaves x'"
proof -
  let ?y = "markInitialPoll env ini x"
  have y: "mSlaveQueues ?y = mSlaveQueues x" by (simp add: markInitialPoll_def now_def)
  obtain f m where m: "insert_polls pr None (mSlaveQueues ?y) = (f, m)" by fastforce
  have "queue_slaves x \<subseteq> queue_slaves (?y\<lparr>mSlaveQueues := m\<rparr>)"
    using insert_polls_keys [OF m] by (simp add: queue_slaves_def y)
  moreover have "x' = x \<or> x' = ?y\<lparr>mSlaveQueues := m\<rparr> \<or>
      (\<exists>k. start_election env k (?y\<lparr>mSlaveQueues := m\<rparr>) = Some (Inr x'))"
    using assms m by (simp add: addPollList_def Let_def split: if_splits option.splits) blast?
  ultimately show ?thesis using start_election_slaves by blast
qed

lemma addReadCommand_slaves:
  assumes "addReadCommand p x = Inr x'"
  shows "queue_slaves x \<subseteq> queue_slaves x'"
proof -
  let ?y = "x\<lparr>mSlaveQueues :=
    omap_modify new_queues (queue_addPollList [p]) (cmdSlaveId (cmds x p)) (mSlaveQueues x)\<rparr>"
  have "x' = ?y \<or> (\<exists>k. resetCommandsCounter (?y\<lparr>mCurrentSlaveQueue := k\<rparr>) = Inr x')"
    using assms unfolding addReadCommand_def Let_def by (auto split: if_splits)
  then have "queue_slaves x' = queue_slaves ?y" using reset_slaves by fastforce
  then show ?thesis by (simp del: queue_slaves_fields) blast
qed

lemma addWriteCommand_slaves:
  assumes "addWriteCommand p x = Inr x'"
  shows "queue_slaves x \<subseteq> queue_slaves x'"
  using assms
  by (auto simp: addWriteCommand_def Let_def bindE_Inr_iff dest!: reset_slaves
      split: if_splits option.splits)

lemma finishInitialPoll_slaves [simp]: "queue_slaves (finishInitialPoll env x) = queue_slaves x"
  by (simp add: finishInitialPoll_def now_def)

lemma executeNext_slaves:
  assumes "executeNext env x = Some (Inr (d, x'))"
  shows "queue_slaves x \<subseteq> queue_slaves x'"
proof -
  have select: "queue_slaves x \<subseteq> queue_slaves y" if "selectNext x = Some (Inr (b, y))" for b y
    using that
    by (auto simp: selectNext_def bindE_Inr_iff dest!: pop_slaves reset_slaves
        split: option.splits sum.splits if_splits)
  have send: "queue_slaves y' = queue_slaves y"
    if run: "sendAndFinish env y = Inr (e, y')" and "mWaitingCommand y = Some p" for y e y' p
  proof -
    obtain z where z: "sendCommand env y = Inr z" "y' = finishInitialPoll env z"
      using run by (auto simp: sendAndFinish_def bindE_Inr_iff)
    from sendCommand_frame [OF z(1) that(2)] have "queue_slaves z = queue_slaves y"
      by (simp add: same_queues_def queue_slaves_def)
    with z(2) show ?thesis by simp
  qed
  have "queue_slaves y' = queue_slaves y" if run: "executeSelected env y = Inr (e, y')" for y e y'
  proof (cases "mWaitingCommand y")
    case None
    with run show ?thesis by (auto simp: executeSelected_def)
  next
    case (Some p)
    with run send [of y e y' p] send [of "y\<lparr>ticks := Suc (ticks y)\<rparr>" e y' p] show ?thesis
      by (auto simp: executeSelected_def now_def Let_def bindE_Inr_iff split: if_splits)
  qed
  with select assms show ?thesis
    by (fastforce simp: executeNext_def split: option.splits sum.splits if_splits)
qed

section \<open>The thread\<close>

abbreviation known_slaves :: "modbus_thread \<Rightarrow> int set" where
  "known_slaves th \<equiv> queue_slaves (mExecutor th)"

lemma now_slaves: "thNow env th = (t, th') \<Longrightarrow> known_slaves th' = known_slaves th"
  by (auto simp: thNow_eq)

lemma networkState_slaves [simp]: "known_slaves (networkState up th) = known_slaves th"
  by (simp add: networkState_def thread_sendMessage_def)

lemma allocatePoll_slaves: "allocatePoll env m r pm cid th = (p, th') \<Longrightarrow> known_slaves th' = known_slaves th"
  by (auto simp: allocatePoll_def allocate_def thNow_eq Let_def)

lemma newPolls_slaves: "newPolls env ms m th = (m', th') \<Longrightarrow> known_slaves th' = known_slaves th"
proof (induction env ms m th rule: newPolls.induct)
  case (2 env r ms m th)
  show ?case
  proof (cases "mRefreshMsec r = INVALID_REFRESH")
    case True
    with 2 show ?thesis by simp
  next
    case False
    obtain p th1 where p: "newPoll env r th = (p, th1)" by fastforce
    have "known_slaves th1 = known_slaves th" using allocatePoll_slaves p by (simp add: newPoll_def)
    moreover have "known_slaves th' = known_slaves th1" using 2 False p by auto
    ultimately show ?thesis by simp
  qed
qed simp

lemma setPollSpecification_slaves:
  assumes "setPollSpecification env spec th = Some (Inr th')"
  shows "known_slaves th \<subseteq> known_slaves th'"
proof -
  obtain m th1 where n: "newPolls env (specRegisters spec) [] th = (m, th1)" by fastforce
  then obtain x where x: "addPollList (thEnv env) m True (mExecutor th1) = Some (Inr x)"
    and th': "th' = updateWatchPeriod (th1\<lparr>mScheduler := m, mExecutor := x\<rparr>)"
    using assms
    by (auto simp: setPollSpecification_def setupInitialPoll_def split: option.splits sum.splits)
  have "known_slaves th' = queue_slaves x" by (simp add: th' updateWatchPeriod_def Let_def)
  then show ?thesis using newPolls_slaves [OF n] addPollList_slaves [OF x] by simp
qed

lemma processReadRequest_slaves:
  assumes "processReadRequest env m th = Inr th'"
  shows "known_slaves th \<subseteq> known_slaves th'"
proof -
  obtain p th1 where a: "allocatePoll env m 0 ONCE (mCommandId m) th = (p, th1)" by fastforce
  then obtain x where "addReadCommand p (mExecutor th1) = Inr x" "th' = th1\<lparr>mExecutor := x\<rparr>"
    using assms by (auto simp: processReadRequest_def bindE_Inr_iff)
  then show ?thesis using allocatePoll_slaves [OF a] addReadCommand_slaves by fastforce
qed

lemma processWrite_slaves:
  assumes "processWrite m th = Inr th'"
  shows "known_slaves th \<subseteq> known_slaves th'"
proof -
  obtain p th1 where a: "allocate (Write (newWrite th m)) th = (p, th1)" by fastforce
  then obtain x where "addWriteCommand p (mExecutor th1) = Inr x" "th' = th1\<lparr>mExecutor := x\<rparr>"
    using assms by (auto simp: processWrite_def bindE_Inr_iff)
  moreover have "known_slaves th1 = known_slaves th" using a by (auto simp: allocate_def)
  ultimately show ?thesis using addWriteCommand_slaves by fastforce
qed

lemma dispatchMessage_slaves:
  assumes "dispatchMessage env i th = Some (Inr th')"
  shows "known_slaves th \<subseteq> known_slaves th'"
proof (cases i)
  case (NetworkConfigItem c)
  then show ?thesis
    using assms by (auto simp: configure_def thNow_eq Let_def split: sum.splits)
next
  case (SlaveConfigItem c)
  then show ?thesis
    using assms by (auto simp: updateFromSlaveConfig_def Let_def split: option.splits)
next
  case (MessageItem q)
  then show ?thesis
    using assms setPollSpecification_slaves processReadRequest_slaves processWrite_slaves
    by (cases q) auto
qed

lemma connectStep_slaves:
  assumes "connectStep env ctx th = Some (Inr th')"
  shows "known_slaves th \<subseteq> known_slaves th'"
proof -
  have c: "known_slaves th1 \<subseteq> known_slaves th2" if "connectedStep env th1 = Some (Inr th2)" for th1 th2
    using that
    by (auto simp: connectedStep_def setupInitialPoll_def thNow_eq Let_def dest!: addPollList_slaves
        split: if_splits option.splits sum.splits)
  show ?thesis using assms by (auto simp: connectStep_def Let_def dest!: c split: if_splits)
qed

lemma workStep_slaves:
  assumes "workStep env th = Some (Inr th')"
  shows "known_slaves th \<subseteq> known_slaves th'"
proof (cases "isConnected th \<and> mMqttConnected th")
  case True
  obtain t th1 where t: "thNow env th = (t, th1)" by fastforce
  then obtain th2 where s: "scheduleStep env t th1 = Some (Inr th2)"
    and e: "executeStep env t th2 = Some (Inr th')"
    using assms True by (auto simp: workStep_def split: option.splits sum.splits)
  have "known_slaves th1 \<subseteq> known_slaves th2"
    using s by (auto simp: scheduleStep_def Let_def dest!: addPollList_slaves
        split: if_splits option.splits sum.splits prod.splits)
  moreover have "known_slaves v = known_slaves u" if "commandSent env u = Inr v" for u v
    using that by (auto simp: commandSent_def thNow_eq Let_def split: option.splits command.splits if_splits)
  then have "known_slaves th2 \<subseteq> known_slaves th'"
    using e by (fastforce simp: executeStep_def Let_def dest!: executeNext_slaves
        split: if_splits option.splits sum.splits prod.splits)
  ultimately show ?thesis using now_slaves [OF t] by simp
next
  case False
  then show ?thesis using assms by (auto simp: workStep_def Let_def split: if_splits)
qed

lemma networkStep_slaves:
  assumes "networkStep env th = Some (Inr th')"
  shows "known_slaves th \<subseteq> known_slaves th'"
proof (cases "mModbus th")
  case None
  then show ?thesis using assms by (auto simp: networkStep_def)
next
  case (Some ctx)
  then obtain th1 where "connectStep env ctx th = Some (Inr th1)" "workStep env th1 = Some (Inr th')"
    using assms by (auto simp: networkStep_def split: option.splits sum.splits)
  then show ?thesis using connectStep_slaves workStep_slaves by blast
qed

end
