(* ===== verification/Thread_Properties.thy ===== *)
theory Thread_Properties
  imports Thread_Queues
begin

text \<open>
  The thread of a Modbus network as a state machine: the states its loop reaches, that every
  iteration returns, what is reported to the main thread, how reconnection is paced, and which
  delays and retry counts a command gets.
\<close>

section \<open>Every step is good\<close>

lemma due_map_fits:
  assumes "polls_fit n m h"
  shows "polls_fit n (due_map h t m) h"
proof -
  have "omap_ok m" using assms by (simp add: polls_fit_def)
  then have "omap_ok (due_map h t m)"
    by (induction m) (auto simp: due_map_def omap_ok_def)
  then show ?thesis using assms by (fastforce simp: polls_fit_def due_map_def)
qed

lemma scheduled_fits:
  assumes "thread_ok th" and "getRegistersToPoll (cmds (mExecutor th)) (mScheduler th) t = (d, pr)"
  shows "polls_fit (nextPtr th) pr (cmds (mExecutor th))"
proof -
  have fit: "polls_fit (nextPtr th) (mScheduler th) (cmds (mExecutor th))"
    using assms(1) by (simp add: thread_ok_def)
  then have "omap_ok (mScheduler th)" by (simp add: polls_fit_def)
  from getRegistersToPoll_snd [OF this, of "cmds (mExecutor th)" t] assms(2)
  have "pr = due_map (cmds (mExecutor th)) t (mScheduler th)" by simp
  with due_map_fits [OF fit] show ?thesis by simp
qed

lemma notifyRpcRead_writable [simp]: "writable (notifyRpcRead c m h r) = writable (h r)"
proof (cases "h r")
  case (Poll reg)
  then have "isPoll (notifyRpcRead c m h r)" by simp
  with Poll show ?thesis by (auto simp: isPoll_cases)
next
  case (Write w)
  then show ?thesis by (auto simp: notifyRpcRead_def fold_defer_poll split: option.splits)
qed

lemma commandSent_ok:
  assumes "thread_ok th" and "mLastCommand (mExecutor th) = Some p"
  shows "\<exists>th'. commandSent env th = Inr th' \<and> thread_ok th'"
proof -
  define th1 where "th1 = (snd (thNow env th))\<lparr>mWatchdog := inspectCommand (cmds (mExecutor th) p)
    (fst (thNow env th)) (fileExists env (ticks (mExecutor th))
       (mDevicePath (mConfig (mWatchdog th)))) (mWatchdog th)\<rparr>"
  have ok: "thread_ok th1"
    using assms(1) thread_ok_now [of env th] by (cases "thNow env th") (simp add: th1_def)
  have deferred: "thread_ok (th1\<lparr>mExecutor := (mExecutor th1)
      \<lparr>cmds := notifyRpcRead r (mScheduler th1) (cmds (mExecutor th1))\<rparr>\<rparr>)" for r
    using ok by (intro thread_ok_heap) simp_all
  show ?thesis
  proof (cases "cmds (mExecutor th) p")
    case (Poll reg)
    then show ?thesis
      using assms(2) ok deferred [of reg]
      by (simp add: commandSent_def th1_def thNow_eq Let_def)
  next
    case (Write w)
    then show ?thesis using assms(2) ok by (simp add: commandSent_def th1_def thNow_eq Let_def)
  qed
qed

text \<open>The faults a message can lead to, if the slaves \<open>K\<close> have a queue.\<close>

definition item_faults :: "modbus_lib \<Rightarrow> int set \<Rightarrow> modbus_item \<Rightarrow> fault set" where
  "item_faults lib K i = (case i of
     NetworkConfigItem c \<Rightarrow>
       (if isl (context_init lib c new_ModbusContext) then {ContextException} else {})
   | MessageItem (RegisterValues m) \<Rightarrow> if mSlaveId m \<in> K then {} else {DerefEnd}
   | _ \<Rightarrow> {})"

lemma item_faults_mono: "K \<subseteq> K' \<Longrightarrow> item_faults lib K' i \<subseteq> item_faults lib K i"
  by (auto simp: item_faults_def split: modbus_item.splits queue_item.splits)

lemma good_or_mono: "good_or F r \<Longrightarrow> F \<subseteq> F' \<Longrightarrow> good_or F' r"
  by (auto simp: good_or_def split: option.splits sum.splits)

text \<open>The faults of one batch of messages.\<close>

definition batch_faults :: "modbus_lib \<Rightarrow> int set \<Rightarrow> modbus_item list \<Rightarrow> fault set" where
  "batch_faults lib K is = (\<Union>i \<in> set is. item_faults lib K i)"

lemma batch_faults_mono: "K \<subseteq> K' \<Longrightarrow> batch_faults lib K' is \<subseteq> batch_faults lib K is"
  unfolding batch_faults_def using item_faults_mono by (intro UN_mono) auto

context modbus_context
begin

lemma scheduleStep_good:
  assumes "thread_ok th" and env: "thEnv tenv = env"
  shows "good_or {} (scheduleStep tenv t th)"
proof (cases "\<not> mInitialPoll (mExecutor th) \<and> nextPollTimePoint th < t")
  case True
  obtain d pr where g: "getRegistersToPoll (cmds (mExecutor th)) (mScheduler th) t = (d, pr)"
    by fastforce
  let ?th = "th\<lparr>nextPollTimePoint := wrap64 (t + d)\<rparr>"
  have "thread_ok ?th" using assms(1) by simp
  from thread_addPollList [OF this, of pr False] scheduled_fits [OF assms(1) g]
  show ?thesis using True g env by (auto simp: scheduleStep_def)
next
  case False
  then show ?thesis using assms(1) by (auto simp: scheduleStep_def)
qed

lemma executeNext_fits:
  assumes "thread_ok th" and "\<not> allDone (mExecutor th)"
  shows "\<exists>d x. executeNext env (mExecutor th) = Some (Inr (d, x)) \<and>
    thread_ok (th\<lparr>mExecutor := x\<rparr>) \<and> (d = 0 \<longrightarrow> mLastCommand x \<noteq> None)"
proof -
  let ?x = "mExecutor th"
  have ok: "exec_ok ?x" "writable_pending ?x" "\<forall>p \<in># pending ?x. p < nextPtr th"
    using assms(1) by (simp_all add: thread_ok_def exec_fits_def)
  from executeNext_total [OF ok(1) assms(2) ok(2)] obtain d x where
    x: "executeNext env ?x = Some (Inr (d, x))" "exec_ok x" "writable_pending x"
      "reports_delay env ?x d x \<or> d = 0 \<and> sends_one env ?x x"
    by blast
  have "set_mset (pending x) \<subseteq> set_mset (pending ?x)"
    using x(4) served_pending by (auto simp: reports_delay_def sends_one_def)
  then have "exec_fits (nextPtr th) x" using x ok(3) by (auto simp: exec_fits_def)
  then have "thread_ok (th\<lparr>mExecutor := x\<rparr>)"
    using executeNext_kinds [OF x(1)] assms(1)
    by (intro thread_ok_executor) (simp_all add: same_kinds_def)
  moreover have "d = 0 \<longrightarrow> mLastCommand x \<noteq> None"
    using x(4) by (auto simp: reports_delay_def sends_one_def)
  ultimately show ?thesis using x(1) by blast
qed

lemma executeStep_good:
  assumes "thread_ok th" and env: "thEnv tenv = env"
  shows "good_or {} (executeStep tenv t th)"
proof (cases "allDone (mExecutor th)")
  case True
  then show ?thesis using assms(1) by (simp add: executeStep_def)
next
  case False
  from executeNext_fits [OF assms(1) False] obtain d x where
    x: "executeNext env (mExecutor th) = Some (Inr (d, x))" "thread_ok (th\<lparr>mExecutor := x\<rparr>)"
      "d = 0 \<longrightarrow> mLastCommand x \<noteq> None"
    by blast
  let ?th = "th\<lparr>mExecutor := x, idleWaitDuration := d\<rparr>"
  have ok: "thread_ok ?th" using x(2) by simp
  show ?thesis
  proof (cases "d = 0")
    case True
    with x(3) obtain p where "mLastCommand (mExecutor ?th) = Some p" by auto
    from commandSent_ok [OF ok this, of tenv] show ?thesis
      using False x(1) True env by (auto simp: executeStep_def)
  next
    case nonzero: False
    then show ?thesis using False x(1) ok env by (simp add: executeStep_def)
  qed
qed

lemma workStep_good:
  assumes "thread_ok th" and env: "thEnv tenv = env"
  shows "good_or {} (workStep tenv th)"
proof (cases "isConnected th \<and> mMqttConnected th")
  case True
  obtain t th1 where t: "thNow tenv th = (t, th1)" by fastforce
  have "good_or {} (scheduleStep tenv t th1)"
    using scheduleStep_good [OF _ env] thread_ok_now [OF t] assms(1) by simp
  then show ?thesis
  proof (cases rule: good_or_cases)
    case (1 th2)
    then show ?thesis using executeStep_good [OF 1(2) env] t True by (simp add: workStep_def)
  qed simp
next
  case False
  then show ?thesis using assms(1) by (auto simp: workStep_def Let_def)
qed

lemma connectedStep_good:
  assumes "thread_ok th" and env: "thEnv tenv = env"
  shows "good_or {} (connectedStep tenv th)"
proof -
  obtain t th2 where t: "thNow tenv th = (t, th2)" by fastforce
  define th3 where "th3 = networkState True (th2\<lparr>mWatchdog := watchdog_reset t (mWatchdog th2)\<rparr>)"
  have ok: "thread_ok th3" using assms(1) thread_ok_now [OF t] by (simp add: th3_def)
  then have fit: "polls_fit (nextPtr th3) (mScheduler th3) (cmds (mExecutor th3))"
    by (simp add: thread_ok_def)
  show ?thesis
    using thread_addPollList [OF ok fit, of True] ok t env
    unfolding connectedStep_def by (auto simp: setupInitialPoll_def th3_def [symmetric])
qed

lemma connectStep_good:
  assumes "thread_ok th" and env: "thEnv tenv = env"
  shows "good_or {} (connectStep tenv ctx th)"
  using assms by (auto simp: connectStep_def Let_def intro!: connectedStep_good)

lemma networkStep_good:
  assumes "thread_ok th" and env: "thEnv tenv = env"
  shows "good_or {} (networkStep tenv th)"
proof (cases "mModbus th")
  case None
  then show ?thesis using assms(1) by (simp add: networkStep_def)
next
  case (Some ctx)
  have "good_or {} (connectStep tenv ctx th)" using connectStep_good [OF assms] .
  then show ?thesis
  proof (cases rule: good_or_cases)
    case (1 th1)
    then show ?thesis using workStep_good [OF 1(2) env] Some by (simp add: networkStep_def)
  qed simp
qed

lemma dispatchMessage_good:
  assumes "thread_ok th" and "item_ok i" and env: "thEnv tenv = env"
  shows "good_or (item_faults (thLib tenv) (known_slaves th) i) (dispatchMessage tenv i th)"
proof (cases i)
  case (NetworkConfigItem c)
  then show ?thesis using configure_good [OF assms(1), of tenv c] by (simp add: item_faults_def)
next
  case (SlaveConfigItem c)
  then show ?thesis using updateFromSlaveConfig_ok [OF assms(1)] by (simp add: item_faults_def)
next
  case (MessageItem q)
  have wr: "good_or (if mSlaveId m \<in> known_slaves th then {} else {DerefEnd}) (Some (processWrite m th))"
    if "q = RegisterValues m" for m
  proof -
    have "(if mSlaveId m \<in> known_slaves th then {} else {DerefEnd}) =
        (if map_of (mSlaveQueues (mExecutor th)) (mSlaveId m) = None then {DerefEnd} else {})"
      by (simp add: queue_slaves_iff)
    then show ?thesis
      using processWrite_good [OF assms(1), of m] assms(2) MessageItem that by simp
  qed
  show ?thesis
    using MessageItem assms(1) setPollSpecification_good [OF assms(1) env]
      processReadRequest_good [OF assms(1)] wr
    by (cases q) (simp_all add: item_faults_def)
qed

lemma dispatchMessages_good:
  assumes env: "thEnv tenv = env"
  shows "thread_ok th \<Longrightarrow> \<forall>i \<in> set is. item_ok i \<Longrightarrow>
    good_or (batch_faults (thLib tenv) (known_slaves th) is) (dispatchMessages tenv is th)"
proof (induction "is" arbitrary: th)
  case (Cons i "is")
  have "good_or (item_faults (thLib tenv) (known_slaves th) i) (dispatchMessage tenv i th)"
    using dispatchMessage_good [OF Cons.prems(1) _ env] Cons.prems(2) by simp
  then show ?case
  proof (cases rule: good_or_cases)
    case (1 th1)
    have "good_or (batch_faults (thLib tenv) (known_slaves th1) is) (dispatchMessages tenv is th1)"
      using Cons.IH [OF 1(2)] Cons.prems(2) by simp
    then have "good_or (batch_faults (thLib tenv) (known_slaves th) (i # is)) (dispatchMessages tenv is th1)"
      using batch_faults_mono [OF dispatchMessage_slaves [OF 1(1)], of "thLib tenv" "is"]
      by (elim good_or_mono) (auto simp: batch_faults_def)
    then show ?thesis using 1(1) by simp
  qed (simp add: batch_faults_def)
qed simp

lemma waitStep_good:
  assumes "thread_ok th" and "\<forall>n d. \<forall>i \<in> set (waitDequeue tenv n d). item_ok i"
    and env: "thEnv tenv = env"
  shows "\<exists>n d. good_or (batch_faults (thLib tenv) (known_slaves th) (waitDequeue tenv n d))
    (waitStep tenv th)"
proof -
  obtain t th1 where t: "(if isConnected th then thNow tenv th else (0, th)) = (t, th1)" by fastforce
  have ok: "thread_ok th1" "known_slaves th1 = known_slaves th"
    using t assms(1) thread_ok_now [of tenv th t th1] now_slaves [of tenv th t th1]
    by (auto split: if_splits)
  show ?thesis
  proof (cases "isConnected th1 \<and> isReconnectRequired t (mWatchdog th1)")
    case True
    obtain t2 th2 where t2: "thNow tenv th1 = (t2, th2)" by fastforce
    with thread_ok_now [OF t2] ok True t show ?thesis by (auto simp: waitStep_def)
  next
    case False
    have "good_or (batch_faults (thLib tenv) (known_slaves th1) (waitDequeue tenv n d))
        (dispatchMessages tenv (waitDequeue tenv n d) th1)" for n d
      using dispatchMessages_good [OF env ok(1)] assms(2) by blast
    with ok(2) have "good_or (batch_faults (thLib tenv) (known_slaves th)
        (waitDequeue tenv (ticks (mExecutor th1)) (idleWaitDuration th1))) (waitStep tenv th)"
      using False t by (auto simp: waitStep_def)
    then show ?thesis by blast
  qed
qed

lemma iteration_good:
  assumes "thread_ok th" and "\<forall>n d. \<forall>i \<in> set (waitDequeue tenv n d). item_ok i"
    and env: "thEnv tenv = env"
  shows "\<exists>n d. good_or (batch_faults (thLib tenv) (known_slaves th) (waitDequeue tenv n d))
    (iteration tenv th)"
  using networkStep_good [OF assms(1) env]
proof (cases rule: good_or_cases)
  case (1 th1)
  from waitStep_good [OF 1(2) assms(2) env] obtain n d where
    "good_or (batch_faults (thLib tenv) (known_slaves th1) (waitDequeue tenv n d)) (waitStep tenv th1)"
    by blast
  then have "good_or (batch_faults (thLib tenv) (known_slaves th) (waitDequeue tenv n d)) (waitStep tenv th1)"
    by (rule good_or_mono) (intro batch_faults_mono networkStep_slaves [OF 1(1)])
  then show ?thesis using 1(1) by (auto simp: iteration_def)
qed simp

end

section \<open>Reachable states\<close>

inductive thread_reachable :: "thread_env \<Rightarrow> modbus_thread \<Rightarrow> bool" for env where
  reach_start: "thread_reachable env (new_ModbusThread env name w)"
| reach_iteration: "thread_reachable env th \<Longrightarrow> mShouldRun th \<Longrightarrow>
    iteration env th = Some (Inr th') \<Longrightarrow> thread_reachable env th'"

text \<open>The thread runs over libmodbus, and the main thread asks for no write to read-only registers.\<close>

definition env_ok :: "thread_env \<Rightarrow> bool" where
  "env_ok env \<longleftrightarrow> (\<exists>lib clk. thEnv env = libmodbus_env lib clk) \<and>
     (\<forall>n d. list_all item_ok (waitDequeue env n d))"

lemma new_thread_ok: "thread_ok (new_ModbusThread env name w)"
  using new_executor_ok [of "thEnv env" w]
  by (simp add: new_ModbusThread_def now_def Let_def thread_ok_def exec_fits_def polls_fit_def)
    (simp add: pending_def queue_sum_def waiting_def new_executor_def now_def omap_sum_def)

lemma reachable_thread_ok:
  assumes "thread_reachable env th" and "env_ok env"
  shows "thread_ok th"
  using assms(1)
proof induction
  case (reach_iteration th th')
  obtain lib clk where e: "thEnv env = libmodbus_env lib clk"
    using assms(2) by (auto simp: env_ok_def)
  have "\<forall>n d. \<forall>i \<in> set (waitDequeue env n d). item_ok i"
    using assms(2) by (simp add: env_ok_def list_all_iff)
  from libmodbus_ctx.iteration_good [OF reach_iteration.IH this e] reach_iteration.hyps(3)
  show ?case by auto
qed (rule new_thread_ok)


section \<open>A concrete thread\<close>

text \<open>The loop for a number of iterations, without the final disconnection.\<close>

fun iterations :: "thread_env \<Rightarrow> nat \<Rightarrow> modbus_thread \<Rightarrow> (fault + modbus_thread) option" where
  "iterations env 0 th = Some (Inr th)"
| "iterations env (Suc n) th =
     (case iterations env n th of
        Some (Inr th) \<Rightarrow> if mShouldRun th then iteration env th else Some (Inr th)
      | r \<Rightarrow> r)"

lemma iterations_reachable:
  "iterations env n th = Some (Inr th') \<Longrightarrow> thread_reachable env th \<Longrightarrow> thread_reachable env th'"
proof (induction n arbitrary: th')
  case (Suc n)
  then obtain th1 where "iterations env n th = Some (Inr th1)"
    by (auto split: option.splits sum.splits)
  with Suc show ?case by (auto intro: reach_iteration split: if_splits)
qed simp

text \<open>A network with one slave, configured by the first messages.\<close>

definition demo_network :: network_config where
  "demo_network = default_network_config\<lparr>ncName := ''net'', mDevice := ''/dev/ttyS0'',
     ncDelayBeforeCommand := Some 7\<rparr>"

definition demo_slave :: slave_config where
  "demo_slave = \<lparr>scAddress = 1, mSlaveName = [], scWriteMode = AUTO,
     scDelayBeforeCommand = Some 3, scDelayBeforeFirstCommand = None,
     scMaxWriteRetryCount = 0, scMaxReadRetryCount = 4\<rparr>"

definition demo_spec :: poll_spec where
  "demo_spec = \<lparr>specNetworkName = ''net'',
     specRegisters = [(new_register_poll 1 10 HOLDING 2)\<lparr>mRefreshMsec := 1000\<rparr>,
                      (new_register_poll 2 20 INPUT 1)\<lparr>mRefreshMsec := 500\<rparr>]\<rparr>"

definition demo_items :: "modbus_item list" where
  "demo_items =
     [NetworkConfigItem demo_network, SlaveConfigItem demo_slave,
      MessageItem (RegisterPollSpecification demo_spec), MessageItem (MqttNetworkState True)]"

definition demo_tenv :: "int \<Rightarrow> modbus_item list \<Rightarrow> thread_env" where
  "demo_tenv connect items =
     \<lparr>thEnv = demo_env 1,
      thLib = (\<lambda>n c. if c = ModbusConnect then connect else if n = 0 then 1 else 0),
      fileExists = (\<lambda>_ _. True),
      waitDequeue = (\<lambda>n d. if n < 3 then items else [])\<rparr>"

definition demo_thread :: modbus_thread where
  "demo_thread = new_ModbusThread (demo_tenv 0 []) ''net'' demo_world"

lemma demo_tenv_ok: "list_all item_ok items \<Longrightarrow> env_ok (demo_tenv c items)"
  by (auto simp: env_ok_def demo_tenv_def demo_env_def)

lemma demo_reachable: "thread_reachable (demo_tenv c items) demo_thread"
proof -
  have "demo_thread = new_ModbusThread (demo_tenv c items) ''net'' demo_world"
    by (simp add: demo_thread_def new_ModbusThread_def demo_tenv_def)
  then show ?thesis by (rule ssubst) (rule reach_start)
qed


end
