(* ===== verification/Thread_Reporting.thy ===== *)
theory Thread_Reporting
  imports Thread_Properties
begin

text \<open>
  What the Modbus thread tells the main thread about the network, when it uses the bus, and how
  it paces reconnection.
\<close>

section \<open>Reports of the network state\<close>

fun report :: "queue_item \<Rightarrow> bool list" where
  "report (ModbusNetworkState _ up) = [up]"
| "report _ = []"

definition reports :: "'a world_scheme \<Rightarrow> bool list" where
  "reports x = concat (map report (fromModbus x))"

lemma reports_sendMessage [simp]: "reports (sendMessage i x) = reports x @ report i"
  by (simp add: reports_def sendMessage_def)

lemma reports_fields [simp]:
  "reports (x\<lparr>ticks := a\<rparr>) = reports x" "reports (x\<lparr>ios := b\<rparr>) = reports x"
  "reports (x\<lparr>cmds := c\<rparr>) = reports x"
  by (simp_all add: reports_def)

lemma reports_exec_fields [simp]:
  "reports (e\<lparr>mSlaveQueues := d\<rparr>) = reports e"
  "reports (e\<lparr>mCurrentSlaveQueue := f\<rparr>) = reports e"
  "reports (e\<lparr>mCommandsLeft := g\<rparr>) = reports e"
  "reports (e\<lparr>mWriteCommandsQueued := g\<rparr>) = reports e"
  "reports (e\<lparr>mLastCommandTime := g\<rparr>) = reports e"
  "reports (e\<lparr>mWaitingCommand := h\<rparr>) = reports e"
  "reports (e\<lparr>mLastCommand := h\<rparr>) = reports e"
  "reports (e\<lparr>mInitialPoll := i\<rparr>) = reports e"
  "reports (e\<lparr>mInitialPollStart := g\<rparr>) = reports e"
  "reports (e\<lparr>exMaxReadRetryCount := j\<rparr>) = reports e"
  "reports (e\<lparr>exMaxWriteRetryCount := j\<rparr>) = reports e"
  "reports (e\<lparr>mReadRetryCount := j\<rparr>) = reports e"
  "reports (e\<lparr>mWriteRetryCount := j\<rparr>) = reports e"
  by (simp_all add: reports_def)

lemma reports_now [simp]: "now env x = (t, x') \<Longrightarrow> reports x' = reports x"
  by (auto simp: now_def)

lemma reports_store [simp]: "reports (store p c x) = reports x"
  by (simp add: store_def)

text \<open>The executor reports register values and failures, never the state of the network.\<close>

lemma handleRegisterReadError_reports:
  "handleRegisterReadError env reg x = (reg', x') \<Longrightarrow> reports x' = reports x"
  by (auto simp: handleRegisterReadError_def now_def Let_def split: if_splits)

lemma registersRead_reports:
  "registersRead env vs f reg x = (reg', x') \<Longrightarrow> reports x' = reports x"
  by (auto simp: registersRead_def now_def Let_def split: if_splits)

lemma attemptRead_reports:
  "attemptRead env f reg x = Inr (reg', x') \<Longrightarrow> reports x' = reports x"
  using handleRegisterReadError_reports [of env reg "x\<lparr>ios := Suc (ios x)\<rparr>" reg' x']
    registersRead_reports [of env _ f reg "x\<lparr>ios := Suc (ios x)\<rparr>" reg' x']
  by (auto simp: attemptRead_def Let_def split: sum.splits context_exn.splits)

lemma pollRegisters_reports:
  assumes "pollRegisters env p reg f x = Inr (reg', x')"
  shows "reports x' = reports x"
proof -
  let ?x = "x\<lparr>ticks := Suc (ticks x)\<rparr>"
  obtain r y where a: "attemptRead env f (reg\<lparr>mLastReadStartTime := clock env (ticks x)\<rparr>) ?x = Inr (r, y)"
    and x': "reports x' = reports y"
    using assms by (auto simp: pollRegisters_def now_def Let_def bindE_Inr_iff)
  show ?thesis using attemptRead_reports [OF a] x' by simp
qed

lemma attemptWrite_reports:
  "attemptWrite env cmd x = Inr (cmd', x') \<Longrightarrow> reports x' = reports x"
  by (auto simp: attemptWrite_def now_def Let_def
      split: sum.splits context_exn.splits option.splits)

lemma writeRegisters_reports:
  assumes "writeRegisters env p cmd x = Inr (cmd', x')"
  shows "reports x' = reports x"
proof -
  obtain c y where a: "attemptWrite env cmd (x\<lparr>ticks := Suc (ticks x)\<rparr>) = Inr (c, y)"
    and x': "reports x' = reports y"
    using assms by (auto simp: writeRegisters_def now_def Let_def bindE_Inr_iff)
  show ?thesis using attemptWrite_reports [OF a] x' by simp
qed

lemma sendPoll_reports:
  assumes "sendPoll env p reg x = Inr (retry, x')"
  shows "reports x' = reports x"
proof -
  obtain r y where "pollRegisters env p reg (mInitialPoll x \<or> isRpc reg) x = Inr (r, y)"
    using assms by (auto simp: sendPoll_def bindE_Inr_iff)
  with assms pollRegisters_reports [OF this] show ?thesis
    by (auto simp: sendPoll_def split: if_splits)
qed

lemma sendWrite_reports:
  assumes "sendWrite env p cmd x = Inr (retry, x')"
  shows "reports x' = reports x"
proof -
  obtain r y where "writeRegisters env p cmd x = Inr (r, y)"
    using assms by (auto simp: sendWrite_def bindE_Inr_iff)
  with assms writeRegisters_reports [OF this] show ?thesis
    by (auto simp: sendWrite_def Let_def split: if_splits)
qed

lemma sendCommand_reports:
  assumes "sendCommand env x = Inr x'"
  shows "reports x' = reports x"
proof (cases "mWaitingCommand x")
  case (Some p)
  have load: "reports (loadRetryCounts p x) = reports x" by (simp add: loadRetryCounts_def)
  have finish: "reports (finishCommand r y) = reports y" for r y
    by (simp add: finishCommand_def Let_def)
  show ?thesis
  proof (cases "cmds (loadRetryCounts p x) p")
    case (Poll reg)
    then obtain r y where "sendPoll env p reg (loadRetryCounts p x) = Inr (r, y)"
      "x' = finishCommand r y"
      using assms Some by (auto simp: sendCommand_def Let_def bindE_Inr_iff)
    then show ?thesis using sendPoll_reports load finish by metis
  next
    case (Write cmd)
    then obtain r y where "sendWrite env p cmd (loadRetryCounts p x) = Inr (r, y)"
      "x' = finishCommand r y"
      using assms Some by (auto simp: sendCommand_def Let_def bindE_Inr_iff)
    then show ?thesis using sendWrite_reports load finish by metis
  qed
qed (use assms in \<open>simp add: sendCommand_def\<close>)

lemma finishInitialPoll_reports [simp]: "reports (finishInitialPoll env x) = reports x"
  by (simp add: finishInitialPoll_def now_def)

lemma executeSelected_reports:
  assumes "executeSelected env x = Inr (d, x')"
  shows "reports x' = reports x"
proof -
  have send: "reports y' = reports y" if "sendAndFinish env y = Inr (e, y')" for y e y'
    using that sendCommand_reports by (auto simp: sendAndFinish_def bindE_Inr_iff)
  show ?thesis
    using assms send [of x d x'] send [of "x\<lparr>ticks := Suc (ticks x)\<rparr>" d x']
    by (auto simp: executeSelected_def now_def Let_def bindE_Inr_iff split: option.splits if_splits)
qed

lemma resetCommandsCounter_reports: "resetCommandsCounter x = Inr x' \<Longrightarrow> reports x' = reports x"
  by (auto simp: resetCommandsCounter_def bindE_Inr_iff)

lemma popCurrent_reports: "popCurrent x = Inr x' \<Longrightarrow> reports x' = reports x"
  by (auto simp: popCurrent_def bindE_Inr_iff split: option.splits prod.splits)

lemma selectNext_reports:
  assumes "selectNext x = Some (Inr (b, x'))"
  shows "reports x' = reports x"
proof -
  have "reports x' = reports x"
    if "popCurrent (x\<lparr>mCurrentSlaveQueue := k\<rparr>) = Inr y" "resetCommandsCounter y = Inr x'" for k y
    using popCurrent_reports [OF that(1)] resetCommandsCounter_reports [OF that(2)] by simp
  then show ?thesis
    using assms popCurrent_reports [of x]
    by (auto simp: selectNext_def bindE_Inr_iff split: option.splits sum.splits if_splits)
qed

lemma executeNext_reports:
  assumes "executeNext env x = Some (Inr (d, x'))"
  shows "reports x' = reports x"
  using assms selectNext_reports [of x] executeSelected_reports [of env]
  by (auto simp: executeNext_def split: option.splits sum.splits if_splits)

text \<open>Nor does anything that adds commands.\<close>

lemma elect_reports: "elect per ks cd x = Some (Inr x') \<Longrightarrow> reports x' = reports x"
proof (induction per ks cd x rule: elect.induct)
  case (2 per k ks cd x)
  then show ?case
    by (auto simp: Let_def split: if_splits option.splits sum.splits prod.splits)
qed simp

lemma start_election_reports:
  assumes "start_election env k x = Some (Inr x')"
  shows "reports x' = reports x"
proof -
  let ?x = "x\<lparr>mCurrentSlaveQueue := Some k, ticks := Suc (ticks x)\<rparr>"
  obtain y z per where "resetCommandsCounter ?x = Inr y"
    "elect per (map fst (mSlaveQueues y)) duration_max y = Some (Inr z)"
    "(if mWaitingCommand z = None then popCurrent z else Inr z) = Inr x'"
    using assms
    by (auto simp: start_election_def now_def Let_def split: if_splits option.splits sum.splits)
  then show ?thesis
    using resetCommandsCounter_reports elect_reports popCurrent_reports
    by (fastforce split: if_splits)
qed

lemma addPollList_reports:
  assumes "addPollList env pr ini x = Some (Inr x')"
  shows "reports x' = reports x"
proof -
  have "reports (markInitialPoll env ini x) = reports x"
    by (simp add: markInitialPoll_def now_def)
  with assms start_election_reports [of env _ _ x'] show ?thesis
    by (auto simp: addPollList_def Let_def split: if_splits prod.splits option.splits)
qed

lemma addReadCommand_reports: "addReadCommand p x = Inr x' \<Longrightarrow> reports x' = reports x"
  by (auto simp: addReadCommand_def Let_def dest: resetCommandsCounter_reports split: if_splits)

lemma addWriteCommand_reports: "addWriteCommand p x = Inr x' \<Longrightarrow> reports x' = reports x"
  by (auto simp: addWriteCommand_def Let_def bindE_Inr_iff dest!: resetCommandsCounter_reports
      split: if_splits option.splits)

section \<open>The thread\<close>

abbreviation told :: "modbus_thread \<Rightarrow> bool list" where
  "told th \<equiv> reports (mExecutor th)"

text \<open>What handling a message leaves alone.\<close>

definition same_network :: "modbus_thread \<Rightarrow> modbus_thread \<Rightarrow> bool" where
  "same_network th th' \<longleftrightarrow> told th' = told th \<and> mModbus th' = mModbus th"

lemma same_network_refl [simp]: "same_network th th"
  by (simp add: same_network_def)

lemma same_network_trans:
  "same_network a b \<Longrightarrow> same_network b c \<Longrightarrow> same_network a c"
  by (simp add: same_network_def)

lemma same_network_now: "thNow env th = (t, th') \<Longrightarrow> same_network th th'"
  by (auto simp: thNow_eq same_network_def)

lemma allocate_network: "allocate c th = (p, th') \<Longrightarrow> same_network th th'"
  by (auto simp: allocate_def same_network_def)

lemma allocatePoll_network:
  assumes "allocatePoll env m r pm cid th = (p, th')"
  shows "same_network th th'"
proof -
  obtain t1 th1 t2 th2 where t: "thNow env th = (t1, th1)" "thNow env th1 = (t2, th2)"
    by (metis surj_pair)
  then obtain c where "allocate c th2 = (p, th')" using assms by (auto simp: allocatePoll_def)
  then show ?thesis
    using same_network_now [OF t(1)] same_network_now [OF t(2)] allocate_network
      same_network_trans by blast
qed

lemma newPolls_network: "newPolls env ms m th = (m', th') \<Longrightarrow> same_network th th'"
proof (induction env ms m th rule: newPolls.induct)
  case (2 env r ms m th)
  show ?case
  proof (cases "mRefreshMsec r = INVALID_REFRESH")
    case True
    with 2 show ?thesis by simp
  next
    case False
    obtain p th1 where p: "newPoll env r th = (p, th1)" by fastforce
    have "same_network th th1" using allocatePoll_network p by (simp add: newPoll_def)
    moreover have "same_network th1 th'" using 2 False p by auto
    ultimately show ?thesis by (rule same_network_trans)
  qed
qed simp

lemma updateWatchPeriod_network: "same_network th (updateWatchPeriod th)"
  by (simp add: updateWatchPeriod_def same_network_def Let_def)

lemma setPollSpecification_network:
  assumes "setPollSpecification env spec th = Some (Inr th')"
  shows "same_network th th'"
proof -
  obtain m th1 where n: "newPolls env (specRegisters spec) [] th = (m, th1)" by fastforce
  then obtain x where "addPollList (thEnv env) m True (mExecutor th1) = Some (Inr x)"
    and th': "th' = updateWatchPeriod (th1\<lparr>mScheduler := m, mExecutor := x\<rparr>)"
    using assms
    by (auto simp: setPollSpecification_def setupInitialPoll_def split: option.splits sum.splits)
  then have "same_network th1 (th1\<lparr>mScheduler := m, mExecutor := x\<rparr>)"
    using addPollList_reports by (simp add: same_network_def)
  then show ?thesis
    using newPolls_network [OF n] updateWatchPeriod_network th' same_network_trans by blast
qed

lemma processReadRequest_network:
  assumes "processReadRequest env m th = Inr th'"
  shows "same_network th th'"
proof -
  obtain p th1 where a: "allocatePoll env m 0 ONCE (mCommandId m) th = (p, th1)" by fastforce
  then obtain x where "addReadCommand p (mExecutor th1) = Inr x" "th' = th1\<lparr>mExecutor := x\<rparr>"
    using assms by (auto simp: processReadRequest_def bindE_Inr_iff)
  then show ?thesis
    using allocatePoll_network [OF a] addReadCommand_reports by (simp add: same_network_def)
qed

lemma processWrite_network:
  assumes "processWrite m th = Inr th'"
  shows "same_network th th'"
proof -
  obtain p th1 where a: "allocate (Write (newWrite th m)) th = (p, th1)" by fastforce
  then obtain x where "addWriteCommand p (mExecutor th1) = Inr x" "th' = th1\<lparr>mExecutor := x\<rparr>"
    using assms by (auto simp: processWrite_def bindE_Inr_iff)
  then show ?thesis
    using allocate_network [OF a] addWriteCommand_reports by (simp add: same_network_def)
qed

lemma updateFromSlaveConfig_network: "same_network th (updateFromSlaveConfig c th)"
  by (simp add: updateFromSlaveConfig_def same_network_def Let_def split: option.splits)

text \<open>A network that was just configured: nobody has tried to connect it.\<close>

definition fresh_network :: "modbus_thread \<Rightarrow> bool" where
  "fresh_network th \<longleftrightarrow>
     (\<exists>ctx. mModbus th = Some ctx \<and> \<not> mIsConnected ctx \<and> ModbusConnect \<notin> set (ctxCalls ctx))"

lemma configure_network:
  assumes "configure env c th = Inr th'"
  shows "told th' = told th \<and> fresh_network th'"
proof -
  obtain ctx where c: "context_init (thLib env) c new_ModbusContext = Inr ctx"
    using assms by (auto simp: configure_def split: sum.splits)
  have "\<not> mIsConnected ctx" "ModbusConnect \<notin> set (ctxCalls ctx)"
    using context_init_calls [OF c] by (auto simp: new_ModbusContext_def init_calls_def)
  then show ?thesis
    using assms c by (auto simp: configure_def thNow_eq fresh_network_def Let_def)
qed

text \<open>A message reconfigures the network or leaves it alone.\<close>

lemma dispatchMessage_network:
  assumes "dispatchMessage env i th = Some (Inr th')"
  shows "told th' = told th \<and> (mModbus th' = mModbus th \<or> fresh_network th')"
proof (cases i)
  case (NetworkConfigItem c)
  then show ?thesis using assms configure_network by simp
next
  case (SlaveConfigItem c)
  then show ?thesis
    using assms updateFromSlaveConfig_network [of th c] by (auto simp: same_network_def)
next
  case (MessageItem q)
  then show ?thesis
    using assms setPollSpecification_network processReadRequest_network processWrite_network
    by (cases q) (auto simp: same_network_def)
qed

lemma dispatchMessages_network:
  "dispatchMessages env is th = Some (Inr th') \<Longrightarrow>
   told th' = told th \<and> (mModbus th' = mModbus th \<or> fresh_network th')"
proof (induction "is" arbitrary: th)
  case (Cons i "is")
  then obtain th1 where i: "dispatchMessage env i th = Some (Inr th1)"
    and rest: "dispatchMessages env is th1 = Some (Inr th')"
    by (auto split: option.splits sum.splits)
  from dispatchMessage_network [OF i] Cons.IH [OF rest] show ?case
    by (auto simp: fresh_network_def)
qed simp

lemma same_network_connected: "same_network th th' \<Longrightarrow> isConnected th' = isConnected th"
  by (simp add: same_network_def isConnected_def)

section \<open>The reports are true\<close>

text \<open>The last report says whether the network is connected.\<close>

definition last_report_true :: "modbus_thread \<Rightarrow> bool" where
  "last_report_true th \<longleftrightarrow> told th \<noteq> [] \<and> last (told th) = isConnected th"

lemma networkState_told [simp]: "told (networkState up th) = told th @ [up]"
  by (simp add: networkState_def thread_sendMessage_def)

lemma networkState_connected [simp]: "isConnected (networkState up th) = isConnected th"
  by (simp add: networkState_def thread_sendMessage_def isConnected_def)

lemma executor_connected [simp]: "isConnected (th\<lparr>mExecutor := x\<rparr>) = isConnected th"
  by (simp add: isConnected_def)

lemma idle_connected [simp]: "isConnected (th\<lparr>idleWaitDuration := d\<rparr>) = isConnected th"
  by (simp add: isConnected_def)

lemma connectedStep_told:
  assumes "connectedStep env th = Some (Inr th')"
  shows "told th' = told th @ [True] \<and> isConnected th' = isConnected th"
proof -
  obtain t th2 where t: "thNow env th = (t, th2)" by fastforce
  define th3 where "th3 = networkState True (th2\<lparr>mWatchdog := watchdog_reset t (mWatchdog th2)\<rparr>)"
  have 3: "told th3 = told th @ [True]" "isConnected th3 = isConnected th"
    using same_network_now [OF t]
    by (simp_all add: th3_def same_network_def isConnected_def networkState_def thread_sendMessage_def)
  have "th' = th3 \<or> (\<exists>x. addPollList (thEnv env) (mScheduler th3) True (mExecutor th3) = Some (Inr x) \<and>
      th' = th3\<lparr>mExecutor := x\<rparr>)"
    using assms t
    by (auto simp: connectedStep_def setupInitialPoll_def th3_def Let_def
        split: if_splits option.splits sum.splits)
  then show ?thesis using 3 addPollList_reports by auto
qed

lemma connectStep_told:
  assumes "connectStep env ctx th = Some (Inr th')" and "mModbus th = Some ctx"
    and "isConnected th \<longrightarrow> last_report_true th"
  shows "isConnected th' \<longrightarrow> last_report_true th'"
proof (cases "mIsConnected ctx")
  case True
  then show ?thesis using assms by (simp add: connectStep_def)
next
  case False
  let ?th = "th\<lparr>idleWaitDuration :=
      (if idleWaitDuration th > maxReconnectTime then 0 else idleWaitDuration th),
      mModbus := Some (context_connect (thLib env) ctx)\<rparr>"
  show ?thesis
    using assms(1) False connectedStep_told [of env ?th th']
    by (auto simp: connectStep_def Let_def last_report_true_def split: if_splits)
qed

lemma executeStep_network:
  assumes "executeStep env t th = Some (Inr th')"
  shows "same_network th th'"
proof (cases "allDone (mExecutor th)")
  case True
  then show ?thesis using assms by (auto simp: executeStep_def same_network_def)
next
  case False
  then obtain d x where x: "executeNext (thEnv env) (mExecutor th) = Some (Inr (d, x))"
    and th': "(if d = 0 then commandSent env (th\<lparr>mExecutor := x, idleWaitDuration := d\<rparr>)
       else Inr (th\<lparr>mExecutor := x, idleWaitDuration := d\<rparr>)) = Inr th'"
    using assms by (auto simp: executeStep_def Let_def split: option.splits sum.splits)
  have "same_network th (th\<lparr>mExecutor := x, idleWaitDuration := d\<rparr>)"
    using executeNext_reports [OF x] by (simp add: same_network_def)
  then show ?thesis
    using th'
    by (auto simp: commandSent_def thNow_eq same_network_def Let_def
        split: if_splits option.splits command.splits)
qed

lemma scheduleStep_network:
  assumes "scheduleStep env t th = Some (Inr th')"
  shows "same_network th th'"
  using assms addPollList_reports
  by (fastforce simp: scheduleStep_def same_network_def Let_def
      split: if_splits prod.splits option.splits sum.splits)

lemma workStep_told:
  assumes "workStep env th = Some (Inr th')" and "isConnected th \<longrightarrow> last_report_true th"
  shows "last_report_true th'"
proof -
  consider (work) "isConnected th" "mMqttConnected th" | (idle) "isConnected th" "\<not> mMqttConnected th"
    | (down) "\<not> isConnected th" by blast
  then show ?thesis
  proof cases
    case work
    obtain t th1 where t: "thNow env th = (t, th1)" by fastforce
    obtain th2 where s: "scheduleStep env t th1 = Some (Inr th2)"
      and e: "executeStep env t th2 = Some (Inr th')"
      using assms(1) work t by (auto simp: workStep_def split: option.splits sum.splits)
    have "same_network th th2"
      using same_network_trans [OF same_network_now [OF t] scheduleStep_network [OF s]] .
    from same_network_trans [OF this executeStep_network [OF e]] have n: "same_network th th'" .
    show ?thesis
      using assms(2) work same_network_connected [OF n] n
      by (simp add: last_report_true_def same_network_def)
  next
    case idle
    then show ?thesis
      using assms by (auto simp: workStep_def last_report_true_def isConnected_def)
  next
    case down
    then have "told th' = told th @ [False] \<and> isConnected th' = isConnected (networkState False th)"
      using assms(1) by (auto simp: workStep_def Let_def split: if_splits)
    then show ?thesis using down by (simp add: last_report_true_def)
  qed
qed

lemma networkStep_told:
  assumes "networkStep env th = Some (Inr th')" and "isConnected th \<longrightarrow> last_report_true th"
  shows "if mModbus th = None then told th' = told th \<and> \<not> isConnected th' else last_report_true th'"
proof (cases "mModbus th")
  case None
  then show ?thesis using assms(1) by (auto simp: networkStep_def isConnected_def)
next
  case (Some ctx)
  then obtain th1 where "connectStep env ctx th = Some (Inr th1)" "workStep env th1 = Some (Inr th')"
    using assms(1) by (auto simp: networkStep_def split: option.splits sum.splits)
  then show ?thesis using connectStep_told workStep_told Some assms(2) by simp
qed

lemma waitStep_told:
  assumes "waitStep env th = Some (Inr th')" and "last_report_true th"
  shows "last_report_true th' \<or> fresh_network th'"
proof -
  obtain t th1 where t: "(if isConnected th then thNow env th else (0, th)) = (t, th1)" by fastforce
  then have n: "same_network th th1" using same_network_now by (auto split: if_splits)
  then have l: "last_report_true th1"
    using assms(2) same_network_connected [OF n] by (simp add: last_report_true_def same_network_def)
  show ?thesis
  proof (cases "isConnected th1 \<and> isReconnectRequired t (mWatchdog th1)")
    case True
    then show ?thesis
      using assms(1) t
      by (auto simp: waitStep_def thNow_eq last_report_true_def isConnected_def networkState_def
          thread_sendMessage_def context_disconnect_def split: option.splits)
  next
    case False
    then have "dispatchMessages env
        (waitDequeue env (ticks (mExecutor th1)) (idleWaitDuration th1)) th1 = Some (Inr th')"
      using assms(1) t by (auto simp: waitStep_def)
    from dispatchMessages_network [OF this] l show ?thesis
      by (auto simp: last_report_true_def isConnected_def)
  qed
qed

text \<open>The invariant: nothing is configured, nothing was tried yet, or the last report is true.\<close>

definition reports_ok :: "modbus_thread \<Rightarrow> bool" where
  "reports_ok th \<longleftrightarrow> mModbus th = None \<or> fresh_network th \<or> last_report_true th"

lemma reports_ok_connected: "reports_ok th \<Longrightarrow> isConnected th \<longrightarrow> last_report_true th"
  by (auto simp: reports_ok_def fresh_network_def isConnected_def)

lemma iteration_reports_ok:
  assumes "iteration env th = Some (Inr th')" and "reports_ok th"
  shows "reports_ok th'"
proof -
  obtain th1 where n: "networkStep env th = Some (Inr th1)" and w: "waitStep env th1 = Some (Inr th')"
    using assms(1) by (auto simp: iteration_def split: option.splits sum.splits)
  note r = reports_ok_connected [OF assms(2)]
  show ?thesis
  proof (cases "mModbus th")
    case None
    then have th1: "mModbus th1 = None" using n by (auto simp: networkStep_def)
    then have "\<not> isConnected th1" by (simp add: isConnected_def)
    then have "dispatchMessages env
        (waitDequeue env (ticks (mExecutor th1)) (idleWaitDuration th1)) th1 = Some (Inr th')"
      using w by (simp add: waitStep_def)
    from dispatchMessages_network [OF this] th1 show ?thesis by (auto simp: reports_ok_def)
  next
    case (Some ctx)
    then have "last_report_true th1" using networkStep_told [OF n r] by simp
    from waitStep_told [OF w this] show ?thesis by (auto simp: reports_ok_def)
  qed
qed

lemma reachable_reports_ok: "thread_reachable env th \<Longrightarrow> reports_ok th"
proof (induction rule: thread_reachable.induct)
  case (reach_start name w)
  then show ?case by (simp add: new_ModbusThread_def reports_ok_def now_def Let_def)
next
  case (reach_iteration th th')
  show ?case by (rule iteration_reports_ok [OF reach_iteration.hyps(3) reach_iteration.IH])
qed

text \<open>
  C24: the main thread is told the truth about the network. In every reachable state, once a
  connection of the configured network was attempted, the last state reported is whether the
  network is connected.
\<close>

theorem reported_state_is_actual:
  assumes "thread_reachable env th" and "mModbus th = Some ctx"
    and "ModbusConnect \<in> set (ctxCalls ctx)"
  shows "told th \<noteq> [] \<and> last (told th) = mIsConnected ctx"
proof -
  have "last_report_true th"
    using reachable_reports_ok [OF assms(1)] assms(2,3) by (auto simp: reports_ok_def fresh_network_def)
  then show ?thesis using assms(2) by (simp add: last_report_true_def isConnected_def)
qed

theorem reported_state_is_actual_witness:
  "\<exists>th. iterations (demo_tenv 0 [NetworkConfigItem demo_network]) 2 demo_thread = Some (Inr th) \<and>
     isConnected th \<and> told th \<noteq> [] \<and> last (told th)"
proof -
  let ?env = "demo_tenv 0 [NetworkConfigItem demo_network]"
  have "case iterations ?env 2 demo_thread of
      Some (Inr th) \<Rightarrow> (case mModbus th of
        Some ctx \<Rightarrow> ModbusConnect \<in> set (ctxCalls ctx) \<and> mIsConnected ctx | None \<Rightarrow> False)
    | _ \<Rightarrow> False"
    by code_simp
  then obtain th ctx where th: "iterations ?env 2 demo_thread = Some (Inr th)"
    and ctx: "mModbus th = Some ctx" "ModbusConnect \<in> set (ctxCalls ctx)" "mIsConnected ctx"
    by (auto split: option.splits sum.splits)
  have "told th \<noteq> [] \<and> last (told th) = mIsConnected ctx"
    by (rule reported_state_is_actual [OF iterations_reachable [OF th demo_reachable] ctx(1,2)])
  then show ?thesis
    using th ctx by (intro exI [of _ th]) (simp add: isConnected_def)
qed

section \<open>Reconnection\<close>

text \<open>A device that never answers, and a main thread that sends nothing.\<close>

definition offline :: "thread_env \<Rightarrow> bool" where
  "offline env \<longleftrightarrow> (\<forall>n. thLib env n ModbusConnect = -1) \<and> (\<forall>n d. waitDequeue env n d = [])"

definition disconnected :: "modbus_thread \<Rightarrow> bool" where
  "disconnected th \<longleftrightarrow> mShouldRun th \<and> mModbus th \<noteq> None \<and> \<not> isConnected th"

definition backoff :: "duration \<Rightarrow> duration" where
  "backoff d =
     (let d = (if d > maxReconnectTime then 0 else d)
      in if d < maxReconnectTime then d + 5 * 1000000000 else d)"

lemma iteration_offline:
  assumes "offline env" and "disconnected th"
  shows "\<exists>th'. iteration env th = Some (Inr th') \<and> disconnected th' \<and>
    idleWaitDuration th' = backoff (idleWaitDuration th) \<and> told th' = told th @ [False] \<and>
    ios (mExecutor th') = ios (mExecutor th)"
proof -
  obtain ctx where ctx: "mModbus th = Some ctx" "\<not> mIsConnected ctx"
    using assms(2) by (auto simp: disconnected_def isConnected_def)
  let ?ctx = "context_connect (thLib env) ctx"
  let ?th = "th\<lparr>idleWaitDuration :=
      (if idleWaitDuration th > maxReconnectTime then 0 else idleWaitDuration th),
      mModbus := Some ?ctx\<rparr>"
  have nc: "\<not> mIsConnected ?ctx"
    using assms(1) by (simp add: context_connect_def modbus_do_def offline_def Let_def)
  then have "connectStep env ctx th = Some (Inr ?th)"
    using ctx by (simp add: connectStep_def isConnected_def)
  moreover obtain th1 where th1: "workStep env ?th = Some (Inr th1)" "mShouldRun th1 = mShouldRun th"
    "mModbus th1 = Some ?ctx" "idleWaitDuration th1 = backoff (idleWaitDuration th)"
    "told th1 = told th @ [False]" "ios (mExecutor th1) = ios (mExecutor th)"
    using nc by (auto simp: workStep_def isConnected_def networkState_def thread_sendMessage_def
        backoff_def Let_def)
  moreover have "waitStep env th1 = Some (Inr th1)"
    using assms(1) nc th1(3) by (simp add: waitStep_def isConnected_def offline_def)
  ultimately show ?thesis
    using ctx nc assms(2)
    by (auto simp: iteration_def networkStep_def disconnected_def isConnected_def)
qed

lemma iterations_offline:
  assumes "offline env" and "disconnected th"
  shows "\<exists>th'. iterations env n th = Some (Inr th') \<and> disconnected th' \<and>
    idleWaitDuration th' = (backoff ^^ n) (idleWaitDuration th) \<and>
    told th' = told th @ replicate n False \<and> ios (mExecutor th') = ios (mExecutor th)"
proof (induction n)
  case 0
  from assms(2) show ?case by simp
next
  case (Suc n)
  then obtain th1 where th1: "iterations env n th = Some (Inr th1)" "disconnected th1"
    "idleWaitDuration th1 = (backoff ^^ n) (idleWaitDuration th)"
    "told th1 = told th @ replicate n False" "ios (mExecutor th1) = ios (mExecutor th)"
    by blast
  from iteration_offline [OF assms(1) th1(2)] obtain th' where
    th': "iteration env th1 = Some (Inr th')" "disconnected th'"
      "idleWaitDuration th' = backoff (idleWaitDuration th1)" "told th' = told th1 @ [False]"
      "ios (mExecutor th') = ios (mExecutor th1)"
    by blast
  moreover have "iterations env (Suc n) th = Some (Inr th')"
    using th1 th' by (simp add: disconnected_def)
  ultimately show ?case
    using th1 by (auto simp: replicate_append_same simp del: iterations.simps)
qed

lemma backoff_bounds: "backoff d < 65000000000" "0 \<le> d \<Longrightarrow> 5000000000 \<le> backoff d"
  by (auto simp: backoff_def maxReconnectTime_def Let_def)

lemma backoff_steps_bound: "0 \<le> d \<Longrightarrow> 5000000000 \<le> (backoff ^^ Suc n) d"
proof (induction n)
  case (Suc n)
  then have "0 \<le> (backoff ^^ Suc n) d" by simp
  from backoff_bounds(2) [OF this] show ?case by simp
qed (simp add: backoff_bounds(2))

lemma backoff_step:
  "backoff (5000000000 * k) = 5000000000 * min (k + 1) 12" if "k \<le> 12" for k :: int
  using that by (auto simp: backoff_def maxReconnectTime_def Let_def)

lemma backoff_steps:
  "k \<le> 12 \<Longrightarrow> (backoff ^^ n) (5000000000 * k) = 5000000000 * min (k + int n) 12" for k :: int
  by (induction n) (auto simp: backoff_step min_def)

lemma backoff_long: "maxReconnectTime < d \<Longrightarrow> (backoff ^^ Suc n) d = (backoff ^^ Suc n) 0"
  unfolding funpow_Suc_right by (simp add: backoff_def Let_def maxReconnectTime_def)

text \<open>
  C27: while a network cannot be connected, the thread tells the main thread after every attempt
  that it is down and touches no register, and its wait grows. Whatever it waited for before, a
  wait is below 65 seconds, and at least 5 seconds unless the former wait was negative. From a wait
  of more than a minute, as the thread has it at its start and while it waits for the broker, the
  growth starts again at 0; from 0, or from another multiple of 5 seconds up to a minute, the wait
  after the n-th attempt is longer by n times 5 seconds, up to exactly one minute.
\<close>

theorem reconnection_backs_off:
  assumes "offline env" and "disconnected th"
  shows "\<exists>th'. iterations env (Suc n) th = Some (Inr th') \<and> disconnected th' \<and>
    told th' = told th @ replicate (Suc n) False \<and> ios (mExecutor th') = ios (mExecutor th) \<and>
    idleWaitDuration th' < 65 * 1000000000 \<and>
    (let from = (if idleWaitDuration th > 60 * 1000000000 then 0 else idleWaitDuration th)
     in (0 \<le> from \<longrightarrow> 5 * 1000000000 \<le> idleWaitDuration th') \<and>
        (0 \<le> from \<and> 5 * 1000000000 dvd from \<longrightarrow>
           idleWaitDuration th' = min (from + int (Suc n) * (5 * 1000000000)) (60 * 1000000000)))"
proof -
  let ?d = "idleWaitDuration th"
  define s where "s = (if ?d > 60 * 1000000000 then 0 else ?d)"
  obtain th' where th': "iterations env (Suc n) th = Some (Inr th')" "disconnected th'"
    "idleWaitDuration th' = (backoff ^^ Suc n) ?d" "told th' = told th @ replicate (Suc n) False"
    "ios (mExecutor th') = ios (mExecutor th)"
    using iterations_offline [OF assms] by blast
  have wait: "idleWaitDuration th' = (backoff ^^ Suc n) s"
    using th'(3) backoff_long [of ?d n] by (auto simp: s_def maxReconnectTime_def simp del: funpow.simps)
  have "(backoff ^^ Suc n) s = min (s + int (Suc n) * (5 * 1000000000)) (60 * 1000000000)"
    if "0 \<le> s" "5 * 1000000000 dvd s"
  proof -
    from that(2) obtain k where k: "s = 5 * 1000000000 * k" by (rule dvdE)
    moreover have "k \<le> 12" using k by (auto simp: s_def split: if_splits)
    ultimately show ?thesis
      using backoff_steps [of k "Suc n"] by (auto simp: min_def simp del: funpow.simps)
  qed
  moreover have "(backoff ^^ Suc n) s < 65 * 1000000000" by (simp add: backoff_bounds(1))
  ultimately show ?thesis
    using th'(1,2,4,5) backoff_steps_bound [of s n] unfolding s_def [symmetric] Let_def wait [symmetric]
    by (intro exI [of _ th']) (simp del: iterations.simps)
qed

theorem reconnection_backs_off_witness:
  "\<exists>th'. iterations (demo_tenv (-1) []) (Suc 20)
        (demo_thread\<lparr>mModbus := Some new_ModbusContext\<rparr>) = Some (Inr th') \<and>
     idleWaitDuration th' = 60 * 1000000000"
proof -
  have "offline (demo_tenv (-1) [])" by (simp add: offline_def demo_tenv_def)
  moreover have "disconnected (demo_thread\<lparr>mModbus := Some new_ModbusContext\<rparr>)"
    by (simp add: disconnected_def isConnected_def new_ModbusContext_def demo_thread_def
        new_ModbusThread_def now_def Let_def)
  moreover have "idleWaitDuration (demo_thread\<lparr>mModbus := Some new_ModbusContext\<rparr>) > 60 * 1000000000"
    by (simp add: demo_thread_def new_ModbusThread_def now_def Let_def duration_max_def)
  ultimately show ?thesis
    using reconnection_backs_off [of "demo_tenv (-1) []" "demo_thread\<lparr>mModbus := Some new_ModbusContext\<rparr>" 20]
    by (auto simp: Let_def simp del: iterations.simps)
qed

end
