(* ===== verification/Thread_Commands.thy ===== *)
theory Thread_Commands
  imports Thread_Reporting
begin

text \<open>
  The commands the Modbus thread makes out of a poll specification, and when it sends commands to
  the bus.
\<close>

section \<open>Configured polls\<close>

text \<open>The slave's setting if it has one, else the network's, else none.\<close>

definition effective_delay :: "int option \<Rightarrow> int option \<Rightarrow> duration" where
  "effective_delay slave network =
     (case slave of Some d \<Rightarrow> msec d | None \<Rightarrow> (case network of Some d \<Rightarrow> msec d | None \<Rightarrow> 0))"

text \<open>The slave's count if it is positive, else the network's.\<close>

definition effective_retries :: "u16 option \<Rightarrow> u16 \<Rightarrow> u16" where
  "effective_retries slave network =
     (case slave of Some n \<Rightarrow> if n \<noteq> 0 then n else network | None \<Rightarrow> network)"

definition slave_delay :: "(slave_config \<Rightarrow> int option) \<Rightarrow> modbus_thread \<Rightarrow> int \<Rightarrow> int option" where
  "slave_delay sel th s = (case map_of (mSlaves th) s of None \<Rightarrow> None | Some cfg \<Rightarrow> sel cfg)"

definition configured :: "modbus_thread \<Rightarrow> int \<Rightarrow> 'a register_command_scheme \<Rightarrow> bool" where
  "configured th s c \<longleftrightarrow>
     mDelayBeforeCommand c =
       effective_delay (slave_delay scDelayBeforeCommand th s) (thDelayBeforeCommand th) \<and>
     mDelayBeforeFirstCommand c =
       effective_delay (slave_delay scDelayBeforeFirstCommand th s) (thDelayBeforeFirstCommand th) \<and>
     mMaxReadRetryCount c =
       effective_retries (map_option scMaxReadRetryCount (map_of (mSlaves th) s)) (thMaxReadRetryCount th) \<and>
     mMaxWriteRetryCount c =
       effective_retries (map_option scMaxWriteRetryCount (map_of (mSlaves th) s)) (thMaxWriteRetryCount th)"

lemma applySlaveConfig_configured:
  assumes "mDelayBeforeCommand c = 0" and "mDelayBeforeFirstCommand c = 0"
  shows "configured th s (applySlaveConfig th s c)"
  using assms
  by (cases "map_of (mSlaves th) s"; cases "thDelayBeforeCommand th"; cases "thDelayBeforeFirstCommand th")
    (auto simp: configured_def applySlaveConfig_def setCommandDelays_def setMaxRetryCounts_def
      effective_delay_def effective_retries_def slave_delay_def Let_def split: option.splits)

text \<open>A poll that reads what a register of the specification asks for.\<close>

definition polls_register :: "msg_register_poll \<Rightarrow> register_poll \<Rightarrow> bool" where
  "polls_register m reg \<longleftrightarrow>
     mSlaveId reg = mSlaveId m \<and> mRegister reg = mRegister m \<and>
     mRegisterType reg = mRegisterType m \<and> mCount reg = mCount m \<and>
     mRefresh reg = msec (mRefreshMsec m) \<and> pollPublishMode reg = mPublishMode m \<and>
     poll_getCount reg = int (nat (mCount m)) \<and> \<not> hasCommandId reg"

definition installed :: "modbus_thread \<Rightarrow> heap \<Rightarrow> ptr \<Rightarrow> msg_register_poll \<Rightarrow> bool" where
  "installed th h p m \<longleftrightarrow>
     (\<exists>reg. h p = Poll reg \<and> polls_register m reg \<and> configured th (mSlaveId m) reg)"

definition same_settings :: "modbus_thread \<Rightarrow> modbus_thread \<Rightarrow> bool" where
  "same_settings th th' \<longleftrightarrow>
     mSlaves th' = mSlaves th \<and> thDelayBeforeCommand th' = thDelayBeforeCommand th \<and>
     thDelayBeforeFirstCommand th' = thDelayBeforeFirstCommand th \<and>
     thMaxReadRetryCount th' = thMaxReadRetryCount th \<and>
     thMaxWriteRetryCount th' = thMaxWriteRetryCount th"

lemma configured_cong: "same_settings th th' \<Longrightarrow> configured th' s c = configured th s c"
  by (simp add: same_settings_def configured_def slave_delay_def)

lemma setCommandDelays_fields:
  "mRegister (setCommandDelays a b c) = mRegister c" "mCount (setCommandDelays a b c) = mCount c"
  "mCommandId (setCommandDelays a b c) = mCommandId c"
  by (simp_all add: setCommandDelays_def split: option.splits)

lemma setMaxRetryCounts_fields:
  "mRegister (setMaxRetryCounts a b f c) = mRegister c" "mCount (setMaxRetryCounts a b f c) = mCount c"
  "mCommandId (setMaxRetryCounts a b f c) = mCommandId c"
  by (simp_all add: setMaxRetryCounts_def Let_def)

lemma poll_fields:
  fixes c :: register_poll
  shows "mRefresh (setCommandDelays a b c) = mRefresh c"
    "pollPublishMode (setCommandDelays a b c) = pollPublishMode c"
    "mLastValues (setCommandDelays a b c) = mLastValues c"
    "mRefresh (setMaxRetryCounts d e f c) = mRefresh c"
    "pollPublishMode (setMaxRetryCounts d e f c) = pollPublishMode c"
    "mLastValues (setMaxRetryCounts d e f c) = mLastValues c"
  by (simp_all add: setCommandDelays_def setMaxRetryCounts_def Let_def split: option.splits)

lemma applySlaveConfig_poll:
  "polls_register m (applySlaveConfig th s reg) = polls_register m reg"
  by (simp add: polls_register_def applySlaveConfig_def setCommandDelays_fields
      setMaxRetryCounts_fields poll_fields poll_getCount_def hasCommandId_def Let_def split: option.splits)

lemma newPoll_installed:
  assumes "newPoll env m th = (p, th')"
  shows "installed th (cmds (mExecutor th')) p m \<and> same_settings th th'"
proof -
  obtain t1 th1 t2 th2 where t: "thNow env th = (t1, th1)" "thNow env th1 = (t2, th2)"
    by (metis surj_pair)
  define reg where "reg = new_RegisterPoll (mSlaveId m) (mRegister m) (mRegisterType m) (mCount m)
    (mRefreshMsec m) (mPublishMode m) 0 0 0 t1 t2"
  have s: "same_settings th th2" using t by (auto simp: thNow_eq same_settings_def)
  have a: "allocate (Poll (applySlaveConfig th2 (mSlaveId m) reg)) th2 = (p, th')"
    using assms t by (simp add: newPoll_def allocatePoll_def reg_def)
  have "polls_register m reg"
    by (simp add: reg_def polls_register_def new_RegisterPoll_def poll_getCount_def hasCommandId_def)
  moreover have "configured th2 (mSlaveId m) (applySlaveConfig th2 (mSlaveId m) reg)"
    by (rule applySlaveConfig_configured) (simp_all add: reg_def new_RegisterPoll_def)
  ultimately show ?thesis
    using a s by (auto simp: allocate_def store_def installed_def applySlaveConfig_poll
        configured_cong [OF s] same_settings_def)
qed

definition entries :: "register_map \<Rightarrow> int \<Rightarrow> ptr list" where
  "entries m s = (case map_of m s of None \<Rightarrow> [] | Some ps \<Rightarrow> ps)"

text \<open>The registers of a slave that are to be polled.\<close>

definition wanted :: "int \<Rightarrow> msg_register_poll list \<Rightarrow> msg_register_poll list" where
  "wanted s ms = filter (\<lambda>m. mSlaveId m = s \<and> mRefreshMsec m \<noteq> INVALID_REFRESH) ms"

lemma entries_push:
  "omap_ok m \<Longrightarrow> entries (omap_modify [] (\<lambda>l. l @ [p]) k m) s =
     (if s = k then entries m s @ [p] else entries m s)"
  by (auto simp: entries_def map_of_omap_modify split: option.splits)

lemma entries_fit: "polls_fit n m h \<Longrightarrow> p \<in> set (entries m s) \<Longrightarrow> p < n"
proof -
  assume fit: "polls_fit n m h" and p: "p \<in> set (entries m s)"
  then obtain ps where ps: "map_of m s = Some ps" "p \<in> set ps"
    by (cases "map_of m s") (auto simp: entries_def)
  from fit map_of_SomeD [OF ps(1)] ps(2) show ?thesis by (auto simp: polls_fit_def)
qed

lemma installed_mono:
  assumes "list_all2 (installed th h) ps ms" and "\<And>p. p \<in> set ps \<Longrightarrow> h' p = h p"
  shows "list_all2 (installed th h') ps ms"
  using assms by (auto simp: list_all2_conv_all_nth installed_def)

lemma newPolls_installed:
  assumes "newPolls env ms m th = (m', th')" and "thread_ok th"
    and "polls_fit (nextPtr th) m (cmds (mExecutor th))" and "same_settings th0 th"
    and "\<forall>s. list_all2 (installed th0 (cmds (mExecutor th))) (entries m s) (sofar s)"
  shows "\<forall>s. list_all2 (installed th0 (cmds (mExecutor th'))) (entries m' s) (sofar s @ wanted s ms)"
  using assms
proof (induction env ms m th arbitrary: sofar rule: newPolls.induct)
  case (1 env m th)
  then show ?case by (simp add: wanted_def)
next
  case (2 env r ms m th)
  show ?case
  proof (cases "mRefreshMsec r = INVALID_REFRESH")
    case True
    with 2 show ?thesis by (simp add: wanted_def)
  next
    case False
    obtain p th1 where p: "newPoll env r th = (p, th1)" by fastforce
    note ok = allocatePoll_ok [OF "2.prems"(2) p [unfolded newPoll_def]]
    note ins = newPoll_installed [OF p]
    let ?m = "omap_modify [] (\<lambda>l. l @ [p]) (mSlaveId r) m"
    have om: "omap_ok m" using "2.prems"(3) by (simp add: polls_fit_def)
    have fit: "polls_fit (nextPtr th1) ?m (cmds (mExecutor th1))"
      using ok polls_fit_mono [OF "2.prems"(3)] by (intro polls_fit_push) auto
    have set: "same_settings th0 th1" using ins "2.prems"(4) by (simp add: same_settings_def)
    have new: "installed th0 (cmds (mExecutor th1)) p r"
      using ins "2.prems"(4) by (auto simp: installed_def configured_cong [OF "2.prems"(4)])
    have old: "list_all2 (installed th0 (cmds (mExecutor th1))) (entries m s) (sofar s)" for s
    proof (rule installed_mono)
      show "list_all2 (installed th0 (cmds (mExecutor th))) (entries m s) (sofar s)"
        using "2.prems"(5) by blast
      show "cmds (mExecutor th1) q = cmds (mExecutor th) q" if "q \<in> set (entries m s)" for q
        using entries_fit [OF "2.prems"(3) that] ok by blast
    qed
    have "\<forall>s. list_all2 (installed th0 (cmds (mExecutor th1))) (entries ?m s)
        (if s = mSlaveId r then sofar s @ [r] else sofar s)"
      using old new by (auto simp: entries_push [OF om] list_all2_appendI)
    from "2.IH"(1) [OF False p [symmetric] refl _ _ fit set this] "2.prems"(1) False p ok
    show ?thesis by (auto simp: wanted_def split: if_splits)
  qed
qed

text \<open>
  C25: a poll specification is installed as given. Afterwards the scheduler holds for every slave,
  in the order of the specification, one poll per register that has a refresh time. It reads that
  register at that interval, waits for the delay of the slave, or else of the network, and is
  retried as often as the slave says, or else the network; a count of 0 of the slave counts as not
  said.
\<close>

theorem poll_specification_installed:
  assumes "thread_reachable env th" and "env_ok env"
    and "setPollSpecification env spec th = Some (Inr th')"
  shows "list_all2 (installed th (cmds (mExecutor th'))) (entries (mScheduler th') s)
    (wanted s (specRegisters spec))"
proof -
  have ok: "thread_ok th" using reachable_thread_ok [OF assms(1,2)] .
  obtain m th1 where n: "newPolls env (specRegisters spec) [] th = (m, th1)" by fastforce
  have fit: "polls_fit (nextPtr th) [] (cmds (mExecutor th))" by (simp add: polls_fit_def)
  note ok1 = newPolls_ok [OF ok fit n]
  have "list_all2 (installed th (cmds (mExecutor th1))) (entries m s) (wanted s (specRegisters spec))"
    using newPolls_installed [OF n ok fit, of th "\<lambda>_. []"]
    by (simp add: same_settings_def entries_def)
  moreover obtain lib clk where e: "thEnv env = libmodbus_env lib clk"
    using assms(2) by (auto simp: env_ok_def)
  moreover obtain x where x: "addPollList (thEnv env) m True (mExecutor th1) = Some (Inr x)"
    and th': "th' = updateWatchPeriod (th1\<lparr>mScheduler := m, mExecutor := x\<rparr>)"
    using assms(3) n
    by (auto simp: setPollSpecification_def setupInitialPoll_def split: option.splits sum.splits)
  moreover have "cmds x = cmds (mExecutor th1)"
    using libmodbus_ctx.addPollList_fits [of "nextPtr th1" "mExecutor th1" m lib clk True] ok1 x e
    by (auto simp: thread_ok_def)
  ultimately show ?thesis by (simp add: updateWatchPeriod_def Let_def)
qed

theorem poll_specification_installed_witness:
  "\<exists>th'. setPollSpecification (demo_tenv 0 []) demo_spec demo_thread = Some (Inr th') \<and>
     list_all2 (installed demo_thread (cmds (mExecutor th'))) (entries (mScheduler th') 1)
       (wanted 1 (specRegisters demo_spec))"
proof -
  have ok: "env_ok (demo_tenv 0 [])" by (rule demo_tenv_ok) simp
  have e: "thEnv (demo_tenv 0 []) = libmodbus_env (demo_lib 1) (\<lambda>n. int n * 1000000000)"
    by (simp add: demo_tenv_def demo_env_def)
  have "thread_ok demo_thread" by (rule reachable_thread_ok [OF demo_reachable ok])
  from libmodbus_ctx.setPollSpecification_good [OF this e, of demo_spec]
  obtain th' where th': "setPollSpecification (demo_tenv 0 []) demo_spec demo_thread = Some (Inr th')"
    by (rule good_or_cases) auto
  show ?thesis
    by (intro exI conjI) (rule th', rule poll_specification_installed [OF demo_reachable ok th'])
qed

section \<open>Use of the bus\<close>

abbreviation requests :: "modbus_thread \<Rightarrow> nat" where
  "requests th \<equiv> ios (mExecutor th)"

lemma resetCommandsCounter_ios: "resetCommandsCounter x = Inr x' \<Longrightarrow> ios x' = ios x"
  by (auto simp: resetCommandsCounter_def bindE_Inr_iff)

lemma addReadCommand_ios: "addReadCommand p x = Inr x' \<Longrightarrow> ios x' = ios x"
  by (auto simp: addReadCommand_def Let_def dest: resetCommandsCounter_ios split: if_splits)

lemma addWriteCommand_ios: "addWriteCommand p x = Inr x' \<Longrightarrow> ios x' = ios x"
  by (auto simp: addWriteCommand_def Let_def bindE_Inr_iff dest!: resetCommandsCounter_ios
      split: if_splits option.splits)

lemma allocatePoll_ios:
  "allocatePoll env m r pm cid th = (p, th') \<Longrightarrow> requests th' = requests th"
  by (auto simp: allocatePoll_def thNow_eq allocate_def store_def Let_def)

lemma newPolls_ios: "newPolls env ms m th = (m', th') \<Longrightarrow> requests th' = requests th"
proof (induction env ms m th rule: newPolls.induct)
  case (2 env r ms m th)
  obtain p th1 where "newPoll env r th = (p, th1)" by fastforce
  with 2 allocatePoll_ios [of env r _ _ _ th p th1] show ?case
    by (auto simp: newPoll_def split: if_splits)
qed simp

lemma networkState_ios [simp]: "requests (networkState up th) = requests th"
  by (simp add: networkState_def thread_sendMessage_def)

context modbus_context
begin

lemma setPollSpecification_ios:
  assumes "setPollSpecification tenv spec th = Some (Inr th')" and "thread_ok th"
    and env: "thEnv tenv = env"
  shows "requests th' = requests th"
proof -
  obtain m th1 where n: "newPolls tenv (specRegisters spec) [] th = (m, th1)" by fastforce
  have "polls_fit (nextPtr th) [] (cmds (mExecutor th))" by (simp add: polls_fit_def)
  note ok1 = newPolls_ok [OF assms(2) this n]
  obtain x where x: "addPollList env m True (mExecutor th1) = Some (Inr x)"
    and th': "th' = updateWatchPeriod (th1\<lparr>mScheduler := m, mExecutor := x\<rparr>)"
    using assms(1) n env
    by (auto simp: setPollSpecification_def setupInitialPoll_def split: option.splits sum.splits)
  have "ios x = requests th1"
    using addPollList_fits [of "nextPtr th1" "mExecutor th1" m True] ok1 x by (auto simp: thread_ok_def)
  then show ?thesis using newPolls_ios [OF n] th' by (simp add: updateWatchPeriod_def Let_def)
qed

lemma dispatchMessage_ios:
  assumes "dispatchMessage tenv i th = Some (Inr th')" and "thread_ok th" and env: "thEnv tenv = env"
  shows "requests th' = requests th"
proof (cases i)
  case (NetworkConfigItem c)
  then show ?thesis
    using assms(1) by (auto simp: configure_def thNow_eq Let_def split: sum.splits)
next
  case (SlaveConfigItem c)
  then show ?thesis
    using assms(1) by (auto simp: updateFromSlaveConfig_def Let_def split: option.splits)
next
  case (MessageItem q)
  have r: "requests th' = requests th" if "processReadRequest tenv m th = Inr th'" for m
    using that allocatePoll_ios addReadCommand_ios
    by (fastforce simp: processReadRequest_def bindE_Inr_iff split: prod.splits)
  have w: "requests th' = requests th" if "processWrite m th = Inr th'" for m
    using that addWriteCommand_ios
    by (fastforce simp: processWrite_def allocate_def store_def bindE_Inr_iff)
  show ?thesis
    using MessageItem assms(1) setPollSpecification_ios [OF _ assms(2) env] r w by (cases q) auto
qed

lemma dispatchMessages_ios:
  assumes env: "thEnv tenv = env"
  shows "dispatchMessages tenv is th = Some (Inr th') \<Longrightarrow> thread_ok th \<Longrightarrow>
    \<forall>i \<in> set is. item_ok i \<Longrightarrow> requests th' = requests th"
proof (induction "is" arbitrary: th)
  case (Cons i "is")
  then obtain th1 where i: "dispatchMessage tenv i th = Some (Inr th1)"
    and rest: "dispatchMessages tenv is th1 = Some (Inr th')"
    by (auto split: option.splits sum.splits)
  have "item_ok i" using Cons.prems(3) by simp
  from dispatchMessage_good [OF Cons.prems(2) this env] i have "thread_ok th1" by simp
  with Cons.IH [OF rest] Cons.prems(3) dispatchMessage_ios [OF i Cons.prems(2) env]
  show ?case by simp
qed simp

lemma connectStep_ios:
  assumes "connectStep tenv ctx th = Some (Inr th')" and "thread_ok th" and env: "thEnv tenv = env"
  shows "requests th' = requests th \<and> mMqttConnected th' = mMqttConnected th"
proof -
  have c: "requests b = requests a \<and> mMqttConnected b = mMqttConnected a"
    if "connectedStep tenv a = Some (Inr b)" "thread_ok a" for a b
  proof -
    obtain t a2 where t: "thNow tenv a = (t, a2)" by fastforce
    define a3 where "a3 = networkState True (a2\<lparr>mWatchdog := watchdog_reset t (mWatchdog a2)\<rparr>)"
    have ok: "thread_ok a3" using that(2) thread_ok_now [OF t] by (simp add: a3_def)
    then have fit: "polls_fit (nextPtr a3) (mScheduler a3) (cmds (mExecutor a3))"
      by (simp add: thread_ok_def)
    have 3: "requests a3 = requests a" "mMqttConnected a3 = mMqttConnected a"
      using t by (auto simp: a3_def thNow_eq networkState_def thread_sendMessage_def)
    have "b = a3 \<or> (\<exists>x. addPollList env (mScheduler a3) True (mExecutor a3) = Some (Inr x) \<and>
        b = a3\<lparr>mExecutor := x\<rparr>)"
      using that(1) t env
      by (auto simp: connectedStep_def setupInitialPoll_def a3_def Let_def
          split: if_splits option.splits sum.splits)
    then show ?thesis using 3 thread_addPollList [OF ok fit, of True] by auto
  qed
  show ?thesis
    using assms(1,2) c [of "th\<lparr>idleWaitDuration :=
      (if idleWaitDuration th > maxReconnectTime then 0 else idleWaitDuration th),
      mModbus := Some (context_connect (thLib tenv) ctx)\<rparr>" th']
    by (auto simp: connectStep_def Let_def split: if_splits)
qed

lemma networkStep_ios:
  assumes "networkStep tenv th = Some (Inr th')" and "thread_ok th" and env: "thEnv tenv = env"
    and down: "\<not> mMqttConnected th"
  shows "requests th' = requests th"
proof (cases "mModbus th")
  case None
  then show ?thesis using assms(1) by (auto simp: networkStep_def)
next
  case (Some ctx)
  then obtain th1 where c: "connectStep tenv ctx th = Some (Inr th1)"
    and w: "workStep tenv th1 = Some (Inr th')"
    using assms(1) by (auto simp: networkStep_def split: option.splits sum.splits)
  from connectStep_ios [OF c assms(2) env] w down show ?thesis
    by (auto simp: workStep_def Let_def split: if_splits)
qed

lemma iteration_ios:
  assumes "iteration tenv th = Some (Inr th')" and "thread_ok th" and env: "thEnv tenv = env"
    and items: "\<forall>n d. \<forall>i \<in> set (waitDequeue tenv n d). item_ok i" and down: "\<not> mMqttConnected th"
  shows "requests th' = requests th"
proof -
  obtain th1 where n: "networkStep tenv th = Some (Inr th1)" and w: "waitStep tenv th1 = Some (Inr th')"
    using assms(1) by (auto simp: iteration_def split: option.splits sum.splits)
  have ok1: "thread_ok th1" using networkStep_good [OF assms(2) env] n by simp
  obtain t th2 where t: "(if isConnected th1 then thNow tenv th1 else (0, th1)) = (t, th2)" by fastforce
  have 2: "thread_ok th2" "requests th2 = requests th1"
    using t ok1 thread_ok_now [of tenv th1 t th2] by (auto simp: thNow_eq split: if_splits)
  have "requests th' = requests th2"
  proof (cases "isConnected th2 \<and> isReconnectRequired t (mWatchdog th2)")
    case True
    then show ?thesis using w t by (auto simp: waitStep_def thNow_eq)
  next
    case False
    then have "dispatchMessages tenv
        (waitDequeue tenv (ticks (mExecutor th2)) (idleWaitDuration th2)) th2 = Some (Inr th')"
      using w t by (auto simp: waitStep_def)
    from dispatchMessages_ios [OF env this 2(1)] items show ?thesis by blast
  qed
  then show ?thesis using 2 networkStep_ios [OF n assms(2) env down] by simp
qed

end

text \<open>
  C26: no register is read or written while the MQTT broker is away. An iteration that starts
  with the MQTT network down makes no request to the bus, whatever messages arrive in it.
\<close>

theorem bus_is_silent_without_mqtt:
  assumes "thread_reachable env th" and "env_ok env" and "\<not> mMqttConnected th"
    and "iteration env th = Some (Inr th')"
  shows "ios (mExecutor th') = ios (mExecutor th)"
proof -
  obtain lib clk where e: "thEnv env = libmodbus_env lib clk"
    using assms(2) by (auto simp: env_ok_def)
  have "\<forall>n d. \<forall>i \<in> set (waitDequeue env n d). item_ok i"
    using assms(2) by (simp add: env_ok_def list_all_iff)
  from libmodbus_ctx.iteration_ios [OF assms(4) reachable_thread_ok [OF assms(1,2)] e this assms(3)]
  show ?thesis .
qed

theorem bus_is_silent_without_mqtt_witness:
  "\<exists>th'. iteration (demo_tenv 0 [NetworkConfigItem demo_network]) demo_thread = Some (Inr th') \<and>
     ios (mExecutor th') = 0"
proof -
  let ?env = "demo_tenv 0 [NetworkConfigItem demo_network]"
  have ok: "env_ok ?env" by (rule demo_tenv_ok) simp
  have "case iteration ?env demo_thread of Some (Inr _) \<Rightarrow> True | _ \<Rightarrow> False" by code_simp
  then obtain th' where th': "iteration ?env demo_thread = Some (Inr th')"
    by (auto split: option.splits sum.splits)
  have "\<not> mMqttConnected demo_thread" "ios (mExecutor demo_thread) = 0"
    by (simp_all add: demo_thread_def new_ModbusThread_def now_def Let_def new_executor_def demo_world_def)
  with bus_is_silent_without_mqtt [OF demo_reachable ok _ th'] th' show ?thesis by auto
qed

end
