(* ===== verification/Mqtt_Value.thy ===== *)
theory Mqtt_Value
  imports Gateway_Config
begin

text \<open>
  \<open>libmodmqttconv/mqttvalue.hpp\<close>, the value type converters exchange, and
  \<open>default_command_converter.cpp\<close>, the converter of commands that name none. A \<open>double\<close> is its
  64 bits; only its conversion to an integer is modelled. JSON documents are the data model of
  rapidjson; its parser is a parameter.
\<close>

section \<open>Integers and doubles\<close>

text \<open>Conversion to a narrower signed integer keeps the low bits.\<close>

definition to_int32 :: "int \<Rightarrow> int" where
  "to_int32 v = (v + 2 ^ 31) mod 2 ^ 32 - 2 ^ 31"

lemma to_int32_bounds: "INT_MIN \<le> to_int32 v \<and> to_int32 v \<le> INT_MAX"
  using pos_mod_bound [of "2 ^ 32" "v + 2 ^ 31"] pos_mod_sign [of "2 ^ 32" "v + 2 ^ 31"]
  by (simp add: to_int32_def INT_MIN_def INT_MAX_def)

lemma to_int32_id: "in_int v \<Longrightarrow> to_int32 v = v"
  by (simp add: to_int32_def in_int_def INT_MIN_def INT_MAX_def)

type_synonym double_bits = "64 word"

text \<open>The integer part of a finite double, without a limit; \<open>None\<close> for infinities and NaN.\<close>

definition double_trunc :: "double_bits \<Rightarrow> int option" where
  "double_trunc d =
     (let e = uint d div 2 ^ 52 mod 2 ^ 11;
          m = uint d mod 2 ^ 52;
          magnitude =
            (if e = 0 then 0
             else if e \<ge> 1075 then (2 ^ 52 + m) * 2 ^ nat (e - 1075)
             else (2 ^ 52 + m) div 2 ^ nat (1075 - e))
      in if e = 2047 then None
         else Some (if uint d \<ge> 2 ^ 63 then - magnitude else magnitude))"

text \<open>A conversion whose result does not fit is undefined behaviour.\<close>

definition double_to_int :: "int \<Rightarrow> int \<Rightarrow> double_bits \<Rightarrow> cpp_exn + int" where
  "double_to_int lo hi d =
     (case double_trunc d of
        None \<Rightarrow> Inl Undefined
      | Some v \<Rightarrow> if lo \<le> v \<and> v \<le> hi then Inr v else Inl Undefined)"

definition LONG_MAX :: int where "LONG_MAX = 2 ^ 63 - 1"
definition LONG_MIN :: int where "LONG_MIN = - (2 ^ 63)"

text \<open>
  \<open>strtol\<close> and \<open>strtoll\<close> of a whole C string: the value, clamped to 64 bits, if the string ends
  after it. Without any digit nothing is consumed, which is the end only of an empty string.
\<close>

definition strtol_all :: "nat \<Rightarrow> string \<Rightarrow> int option" where
  "strtol_all base s =
     (case strtol base (c_str s) of
        None \<Rightarrow> if c_str s = [] then Some 0 else None
      | Some (v, pos) \<Rightarrow>
          if pos = length (c_str s) then Some (max LONG_MIN (min LONG_MAX v)) else None)"

section \<open>Values\<close>

datatype mqtt_value =
    IntValue int
  | DoubleValue double_bits int
  | BinaryValue string
  | Int64Value int

definition NO_PRECISION :: int where
  "NO_PRECISION = -1"

definition fromString :: "string \<Rightarrow> mqtt_value" where
  "fromString s = BinaryValue (c_str s)"

fun getInt :: "mqtt_value \<Rightarrow> cpp_exn + int" where
  "getInt (BinaryValue s) =
     (case strtol_all 0 s of
        None \<Rightarrow> Inl (ConvException (''Cannot convert '' @ s @ '' to int''))
      | Some v \<Rightarrow> Inr (to_int32 v))"
| "getInt (IntValue v) = Inr v"
| "getInt (Int64Value v) = Inr (to_int32 v)"
| "getInt (DoubleValue d p) = double_to_int INT_MIN INT_MAX d"

definition UINT16_MAX :: int where
  "UINT16_MAX = 65535"

definition getUInt16 :: "mqtt_value \<Rightarrow> cpp_exn + u16" where
  "getUInt16 x =
     bindE (getInt x) (\<lambda>val.
       if val < 0 \<or> val > UINT16_MAX
       then Inl (ConvException (''Conversion failed, value '' @ to_string val @ '' out of range''))
       else Inr (of_int val))"

fun getInt64 :: "mqtt_value \<Rightarrow> cpp_exn + int" where
  "getInt64 (BinaryValue s) =
     (case strtol_all 10 s of
        None \<Rightarrow> Inl (ConvException (''Cannot convert '' @ s @ '' to int64''))
      | Some v \<Rightarrow> Inr v)"
| "getInt64 (IntValue v) = Inr v"
| "getInt64 (Int64Value v) = Inr v"
| "getInt64 (DoubleValue d p) = double_to_int LONG_MIN LONG_MAX d"

text \<open>\<open>format\<close> is the printer of doubles, a parameter.\<close>

fun getString :: "(double_bits \<Rightarrow> int \<Rightarrow> string) \<Rightarrow> mqtt_value \<Rightarrow> string" where
  "getString format (BinaryValue s) = s"
| "getString format (IntValue v) = to_string v"
| "getString format (Int64Value v) = to_string v"
| "getString format (DoubleValue d p) = format d p"

fun getBinarySize :: "mqtt_value \<Rightarrow> nat" where
  "getBinarySize (BinaryValue s) = length s"
| "getBinarySize (IntValue _) = 4"
| "getBinarySize (DoubleValue _ _) = 8"
| "getBinarySize (Int64Value _) = 8"

section \<open>Converters\<close>

text \<open>
  \<open>libmodmqttconv/converter.hpp\<close>: an instance of a converter with its arguments set, as the pair of
  its conversions. The base class throws \<open>std::logic_error\<close> for a direction that is not implemented.
\<close>

record data_converter =
  toMqtt :: "u16 list \<Rightarrow> cpp_exn + mqtt_value"
  toModbus :: "mqtt_value \<Rightarrow> int \<Rightarrow> cpp_exn + u16 list"

definition base_converter :: data_converter where
  "base_converter =
     \<lparr>toMqtt = (\<lambda>_. Inl (LogicError ''Conversion to mqtt value is not implemented'')),
      toModbus = (\<lambda>_ _. Inl (LogicError ''Conversion to modbus register values is not implemented''))\<rparr>"

section \<open>JSON documents\<close>

datatype json =
    JNull
  | JBool bool
  | JInt int
  | JDouble double_bits
  | JString string
  | JArray "json list"
  | JObject "(string \<times> json) list"

text \<open>The type predicates of \<open>rapidjson::Value\<close> on integers.\<close>

fun json_IsInt :: "json \<Rightarrow> bool" where
  "json_IsInt (JInt v) = in_int v"
| "json_IsInt _ = False"

fun json_IsUint :: "json \<Rightarrow> bool" where
  "json_IsUint (JInt v) = (0 \<le> v \<and> v < 2 ^ 32)"
| "json_IsUint _ = False"

fun json_IsInt64 :: "json \<Rightarrow> bool" where
  "json_IsInt64 (JInt v) = (LONG_MIN \<le> v \<and> v \<le> LONG_MAX)"
| "json_IsInt64 _ = False"

fun json_IsUint64 :: "json \<Rightarrow> bool" where
  "json_IsUint64 (JInt v) = (0 \<le> v \<and> v < 2 ^ 64)"
| "json_IsUint64 _ = False"

fun json_int :: "json \<Rightarrow> int" where
  "json_int (JInt v) = v"
| "json_int _ = 0"

section \<open>The default converter\<close>

definition command_to_uint16 :: "int \<Rightarrow> cpp_exn + u16" where
  "command_to_uint16 val =
     (if val \<le> UINT16_MAX \<and> val \<ge> 0 then Inr (of_int val)
      else Inl (ConvException (''Conversion failed, register value '' @ to_string val @ '' out of range'')))"

text \<open>
  \<open>GetInt\<close> of an element that is not an \<open>int\<close> is a failed assertion of rapidjson, or an arbitrary
  value where assertions are off.
\<close>

fun json_registers :: "json list \<Rightarrow> cpp_exn + u16 list" where
  "json_registers [] = Inr []"
| "json_registers (jv # js) =
     (if json_IsInt jv then
        bindE (command_to_uint16 (json_int jv)) (\<lambda>r. bindE (json_registers js) (\<lambda>rs. Inr (r # rs)))
      else Inl Undefined)"

text \<open>\<open>parse\<close> is \<open>rapidjson::Document::Parse\<close>, \<open>None\<close> for a parse error.\<close>

definition parseAsJson :: "(string \<Rightarrow> json option) \<Rightarrow> string \<Rightarrow> int \<Rightarrow> cpp_exn + u16 list" where
  "parseAsJson parse jsonData registerCount =
     (case parse (c_str jsonData) of
        Some (JArray js) \<Rightarrow>
          if int (length js) \<noteq> registerCount
          then Inl (ConvException (''Wrong json array size ('' @ to_string (int (length js)) @
                 ''), need '' @ to_string registerCount))
          else json_registers js
      | _ \<Rightarrow> Inl (ConvException ''Only json array is supported when converting to multiple registers''))"

definition default_toModbus ::
  "(double_bits \<Rightarrow> int \<Rightarrow> string) \<Rightarrow> (string \<Rightarrow> json option) \<Rightarrow> mqtt_value \<Rightarrow> int
    \<Rightarrow> cpp_exn + u16 list" where
  "default_toModbus format parse value registerCount =
     (if registerCount > 1 then parseAsJson parse (getString format value) registerCount
      else
        bindE (getInt value) (\<lambda>temp.
          if temp \<le> UINT16_MAX \<and> temp \<ge> 0 then Inr [of_int temp]
          else Inl (ConvException (''Conversion failed, value '' @ to_string temp @ '' out of range''))))"

section \<open>Properties\<close>

lemma json_registers_ok:
  "json_registers js = Inr rs \<Longrightarrow>
   length rs = length js \<and> (\<forall>i < length js. json_int (js ! i) = int (unat (rs ! i)))"
proof (induction js arbitrary: rs)
  case (Cons j js)
  then obtain r rs' where r: "command_to_uint16 (json_int j) = Inr r"
    and rs: "json_registers js = Inr rs'" "rs = r # rs'"
    by (auto simp: fault_simps split: if_splits)
  have "json_int j = int (unat r)"
    using r by (auto simp: command_to_uint16_def UINT16_MAX_def unsigned_of_int
        take_bit_int_eq_self split: if_splits)
  with Cons.IH [OF rs(1)] rs(2) show ?case by (auto simp: nth_Cons split: nat.splits)
qed simp

lemma c_str_to_string: "c_str (to_string v) = to_string v"
proof -
  have "c \<noteq> CHR 0x00" if "c \<in> set (nat_string n)" for c n
    using that nat_string_digits [of n] by (auto simp: list_all_iff is_digit_code)
  then have "\<forall>c \<in> set (to_string v). c \<noteq> CHR 0x00"
    by (auto simp: to_string_def)
  then show ?thesis by (simp add: c_str_def takeWhile_eq_all_conv)
qed

end
