(* ===== verification/Mqtt_Object.thy ===== *)
theory Mqtt_Object
  imports Mqtt_Value Register_Commands
begin

text \<open>
  \<open>mqttobject.hpp\<close> and \<open>.cpp\<close>: an MQTT object is a tree of data nodes whose leaves mirror Modbus
  registers, with a flag that tells whether its state is known. A converter is a function from
  raw registers to a value that may throw.

  \<open>mIdent\<close> is set for every leaf before the tree is used; inner nodes have one too here and
  ignore it.
\<close>

section \<open>Registers\<close>

record reg_ident =
  idNetworkName :: string
  idSlaveId :: int
  idRegisterNumber :: int
  idRegisterType :: register_type

record reg_value =
  mReadOk :: bool
  mHasValue :: bool
  mRawValue :: u16

definition new_value :: reg_value where
  "new_value = \<lparr>mReadOk = True, mHasValue = False, mRawValue = 0\<rparr>"

definition setValue :: "u16 \<Rightarrow> reg_value \<Rightarrow> bool \<times> reg_value" where
  "setValue val v =
     (let hadValue = mHasValue v;
          v = v\<lparr>mHasValue := True\<rparr>
      in if mRawValue v \<noteq> val then (True, v\<lparr>mRawValue := val\<rparr>) else (\<not> hadValue, v))"

definition setReadError :: "bool \<Rightarrow> reg_value \<Rightarrow> reg_value" where
  "setReadError pFlag v = v\<lparr>mReadOk := \<not> pFlag\<rparr>"

definition same_slave :: "string \<Rightarrow> 'a modbus_msg_scheme \<Rightarrow> reg_ident \<Rightarrow> bool" where
  "same_slave net m i \<longleftrightarrow>
     mSlaveId m = idSlaveId i \<and> mRegisterType m = idRegisterType i \<and> net = idNetworkName i"

text \<open>
  What a message does to one leaf. The index is a \<open>uint16_t\<close>.
\<close>

definition leaf_values ::
  "string \<Rightarrow> msg_register_values \<Rightarrow> reg_ident \<Rightarrow> reg_value \<Rightarrow> bool \<times> reg_value" where
  "leaf_values net m i v =
     (if same_slave net m i \<and> idRegisterNumber i \<ge> mRegister m \<and>
         idRegisterNumber i \<le> lastRegister m
      then
        let idx = unat (of_int (idRegisterNumber i - mRegister m) :: u16);
            (ret, v) = setValue (mRegisters m ! idx) v
        in (ret, setReadError False v)
      else (False, v))"

definition leaf_failed ::
  "string \<Rightarrow> 'a modbus_msg_scheme \<Rightarrow> reg_ident \<Rightarrow> reg_value \<Rightarrow> bool \<times> reg_value" where
  "leaf_failed net m i v =
     (if same_slave net m i \<and>
         uint (of_int \<bar>idRegisterNumber i - mRegister m\<bar> :: u16) < mCount m
      then (True, setReadError True v) else (False, v))"

definition leaf_network :: "string \<Rightarrow> bool \<Rightarrow> reg_ident \<Rightarrow> reg_value \<Rightarrow> bool \<times> reg_value" where
  "leaf_network net isUp i v =
     (if net = idNetworkName i \<and> mReadOk v \<noteq> isUp then (True, setReadError (\<not> isUp) v)
      else (False, v))"

section \<open>Data nodes\<close>

type_synonym converter = "u16 list \<Rightarrow> cpp_exn + mqtt_value"

datatype data_node =
  DataNode (keyName: string) (childNodes: "data_node list") (forceListOutput: bool)
    (ident: reg_ident) (leafValue: reg_value) (nodeConverter: "converter option")

definition isScalar :: "data_node \<Rightarrow> bool" where
  "isScalar n \<longleftrightarrow> childNodes n = []"

definition isUnnamed :: "data_node \<Rightarrow> bool" where
  "isUnnamed n \<longleftrightarrow> keyName n = []"

definition hasConverter :: "data_node \<Rightarrow> bool" where
  "hasConverter n \<longleftrightarrow> nodeConverter n \<noteq> None"

text \<open>
  \<open>updateRegisterValues\<close>, \<open>updateRegistersReadFailed\<close> and \<open>setModbusNetworkState\<close> walk the tree
  in the same way and tell whether a leaf reported a change.
\<close>

fun walk ::
  "(reg_ident \<Rightarrow> reg_value \<Rightarrow> bool \<times> reg_value) \<Rightarrow> data_node \<Rightarrow> bool \<times> data_node" where
  "walk f (DataNode name ns forced i v conv) =
     (if ns \<noteq> [] then
        (let rs = map (walk f) ns
         in (list_ex fst rs, DataNode name (map snd rs) forced i v conv))
      else (let (ret, v) = f i v in (ret, DataNode name ns forced i v conv)))"

definition node_updateRegisterValues ::
  "string \<Rightarrow> msg_register_values \<Rightarrow> data_node \<Rightarrow> bool \<times> data_node" where
  "node_updateRegisterValues net m n = walk (leaf_values net m) n"

definition node_updateRegistersReadFailed ::
  "string \<Rightarrow> 'a modbus_msg_scheme \<Rightarrow> data_node \<Rightarrow> bool \<times> data_node" where
  "node_updateRegistersReadFailed net m n = walk (leaf_failed net m) n"

definition node_setModbusNetworkState :: "string \<Rightarrow> bool \<Rightarrow> data_node \<Rightarrow> bool \<times> data_node" where
  "node_setModbusNetworkState net isUp n = walk (leaf_network net isUp) n"

fun node_isPolling :: "data_node \<Rightarrow> bool" where
  "node_isPolling (DataNode name ns forced i v conv) =
     (if ns = [] then mReadOk v else list_all node_isPolling ns)"

fun node_hasAllValues :: "data_node \<Rightarrow> bool" where
  "node_hasAllValues (DataNode name ns forced i v conv) =
     (if ns = [] then mHasValue v else list_all node_hasAllValues ns)"

definition asModbusAddressRange :: "reg_ident \<Rightarrow> addr_range" where
  "asModbusAddressRange i =
     \<lparr>mRegister = idRegisterNumber i, mCount = 1, mRegisterType = idRegisterType i\<rparr>"

fun node_hasRegisterIn :: "string \<Rightarrow> 'a modbus_msg_scheme \<Rightarrow> data_node \<Rightarrow> bool" where
  "node_hasRegisterIn net m (DataNode name ns forced i v conv) =
     (if ns = [] then
        (if idSlaveId i \<noteq> mSlaveId m then False
         else if \<not> overlaps m (asModbusAddressRange i) then False
         else if idNetworkName i \<noteq> net then False else True)
      else list_ex (node_hasRegisterIn net m) ns)"

text \<open>
  \<open>getRawValue\<close> asserts that the node is a leaf. A failed assertion ends the program; like undefined
  behaviour it is a value that no handler catches.
\<close>

definition getRawValue :: "data_node \<Rightarrow> cpp_exn + u16" where
  "getRawValue n = (if isScalar n then Inr (mRawValue (leafValue n)) else Inl Undefined)"

definition getConvertedValue :: "data_node \<Rightarrow> cpp_exn + mqtt_value" where
  "getConvertedValue n =
     (case nodeConverter n of
        Some conv \<Rightarrow>
          bindE
            (if isScalar n then bindE (getRawValue n) (\<lambda>r. Inr [r])
             else foldE (\<lambda>child data. bindE (getRawValue child) (\<lambda>r. Inr (data @ [r])))
                    (childNodes n) [])
            conv
      | None \<Rightarrow> Inr (IntValue (uint (mRawValue (leafValue n)))))"

lemma child_values:
  "foldE (\<lambda>child data. bindE (getRawValue child) (\<lambda>r. Inr (data @ [r]))) ns data =
     (if list_all isScalar ns then Inr (data @ map (\<lambda>n. mRawValue (leafValue n)) ns)
      else Inl Undefined)"
  by (induction ns arbitrary: data) (simp_all add: getRawValue_def)

lemma getConvertedValue_eq:
  "getConvertedValue n =
     (case nodeConverter n of
        Some conv \<Rightarrow>
          if isScalar n then conv [mRawValue (leafValue n)]
          else if list_all isScalar (childNodes n)
          then conv (map (\<lambda>n. mRawValue (leafValue n)) (childNodes n))
          else Inl Undefined
      | None \<Rightarrow> Inr (IntValue (uint (mRawValue (leafValue n)))))"
  by (auto simp: getConvertedValue_def child_values split: option.split) (simp add: getRawValue_def)

text \<open>\<open>MqttObjectDataNodeList\<close>, and appending to it\<close>

record node_list =
  lNodes :: "data_node list"
  lForceList :: bool

definition addDataNode :: "data_node \<Rightarrow> bool \<Rightarrow> node_list \<Rightarrow> node_list" where
  "addDataNode pNode forceList l =
     (let ns = lNodes l @ [pNode] in \<lparr>lNodes = ns, lForceList = (forceList \<or> length ns > 1)\<rparr>)"

definition addChildDataNode :: "data_node \<Rightarrow> bool \<Rightarrow> data_node \<Rightarrow> data_node" where
  "addChildDataNode pNode forceList n =
     (case n of DataNode name ns forced i v conv \<Rightarrow>
        DataNode name (ns @ [pNode]) (forceList \<or> length (ns @ [pNode]) > 1) i v conv)"

section \<open>Objects\<close>

datatype available_flag = NotSet | AvFalse | AvTrue

record mqtt_object =
  mTopic :: string
  mStateTopic :: string
  mAvailabilityTopic :: string
  mState :: node_list
  mAvailability :: node_list
  mAvailableValue :: mqtt_value
  mIsAvailable :: available_flag
  mRetain :: bool
  objPublishMode :: publish_mode
  mLastPublishedPayload :: string
  mLastPublishTime :: time
  mEveryPollPeriod :: duration

definition time_point_min :: time where
  "time_point_min = - (2 ^ 63)"

text \<open>The constructor and \<open>setPublishMode\<close>, which the configuration always calls.\<close>

definition new_MqttObject :: "string \<Rightarrow> publish_mode \<Rightarrow> int \<Rightarrow> mqtt_object" where
  "new_MqttObject pTopic pMode pEveryPollRefresh =
     \<lparr>mTopic = pTopic, mStateTopic = pTopic @ ''/state'',
      mAvailabilityTopic = pTopic @ ''/availability'',
      mState = \<lparr>lNodes = [], lForceList = False\<rparr>,
      mAvailability = \<lparr>lNodes = [], lForceList = False\<rparr>,
      mAvailableValue = IntValue 1, mIsAvailable = NotSet, mRetain = True,
      objPublishMode = pMode, mLastPublishedPayload = [], mLastPublishTime = time_point_min,
      mEveryPollPeriod = msec pEveryPollRefresh\<rparr>"

definition walk_list ::
  "(reg_ident \<Rightarrow> reg_value \<Rightarrow> bool \<times> reg_value) \<Rightarrow> node_list \<Rightarrow> bool \<times> node_list" where
  "walk_list f l =
     (let rs = map (walk f) (lNodes l) in (list_ex fst rs, l\<lparr>lNodes := map snd rs\<rparr>))"

definition state_hasRegisterIn :: "string \<Rightarrow> 'a modbus_msg_scheme \<Rightarrow> node_list \<Rightarrow> bool" where
  "state_hasRegisterIn net m l = list_ex (node_hasRegisterIn net m) (lNodes l)"

definition state_hasAllValues :: "node_list \<Rightarrow> bool" where
  "state_hasAllValues l = list_all node_hasAllValues (lNodes l)"

definition state_isPolling :: "node_list \<Rightarrow> bool" where
  "state_isPolling l = list_all node_isPolling (lNodes l)"

definition getAvailableFlag :: "mqtt_value \<Rightarrow> node_list \<Rightarrow> cpp_exn + available_flag" where
  "getAvailableFlag availableValue l =
     (case lNodes l of
        [] \<Rightarrow> Inr AvTrue
      | n # _ \<Rightarrow>
          if \<not> state_hasAllValues l \<or> \<not> state_isPolling l then Inr NotSet
          else
            bindE (getConvertedValue n) (\<lambda>v.
            bindE (getInt v) (\<lambda>a.
            bindE (getInt availableValue) (\<lambda>b.
              Inr (if a \<noteq> b then AvFalse else AvTrue)))))"

text \<open>The flag \<open>updateAvailablityFlag\<close> sets, or the exception of the converter.\<close>

definition computedFlag :: "mqtt_object \<Rightarrow> cpp_exn + available_flag" where
  "computedFlag obj =
     (if \<not> state_isPolling (mAvailability obj) \<or> \<not> state_isPolling (mState obj) then Inr AvFalse
      else if \<not> state_hasAllValues (mAvailability obj) \<or> \<not> state_hasAllValues (mState obj)
      then Inr NotSet
      else getAvailableFlag (mAvailableValue obj) (mAvailability obj))"

definition updateAvailablityFlag :: "mqtt_object \<Rightarrow> cpp_exn option \<times> mqtt_object" where
  "updateAvailablityFlag obj =
     (case computedFlag obj of
        Inl e \<Rightarrow> (Some e, obj)
      | Inr flag \<Rightarrow> (None, obj\<lparr>mIsAvailable := flag\<rparr>))"

definition obj_hasRegisterIn :: "string \<Rightarrow> 'a modbus_msg_scheme \<Rightarrow> mqtt_object \<Rightarrow> bool" where
  "obj_hasRegisterIn net m obj \<longleftrightarrow>
     state_hasRegisterIn net m (mState obj) \<or> state_hasRegisterIn net m (mAvailability obj)"

text \<open>The enumerator \<open>False\<close> is 0, so \<open>!mIsAvailable\<close> holds for it alone.\<close>

definition obj_updateRegisterValues ::
  "string \<Rightarrow> msg_register_values \<Rightarrow> mqtt_object \<Rightarrow> cpp_exn option \<times> mqtt_object" where
  "obj_updateRegisterValues net m obj =
     (let (stateChanged, s) = walk_list (leaf_values net m) (mState obj);
          (availChanged, a) = walk_list (leaf_values net m) (mAvailability obj);
          obj = obj\<lparr>mState := s, mAvailability := a\<rparr>
      in if stateChanged \<or> availChanged \<or> mIsAvailable obj = AvFalse
         then updateAvailablityFlag obj else (None, obj))"

definition obj_updateRegistersReadFailed ::
  "string \<Rightarrow> 'a modbus_msg_scheme \<Rightarrow> mqtt_object \<Rightarrow> cpp_exn option \<times> mqtt_object" where
  "obj_updateRegistersReadFailed net m obj =
     (let (stateChanged, s) = walk_list (leaf_failed net m) (mState obj);
          (availChanged, a) = walk_list (leaf_failed net m) (mAvailability obj);
          obj = obj\<lparr>mState := s, mAvailability := a\<rparr>
      in if stateChanged \<or> availChanged then updateAvailablityFlag obj else (None, obj))"

definition obj_setModbusNetworkState ::
  "string \<Rightarrow> bool \<Rightarrow> mqtt_object \<Rightarrow> (cpp_exn + bool) \<times> mqtt_object" where
  "obj_setModbusNetworkState net isUp obj =
     (let (stateChanged, s) = walk_list (leaf_network net isUp) (mState obj);
          (availChanged, a) = walk_list (leaf_network net isUp) (mAvailability obj);
          obj = obj\<lparr>mState := s, mAvailability := a\<rparr>
      in if stateChanged \<or> availChanged then
           (case updateAvailablityFlag obj of
              (Some e, obj) \<Rightarrow> (Inl e, obj)
            | (None, obj) \<Rightarrow> (Inr True, obj))
         else (Inr False, obj))"

definition needStateRepublish :: "time \<Rightarrow> mqtt_object \<Rightarrow> bool" where
  "needStateRepublish t obj =
     (case objPublishMode obj of
        ON_CHANGE \<Rightarrow> False
      | ONCE \<Rightarrow> False
      | EVERY_POLL \<Rightarrow>
          if mLastPublishTime obj = time_point_min then True
          else mLastPublishTime obj + mEveryPollPeriod obj \<le> t)"

end
