(* ===== verification/Mqtt_Payload.thy ===== *)
theory Mqtt_Payload
  imports Mqtt_Object
begin

text \<open>
  \<open>mqttpayload.cpp\<close>: the message published for the state of an object. The JSON writer of rapidjson
  is the sequence of calls made on it; \<open>render\<close>, a parameter, is the text it makes of them.
\<close>

section \<open>Calls on the writer\<close>

datatype writer_call =
    StartObject
  | EndObject
  | Key string
  | StartArray
  | EndArray
  | WriteInt int
  | WriteUint int
  | WriteInt64 int
  | WriteDouble double_bits
  | WriteString string
  | SetMaxDecimalPlaces int

definition createConvertedValue :: "mqtt_value \<Rightarrow> cpp_exn + writer_call list" where
  "createConvertedValue value =
     (case value of
        IntValue v \<Rightarrow> Inr [WriteInt v]
      | DoubleValue d prec \<Rightarrow>
          (let places = (if prec > 0 then [SetMaxDecimalPlaces prec]
                         else if prec = NO_PRECISION then [SetMaxDecimalPlaces 6] else [])
           in if prec = 0 then bindE (getInt64 value) (\<lambda>v. Inr (places @ [WriteInt64 v]))
              else Inr (places @ [WriteDouble d]))
      | BinaryValue s \<Rightarrow> Inr [WriteString s]
      | Int64Value v \<Rightarrow> Inr [WriteInt64 v])"

text \<open>\<open>front\<close> of an empty list is undefined.\<close>

definition isMap :: "data_node list \<Rightarrow> bool" where
  "isMap pNodes \<longleftrightarrow> \<not> isUnnamed (hd pNodes)"

definition isList :: "data_node list \<Rightarrow> bool \<Rightarrow> bool" where
  "isList pNodes outputAsList \<longleftrightarrow> outputAsList \<or> length pNodes > 1 \<and> isUnnamed (hd pNodes)"

lemma childNodes_size:
  "\<not> isScalar n \<Longrightarrow> size_list size (childNodes n) < size n"
  by (cases n) (simp add: isScalar_def)

function generateJson :: "data_node list \<Rightarrow> bool \<Rightarrow> cpp_exn + writer_call list"
  and json_members :: "bool \<Rightarrow> data_node list \<Rightarrow> cpp_exn + writer_call list"
  and json_node :: "data_node \<Rightarrow> cpp_exn + writer_call list" where
  "generateJson pNodes outputAsList =
     (if pNodes = [] then Inl Undefined
      else if isMap pNodes then
        bindE (json_members True pNodes) (\<lambda>cs. Inr (StartObject # cs @ [EndObject]))
      else if isList pNodes outputAsList then
        bindE (json_members False pNodes) (\<lambda>cs. Inr (StartArray # cs @ [EndArray]))
      else bindE (getConvertedValue (hd pNodes)) createConvertedValue)"
| "json_members keyed [] = Inr []"
| "json_members keyed (n # ns) =
     bindE (json_node n) (\<lambda>v.
     bindE (json_members keyed ns) (\<lambda>rest.
       Inr ((if keyed then [Key (c_str (keyName n))] else []) @ v @ rest)))"
| "json_node n =
     (if isScalar n \<or> hasConverter n then bindE (getConvertedValue n) createConvertedValue
      else generateJson (childNodes n) (forceListOutput n))"
  by pat_completeness auto
termination
  by (relation "measures
      [\<lambda>x. case x of Inl (ns, _) \<Rightarrow> size_list size ns
                   | Inr (Inl (_, ns)) \<Rightarrow> size_list size ns
                   | Inr (Inr n) \<Rightarrow> size n,
       \<lambda>x. case x of Inl _ \<Rightarrow> 2 | Inr (Inl _) \<Rightarrow> 1 | Inr (Inr _) \<Rightarrow> 0]")
    (auto simp: childNodes_size)

text \<open>
  \<open>MqttPayload::generate\<close>. \<open>nodes[0]\<close> of an empty list is undefined, as is \<open>front\<close> of one.
\<close>

definition generate ::
  "(double_bits \<Rightarrow> int \<Rightarrow> string) \<Rightarrow> (writer_call list \<Rightarrow> string) \<Rightarrow> mqtt_object
    \<Rightarrow> cpp_exn + string" where
  "generate format render pObj =
     (let nodes = lNodes (mState pObj);
          outputAsList = lForceList (mState pObj);
          json = bindE (generateJson nodes outputAsList) (\<lambda>cs. Inr (c_str (render cs)))
      in if \<not> outputAsList then
           (case nodes of
              [] \<Rightarrow> Inl Undefined
            | single # _ \<Rightarrow>
                if isUnnamed single \<and> (isScalar single \<or> hasConverter single)
                then bindE (getConvertedValue single) (\<lambda>v. Inr (getString format v))
                else json)
         else json)"

section \<open>What the writer accepts\<close>

text \<open>
  The protocol of the writer: one value at the top; in an object a key before every value; every
  object and array closed; numbers of the type of the call, and only finite doubles, for which the
  writer has a notation.
\<close>

datatype writer_level = InArray | WantKey | WantValue

fun after_value :: "writer_level list \<Rightarrow> writer_level list option" where
  "after_value (InArray # st) = Some (InArray # st)"
| "after_value (WantValue # st) = Some (WantKey # st)"
| "after_value _ = None"

fun scalar_ok :: "writer_call \<Rightarrow> bool" where
  "scalar_ok (WriteInt v) = in_int v"
| "scalar_ok (WriteUint v) = (0 \<le> v \<and> v < 2 ^ 32)"
| "scalar_ok (WriteInt64 v) = (LONG_MIN \<le> v \<and> v \<le> LONG_MAX)"
| "scalar_ok (WriteDouble d) = (double_trunc d \<noteq> None)"
| "scalar_ok (WriteString s) = True"
| "scalar_ok _ = False"

fun writer_step :: "writer_call \<Rightarrow> writer_level list \<Rightarrow> writer_level list option" where
  "writer_step StartObject st = map_option (\<lambda>st. WantKey # st) (after_value st)"
| "writer_step StartArray st = map_option (\<lambda>st. InArray # st) (after_value st)"
| "writer_step EndObject (WantKey # st) = Some st"
| "writer_step EndArray (InArray # st) = Some st"
| "writer_step (Key k) (WantKey # st) = Some (WantValue # st)"
| "writer_step (SetMaxDecimalPlaces n) st = (if n > 0 then Some st else None)"
| "writer_step c st = (if scalar_ok c then after_value st else None)"

fun writer_run :: "writer_call list \<Rightarrow> writer_level list \<Rightarrow> writer_level list option" where
  "writer_run [] st = Some st"
| "writer_run (c # cs) st = (case writer_step c st of None \<Rightarrow> None | Some st \<Rightarrow> writer_run cs st)"

text \<open>A document is one value, written where a value is expected: below it, nothing is left open.\<close>

definition writes_value :: "writer_call list \<Rightarrow> bool" where
  "writes_value cs \<longleftrightarrow> writer_run cs [WantValue] = Some [WantKey]"

section \<open>Well-typed trees\<close>

text \<open>
  A value fits its type; a double is finite, and fits 64 bits where it is written as an integer.
\<close>

fun value_ok :: "mqtt_value \<Rightarrow> bool" where
  "value_ok (IntValue v) = in_int v"
| "value_ok (Int64Value v) = (LONG_MIN \<le> v \<and> v \<le> LONG_MAX)"
| "value_ok (BinaryValue s) = True"
| "value_ok (DoubleValue d p) =
     (case double_trunc d of
        None \<Rightarrow> False
      | Some v \<Rightarrow> p \<ge> NO_PRECISION \<and> (p = 0 \<longrightarrow> LONG_MIN \<le> v \<and> v \<le> LONG_MAX))"

text \<open>
  A converter stands on a leaf or above leaves only, and returns a value of its type for the
  registers of its node.
\<close>

fun tree_ok :: "data_node \<Rightarrow> bool" where
  "tree_ok (DataNode name ns forced i v conv) \<longleftrightarrow>
     (\<forall>c rs. conv = Some c \<longrightarrow> length rs = (if ns = [] then 1 else length ns) \<longrightarrow>
        (case c rs of Inl _ \<Rightarrow> False | Inr val \<Rightarrow> value_ok val)) \<and>
     (conv \<noteq> None \<longrightarrow> list_all isScalar ns) \<and> list_all tree_ok ns"

definition calls_value :: "writer_call list \<Rightarrow> bool" where
  "calls_value cs \<longleftrightarrow> (\<forall>st. writer_run cs st = after_value st)"

definition calls_members :: "bool \<Rightarrow> writer_call list \<Rightarrow> bool" where
  "calls_members keyed cs \<longleftrightarrow>
     (\<forall>st. let here = (if keyed then WantKey else InArray) # st in writer_run cs here = Some here)"

lemma writer_run_append:
  "writer_run (cs @ ds) st = (case writer_run cs st of None \<Rightarrow> None | Some st \<Rightarrow> writer_run ds st)"
  by (induction cs st rule: writer_run.induct) (auto split: option.splits)

lemma createConvertedValue_ok:
  "value_ok v \<Longrightarrow> \<exists>cs. createConvertedValue v = Inr cs \<and> calls_value cs"
  by (cases v) (auto simp: createConvertedValue_def calls_value_def Let_def fault_simps
      double_to_int_def NO_PRECISION_def split: option.splits)

lemma getConvertedValue_ok:
  "tree_ok n \<Longrightarrow> \<exists>v. getConvertedValue n = Inr v \<and> value_ok v"
proof (cases n)
  case (DataNode name ns forced i w conv)
  have "in_int (uint (mRawValue w))"
    using uint_lt2p [of "mRawValue w"] order_trans [OF _ uint_ge_0, of "- 2147483648" "mRawValue w"]
    by (simp add: in_int_def INT_MIN_def INT_MAX_def)
  moreover have "\<exists>val. c rs = Inr val \<and> value_ok val"
    if "tree_ok n" "conv = Some c" "length rs = (if ns = [] then 1 else length ns)" for c rs
  proof -
    have "case c rs of Inl _ \<Rightarrow> False | Inr val \<Rightarrow> value_ok val" using that DataNode by simp
    then show ?thesis by (auto split: sum.splits)
  qed
  moreover assume "tree_ok n"
  ultimately show ?thesis
    using DataNode
    by (cases conv) (auto simp: getConvertedValue_eq isScalar_def [of "DataNode _ _ _ _ _ _"])
qed

lemma converted_ok:
  "tree_ok n \<Longrightarrow>
   \<exists>cs. bindE (getConvertedValue n) createConvertedValue = Inr cs \<and> calls_value cs"
  using getConvertedValue_ok [of n] createConvertedValue_ok by (auto simp: fault_simps)

lemma calls_object: "calls_members True cs \<Longrightarrow> calls_value (StartObject # cs @ [EndObject])"
  by (auto simp: calls_members_def calls_value_def writer_run_append Let_def split: option.splits)

lemma calls_array: "calls_members False cs \<Longrightarrow> calls_value (StartArray # cs @ [EndArray])"
  by (auto simp: calls_members_def calls_value_def writer_run_append Let_def split: option.splits)

lemma calls_cons:
  "calls_value v \<Longrightarrow> calls_members keyed rest \<Longrightarrow>
   calls_members keyed ((if keyed then [Key k] else []) @ v @ rest)"
  by (auto simp: calls_members_def calls_value_def writer_run_append)

lemma childNodes_ok: "tree_ok n \<Longrightarrow> list_all tree_ok (childNodes n)"
  by (cases n) simp

lemma json_ok:
  "pNodes \<noteq> [] \<Longrightarrow> list_all tree_ok pNodes \<Longrightarrow>
     \<exists>cs. generateJson pNodes outputAsList = Inr cs \<and> calls_value cs"
  "list_all tree_ok ns \<Longrightarrow> \<exists>cs. json_members keyed ns = Inr cs \<and> calls_members keyed cs"
  "tree_ok n \<Longrightarrow> \<exists>cs. json_node n = Inr cs \<and> calls_value cs"
proof (induction pNodes outputAsList and keyed ns and n rule: generateJson_json_members_json_node.induct)
  case (1 pNodes outputAsList)
  then have hd: "tree_ok (hd pNodes)" by (cases pNodes) auto
  show ?case
  proof (cases "isMap pNodes \<or> isList pNodes outputAsList")
    case True
    with 1 show ?thesis
      by (auto simp: fault_simps intro!: calls_object calls_array)
  next
    case False
    with converted_ok [OF hd] 1(3) show ?thesis by simp
  qed
next
  case (2 keyed)
  then show ?case by (simp add: calls_members_def)
next
  case (3 keyed n ns)
  then obtain v rest where "json_node n = Inr v" "calls_value v"
    "json_members keyed ns = Inr rest" "calls_members keyed rest"
    by auto
  then show ?case using calls_cons [of v keyed rest "c_str (keyName n)"] by (simp add: fault_simps)
next
  case (4 n)
  then show ?case
    using converted_ok [OF 4(2)] childNodes_ok [OF 4(2)] by (auto simp: isScalar_def)
qed

section \<open>Results\<close>

definition prints_plain :: "mqtt_object \<Rightarrow> bool" where
  "prints_plain obj \<longleftrightarrow>
     \<not> lForceList (mState obj) \<and>
     (let n = hd (lNodes (mState obj)) in isUnnamed n \<and> (isScalar n \<or> hasConverter n))"


definition payload_demo_leaf :: "string \<Rightarrow> u16 \<Rightarrow> data_node" where
  "payload_demo_leaf name r =
     DataNode name [] False
       \<lparr>idNetworkName = ''net'', idSlaveId = 1, idRegisterNumber = 0, idRegisterType = HOLDING\<rparr>
       \<lparr>mReadOk = True, mHasValue = True, mRawValue = r\<rparr> None"

definition payload_demo :: mqtt_object where
  "payload_demo =
     (new_MqttObject ''obj'' ON_CHANGE 1000)
       \<lparr>mState := addDataNode
          (addChildDataNode (payload_demo_leaf [] 6) True
            (addChildDataNode (payload_demo_leaf [] 5) True (payload_demo_leaf ''b'' 0))) False
          (addDataNode (payload_demo_leaf ''a'' 4) False \<lparr>lNodes = [], lForceList = False\<rparr>)\<rparr>"


text \<open>
  An object without a state but with availability registers is published too once it is available;
  its payload reads the first element of an empty list.
\<close>

lemma payload_without_state_undefined:
  "lNodes (mState obj) = [] \<Longrightarrow> generate format render obj = Inl Undefined"
  by (simp add: generate_def fault_simps Let_def)

text \<open>
  A converter above a node that is not a leaf fails the assertion of \<open>getRawValue\<close>. The
  configuration accepts such nodes.
\<close>

lemma converter_above_list_fails:
  "childNodes n \<noteq> [] \<Longrightarrow> \<not> list_all isScalar (childNodes n) \<Longrightarrow> hasConverter n \<Longrightarrow>
   getConvertedValue n = Inl Undefined"
  by (auto simp: getConvertedValue_eq hasConverter_def isScalar_def [of n])

end
