(* ===== verification/Mqtt_Interface.thy ===== *)
theory Mqtt_Interface
  imports Mqtt_Payload
begin

text \<open>
  \<open>imqttimpl.hpp\<close>: what the MQTT client asks of an MQTT library, as a record of operations on the
  state of the library, and the contract the client relies on, as a locale. The client's part of
  the interface, the callbacks, is in the theory of the client.
\<close>

section \<open>Operations\<close>

text \<open>
  A payload is absent where the code passes a null pointer. \<open>publish\<close> returns a message id that is
  only logged.
\<close>

record 'm mqtt_impl =
  implInit :: "string \<Rightarrow> 'm \<Rightarrow> 'm"
  implConnect :: "broker_config \<Rightarrow> 'm \<Rightarrow> (cpp_exn + unit) \<times> 'm"
  implReconnect :: "'m \<Rightarrow> 'm"
  implDisconnect :: "'m \<Rightarrow> 'm"
  implStop :: "'m \<Rightarrow> 'm"
  implSubscribe :: "string \<Rightarrow> 'm \<Rightarrow> 'm"
  implPublish :: "string \<Rightarrow> string option \<Rightarrow> bool \<Rightarrow> 'm \<Rightarrow> (cpp_exn + unit) \<times> 'm"
  implPublishResponse ::
    "string \<Rightarrow> string option \<Rightarrow> string option \<Rightarrow> (string \<times> string) list \<Rightarrow> 'm
      \<Rightarrow> (cpp_exn + unit) \<times> 'm"

text \<open>What a library hands over to the broker.\<close>

datatype mqtt_message =
    Published string "string option" bool
  | Responded string "string option" string "(string \<times> string) list"

text \<open>
  A response carries its correlation data, whose length is 16 bits, if there is any.
\<close>

definition response ::
  "string \<Rightarrow> string option \<Rightarrow> string option \<Rightarrow> (string \<times> string) list \<Rightarrow> mqtt_message" where
  "response t p c ps =
     Responded t p (case c of None \<Rightarrow> [] | Some d \<Rightarrow> take (length d mod 65536) d)
       (map (\<lambda>(k, v). (c_str k, c_str v)) ps)"

section \<open>Contract\<close>

text \<open>
  \<open>sent\<close> is what was handed over so far, \<open>failed\<close> tells whether a message could not be handed over.
  Publishing hands over its message or throws a \<open>MosquittoException\<close>; nothing else sends messages.
\<close>

locale mqtt_implementation =
  fixes impl :: "'m mqtt_impl"
    and sent :: "'m \<Rightarrow> mqtt_message list"
    and failed :: "'m \<Rightarrow> bool"
  assumes publish_sends:
      "implPublish impl t p r m = (Inr u, m') \<Longrightarrow>
         sent m' = sent m @ [Published t p r] \<and> failed m' = failed m"
    and publish_throws:
      "implPublish impl t p r m = (Inl e, m') \<Longrightarrow> failed m' \<and> (\<exists>w. e = MosquittoException w)"
    and respond_sends:
      "implPublishResponse impl t p c ps m = (Inr u, m') \<Longrightarrow>
         sent m' = sent m @ [response t p c ps] \<and> failed m' = failed m"
    and respond_throws:
      "implPublishResponse impl t p c ps m = (Inl e, m') \<Longrightarrow>
         failed m' \<and> (\<exists>w. e = MosquittoException w)"
    and init_keeps: "sent (implInit impl cid m) = sent m" "failed (implInit impl cid m) = failed m"
    and connect_keeps:
      "implConnect impl cfg m = (res, m') \<Longrightarrow> sent m' = sent m \<and> failed m' = failed m"
    and reconnect_keeps:
      "sent (implReconnect impl m) = sent m" "failed (implReconnect impl m) = failed m"
    and disconnect_keeps:
      "sent (implDisconnect impl m) = sent m" "failed (implDisconnect impl m) = failed m"
    and stop_keeps: "sent (implStop impl m) = sent m" "failed (implStop impl m) = failed m"
    and subscribe_keeps:
      "sent (implSubscribe impl t m) = sent m" "failed (implSubscribe impl t m) = failed m"
begin

lemmas impl_keeps = init_keeps reconnect_keeps disconnect_keeps stop_keeps subscribe_keeps

end

end
