(* ===== verification/Mosquitto.thy ===== *)
theory Mosquitto
  imports Mqtt_Interface
begin

text \<open>
  \<open>mosquitto.hpp\<close> and \<open>.cpp\<close>: the implementation of the MQTT interface on libmosquitto. The library
  is a parameter: a function that gives the return code of a call from the calls made before.
\<close>

section \<open>The library\<close>

datatype mosq_err =
    MOSQ_ERR_CONN_PENDING | MOSQ_ERR_SUCCESS | MOSQ_ERR_NOMEM | MOSQ_ERR_PROTOCOL | MOSQ_ERR_INVAL
  | MOSQ_ERR_NO_CONN | MOSQ_ERR_CONN_REFUSED | MOSQ_ERR_NOT_FOUND | MOSQ_ERR_CONN_LOST
  | MOSQ_ERR_TLS | MOSQ_ERR_PAYLOAD_SIZE | MOSQ_ERR_NOT_SUPPORTED | MOSQ_ERR_AUTH
  | MOSQ_ERR_ACL_DENIED | MOSQ_ERR_UNKNOWN | MOSQ_ERR_EAI | MOSQ_ERR_PROXY | MOSQ_ERR_ERRNO
  | MOSQ_ERR_OTHER int

datatype mosq_property =
    CorrelationData string
  | UserProperty string string

datatype mosq_call =
    ProtocolVersion5
  | UseOsCerts
  | UsernamePwSet string string
  | TlsSet string
  | ConnectAsync string int int
  | ReconnectDelaySet
  | CallbacksSet bool
  | LoopStart
  | Reinitialise string
  | ReconnectCall
  | DisconnectCall
  | LoopStop
  | SubscribeCall string
  | PublishCall string "string option" bool
  | PublishV5Call string "string option" "mosq_property list"

type_synonym mosq_trace = "(mosq_call \<times> mosq_err) list"

record mosq_lib =
  mosqResult :: "mosq_trace \<Rightarrow> mosq_call \<Rightarrow> mosq_err"
  errnoIsEPROTO :: "mosq_trace \<Rightarrow> bool"
  strerror :: "mosq_trace \<Rightarrow> string"

record mosq_state =
  mosqProtocolV5 :: bool
  mosqCalls :: mosq_trace

definition mosq_do :: "mosq_lib \<Rightarrow> mosq_call \<Rightarrow> mosq_state \<Rightarrow> mosq_err \<times> mosq_state" where
  "mosq_do lib c m =
     (let rc = mosqResult lib (mosqCalls m) c in (rc, m\<lparr>mosqCalls := mosqCalls m @ [(c, rc)]\<rparr>))"

section \<open>Errors\<close>

definition returnCodeToStr :: "string \<Rightarrow> mosq_err \<Rightarrow> string" where
  "returnCodeToStr errnoText mosq_errno =
     (case mosq_errno of
        MOSQ_ERR_CONN_PENDING \<Rightarrow> ''Connection pending.''
      | MOSQ_ERR_SUCCESS \<Rightarrow> ''No error.''
      | MOSQ_ERR_NOMEM \<Rightarrow> ''Out of memory.''
      | MOSQ_ERR_PROTOCOL \<Rightarrow> ''A network protocol error occurred when communicating with the broker.''
      | MOSQ_ERR_INVAL \<Rightarrow> ''Invalid function arguments provided.''
      | MOSQ_ERR_NO_CONN \<Rightarrow> ''The client is not currently connected.''
      | MOSQ_ERR_CONN_REFUSED \<Rightarrow> ''The connection was refused.''
      | MOSQ_ERR_NOT_FOUND \<Rightarrow> ''Message not found (internal error).''
      | MOSQ_ERR_CONN_LOST \<Rightarrow> ''The connection was lost.''
      | MOSQ_ERR_TLS \<Rightarrow> ''A TLS error occurred.''
      | MOSQ_ERR_PAYLOAD_SIZE \<Rightarrow> ''Payload too large.''
      | MOSQ_ERR_NOT_SUPPORTED \<Rightarrow> ''This feature is not supported.''
      | MOSQ_ERR_AUTH \<Rightarrow> ''Authorisation failed.''
      | MOSQ_ERR_ACL_DENIED \<Rightarrow> ''Access denied by ACL.''
      | MOSQ_ERR_UNKNOWN \<Rightarrow> ''Unknown error.''
      | MOSQ_ERR_EAI \<Rightarrow> ''Lookup error.''
      | MOSQ_ERR_PROXY \<Rightarrow> ''Proxy error.''
      | MOSQ_ERR_ERRNO \<Rightarrow> errnoText
      | _ \<Rightarrow> ''Unknown error.'')"

definition isCritical :: "mosq_err \<Rightarrow> bool" where
  "isCritical code \<longleftrightarrow>
     code \<in> {MOSQ_ERR_NOMEM, MOSQ_ERR_PROTOCOL, MOSQ_ERR_INVAL, MOSQ_ERR_NOT_FOUND, MOSQ_ERR_TLS,
       MOSQ_ERR_PAYLOAD_SIZE, MOSQ_ERR_NOT_SUPPORTED, MOSQ_ERR_AUTH, MOSQ_ERR_ACL_DENIED,
       MOSQ_ERR_UNKNOWN, MOSQ_ERR_EAI, MOSQ_ERR_PROXY}"

definition throwOnCriticalError :: "mosq_lib \<Rightarrow> mosq_state \<Rightarrow> mosq_err \<Rightarrow> cpp_exn + unit" where
  "throwOnCriticalError lib m code =
     (if isCritical code then
        Inl (MosquittoException (returnCodeToStr (strerror lib (mosqCalls m)) code))
      else Inr ())"

section \<open>The operations\<close>

text \<open>A call followed by \<open>throwOnCriticalError\<close>.\<close>

definition mosq_checked ::
  "mosq_lib \<Rightarrow> mosq_call \<Rightarrow> mosq_state \<Rightarrow> (cpp_exn + unit) \<times> mosq_state" where
  "mosq_checked lib c m =
     (let (rc, m) = mosq_do lib c m in (throwOnCriticalError lib m rc, m))"

fun mosq_checked_all ::
  "mosq_lib \<Rightarrow> mosq_call list \<Rightarrow> mosq_state \<Rightarrow> (cpp_exn + unit) \<times> mosq_state" where
  "mosq_checked_all lib [] m = (Inr (), m)"
| "mosq_checked_all lib (c # cs) m =
     (case mosq_checked lib c m of
        (Inl e, m) \<Rightarrow> (Inl e, m)
      | (Inr _, m) \<Rightarrow> mosq_checked_all lib cs m)"

definition connect_options :: "broker_config \<Rightarrow> mosq_call list" where
  "connect_options config =
     (if mProtocolV5 config then [ProtocolVersion5] else []) @
     (if mUsername config \<noteq> []
      then [UsernamePwSet (c_str (mUsername config)) (c_str (mPassword config))] else []) @
     (if mTLS config
      then [if mCafile config = [] then UseOsCerts else TlsSet (c_str (mCafile config))]
      else [])"

definition connect_async ::
  "mosq_lib \<Rightarrow> broker_config \<Rightarrow> mosq_state \<Rightarrow> (cpp_exn + unit) \<times> mosq_state" where
  "connect_async lib config m =
     (let (rc, m) = mosq_do lib
            (ConnectAsync (c_str (mHost config)) (mPort config) (mKeepalive config)) m
      in case throwOnCriticalError lib m rc of
           Inl e \<Rightarrow> (Inl e, m)
         | Inr _ \<Rightarrow>
             if errnoIsEPROTO lib (mosqCalls m)
             then (Inl (MosquittoException (strerror lib (mosqCalls m))), m)
             else if rc \<noteq> MOSQ_ERR_SUCCESS then (Inr (), m)
             else
               (let m = snd (mosq_do lib ReconnectDelaySet m);
                    m = snd (mosq_do lib (CallbacksSet (mProtocolV5 config)) m);
                    m = snd (mosq_do lib LoopStart m)
                in (Inr (), m)))"

definition mosq_connect ::
  "mosq_lib \<Rightarrow> broker_config \<Rightarrow> mosq_state \<Rightarrow> (cpp_exn + unit) \<times> mosq_state" where
  "mosq_connect lib config m =
     (case mosq_checked_all lib (connect_options config) (m\<lparr>mosqProtocolV5 := mProtocolV5 config\<rparr>) of
        (Inl e, m) \<Rightarrow> (Inl e, m)
      | (Inr _, m) \<Rightarrow> connect_async lib config m)"

definition mosq_reconnect :: "mosq_lib \<Rightarrow> mosq_state \<Rightarrow> mosq_state" where
  "mosq_reconnect lib m = snd (mosq_do lib ReconnectCall m)"

definition mosq_disconnect :: "mosq_lib \<Rightarrow> mosq_state \<Rightarrow> mosq_state" where
  "mosq_disconnect lib m = snd (mosq_do lib DisconnectCall m)"

definition mosq_stop :: "mosq_lib \<Rightarrow> mosq_state \<Rightarrow> mosq_state" where
  "mosq_stop lib m = snd (mosq_do lib LoopStop m)"

definition mosq_init :: "mosq_lib \<Rightarrow> string \<Rightarrow> mosq_state \<Rightarrow> mosq_state" where
  "mosq_init lib clientId m = snd (mosq_do lib (Reinitialise clientId) m)"

definition mosq_subscribe :: "mosq_lib \<Rightarrow> string \<Rightarrow> mosq_state \<Rightarrow> mosq_state" where
  "mosq_subscribe lib topic m = snd (mosq_do lib (SubscribeCall topic) m)"

definition mosq_publish ::
  "mosq_lib \<Rightarrow> string \<Rightarrow> string option \<Rightarrow> bool \<Rightarrow> mosq_state \<Rightarrow> (cpp_exn + unit) \<times> mosq_state" where
  "mosq_publish lib topic data retain m = mosq_checked lib (PublishCall topic data retain) m"

definition mosq_publishResponse ::
  "mosq_lib \<Rightarrow> string \<Rightarrow> string option \<Rightarrow> string option \<Rightarrow> (string \<times> string) list \<Rightarrow> mosq_state
    \<Rightarrow> (cpp_exn + unit) \<times> mosq_state" where
  "mosq_publishResponse lib topic data corr userProperties m =
     (let props =
        (case corr of
           Some c \<Rightarrow> if length c > 0 then [CorrelationData (take (length c mod 65536) c)] else []
         | None \<Rightarrow> []) @
        map (\<lambda>(k, v). UserProperty (c_str k) (c_str v)) userProperties
      in mosq_checked lib (PublishV5Call topic data props) m)"

definition mosquitto_impl :: "mosq_lib \<Rightarrow> mosq_state mqtt_impl" where
  "mosquitto_impl lib =
     \<lparr>implInit = mosq_init lib, implConnect = mosq_connect lib, implReconnect = mosq_reconnect lib,
      implDisconnect = mosq_disconnect lib, implStop = mosq_stop lib,
      implSubscribe = mosq_subscribe lib, implPublish = mosq_publish lib,
      implPublishResponse = mosq_publishResponse lib\<rparr>"

section \<open>The contract\<close>

text \<open>What the calls handed over: the messages whose call did not fail with a critical error.\<close>

fun property_correlation :: "mosq_property \<Rightarrow> string" where
  "property_correlation (CorrelationData d) = d"
| "property_correlation (UserProperty k v) = []"

fun property_user :: "mosq_property \<Rightarrow> (string \<times> string) list" where
  "property_user (CorrelationData d) = []"
| "property_user (UserProperty k v) = [(k, v)]"

fun call_message :: "mosq_call \<Rightarrow> mqtt_message list" where
  "call_message (PublishCall t p r) = [Published t p r]"
| "call_message (PublishV5Call t p props) =
     [Responded t p (concat (map property_correlation props)) (concat (map property_user props))]"
| "call_message _ = []"

definition mosq_sent :: "mosq_state \<Rightarrow> mqtt_message list" where
  "mosq_sent m =
     concat (map (\<lambda>(c, rc). if isCritical rc then [] else call_message c) (mosqCalls m))"

definition mosq_failed :: "mosq_state \<Rightarrow> bool" where
  "mosq_failed m \<longleftrightarrow> list_ex (\<lambda>(c, rc). isCritical rc \<and> call_message c \<noteq> []) (mosqCalls m)"

definition same_messages :: "mosq_state \<Rightarrow> mosq_state \<Rightarrow> bool" where
  "same_messages m m' \<longleftrightarrow> mosq_sent m' = mosq_sent m \<and> mosq_failed m' = mosq_failed m"

lemma same_messages_trans: "same_messages a b \<Longrightarrow> same_messages b c \<Longrightarrow> same_messages a c"
  by (simp add: same_messages_def)

lemma mosq_do_messages:
  "mosq_do lib c m = (rc, m') \<Longrightarrow>
   mosq_sent m' = mosq_sent m @ (if isCritical rc then [] else call_message c) \<and>
   (mosq_failed m' \<longleftrightarrow> mosq_failed m \<or> isCritical rc \<and> call_message c \<noteq> [])"
  by (auto simp: mosq_do_def mosq_sent_def mosq_failed_def Let_def)

lemma mosq_do_silent: "call_message c = [] \<Longrightarrow> same_messages m (snd (mosq_do lib c m))"
  using mosq_do_messages [of lib c m] by (cases "mosq_do lib c m") (auto simp: same_messages_def)

lemmas silent_simps = mosq_do_silent [unfolded same_messages_def, THEN conjunct1]
  mosq_do_silent [unfolded same_messages_def, THEN conjunct2]

lemma mosq_checked_messages:
  "mosq_checked lib c m = (res, m') \<Longrightarrow>
   (case res of
      Inl e \<Rightarrow> (call_message c \<noteq> [] \<longrightarrow> mosq_failed m') \<and> (\<exists>w. e = MosquittoException w)
    | Inr _ \<Rightarrow> mosq_sent m' = mosq_sent m @ call_message c \<and> mosq_failed m' = mosq_failed m)"
  by (auto simp: mosq_checked_def throwOnCriticalError_def dest!: mosq_do_messages
      split: prod.splits if_splits)

lemma mosq_checked_silent:
  "call_message c = [] \<Longrightarrow> mosq_checked lib c m = (res, m') \<Longrightarrow> same_messages m m'"
  using mosq_do_silent [of c m lib] by (auto simp: mosq_checked_def split: prod.splits)

lemma mosq_checked_all_silent:
  "\<forall>c \<in> set cs. call_message c = [] \<Longrightarrow> mosq_checked_all lib cs m = (res, m') \<Longrightarrow>
   same_messages m m'"
proof (induction lib cs m rule: mosq_checked_all.induct)
  case (2 lib c cs m)
  obtain r mid where mid: "mosq_checked lib c m = (r, mid)" by fastforce
  with 2 have "same_messages m mid" by (auto intro: mosq_checked_silent)
  with 2 mid show ?case by (cases r) (auto intro: same_messages_trans)
qed (simp add: same_messages_def)

lemma connect_async_silent: "connect_async lib config m = (res, m') \<Longrightarrow> same_messages m m'"
proof -
  assume res: "connect_async lib config m = (res, m')"
  define c where "c = ConnectAsync (c_str (mHost config)) (mPort config) (mKeepalive config)"
  obtain rc mid where mid: "mosq_do lib c m = (rc, mid)" by fastforce
  have "same_messages m mid" using mosq_do_silent [of c m lib] mid by (simp add: c_def)
  moreover have "same_messages mid m'"
    using res mid
    by (auto simp: connect_async_def c_def [symmetric] Let_def same_messages_def silent_simps
        split: sum.splits if_splits)
  ultimately show ?thesis by (rule same_messages_trans)
qed

lemma connect_options_silent: "\<forall>c \<in> set (connect_options config). call_message c = []"
  by (auto simp: connect_options_def)

lemma mosq_connect_silent: "mosq_connect lib config m = (res, m') \<Longrightarrow> same_messages m m'"
proof -
  assume res: "mosq_connect lib config m = (res, m')"
  define m0 where "m0 = m\<lparr>mosqProtocolV5 := mProtocolV5 config\<rparr>"
  obtain r mid where mid: "mosq_checked_all lib (connect_options config) m0 = (r, mid)" by fastforce
  have "same_messages m m0" by (simp add: m0_def same_messages_def mosq_sent_def mosq_failed_def)
  moreover have "same_messages m0 mid"
    by (rule mosq_checked_all_silent [OF connect_options_silent mid])
  ultimately have "same_messages m mid" by (rule same_messages_trans)
  with res mid show ?thesis
    by (auto simp: mosq_connect_def m0_def [symmetric] dest: connect_async_silent
        intro: same_messages_trans split: sum.splits)
qed

lemma props_correlation:
  "concat (map (property_correlation \<circ> (\<lambda>(k, v). UserProperty (f k) (f v))) ps) = []"
  by (induction ps) auto

lemma props_user:
  "concat (map (property_user \<circ> (\<lambda>(k, v). UserProperty (f k) (f v))) ps) =
     map (\<lambda>(k, v). (f k, f v)) ps"
  by (induction ps) auto

lemma publishResponse_messages:
  "mosq_publishResponse lib t p c ps m = (res, m') \<Longrightarrow>
   (case res of
      Inl e \<Rightarrow> mosq_failed m' \<and> (\<exists>w. e = MosquittoException w)
    | Inr _ \<Rightarrow> mosq_sent m' = mosq_sent m @ [response t p c ps] \<and> mosq_failed m' = mosq_failed m)"
  by (cases c) (auto simp: mosq_publishResponse_def response_def Let_def props_correlation props_user
      dest!: mosq_checked_messages split: if_splits sum.splits)

lemmas mosq_silent_ops =
  mosq_init_def mosq_reconnect_def mosq_disconnect_def mosq_stop_def mosq_subscribe_def

lemma publish_messages:
  "mosq_publish lib t p r m = (res, m') \<Longrightarrow>
   (case res of
      Inl e \<Rightarrow> mosq_failed m' \<and> (\<exists>w. e = MosquittoException w)
    | Inr _ \<Rightarrow> mosq_sent m' = mosq_sent m @ [Published t p r] \<and> mosq_failed m' = mosq_failed m)"
  by (auto simp: mosq_publish_def dest!: mosq_checked_messages split: sum.splits)

interpretation mosq: mqtt_implementation "mosquitto_impl lib" mosq_sent mosq_failed for lib
proof
  show "implPublish (mosquitto_impl lib) t p r m = (Inr u, m') \<Longrightarrow>
      mosq_sent m' = mosq_sent m @ [Published t p r] \<and> mosq_failed m' = mosq_failed m"
    for t p r m u m'
    by (auto simp: mosquitto_impl_def dest!: publish_messages)
  show "implPublish (mosquitto_impl lib) t p r m = (Inl e, m') \<Longrightarrow>
      mosq_failed m' \<and> (\<exists>w. e = MosquittoException w)" for t p r m e m'
    by (auto simp: mosquitto_impl_def dest!: publish_messages)
  show "implPublishResponse (mosquitto_impl lib) t p c ps m = (Inr u, m') \<Longrightarrow>
      mosq_sent m' = mosq_sent m @ [response t p c ps] \<and> mosq_failed m' = mosq_failed m"
    for t p c ps m u m'
    by (auto simp: mosquitto_impl_def dest!: publishResponse_messages)
  show "implPublishResponse (mosquitto_impl lib) t p c ps m = (Inl e, m') \<Longrightarrow>
      mosq_failed m' \<and> (\<exists>w. e = MosquittoException w)" for t p c ps m e m'
    by (auto simp: mosquitto_impl_def dest!: publishResponse_messages)
  show "implConnect (mosquitto_impl lib) cfg m = (res, m') \<Longrightarrow>
      mosq_sent m' = mosq_sent m \<and> mosq_failed m' = mosq_failed m" for cfg m res m'
    by (auto simp: mosquitto_impl_def same_messages_def dest!: mosq_connect_silent)
qed (simp_all add: mosquitto_impl_def mosq_silent_ops silent_simps)

end
