(* ===== verification/Client_State.thy ===== *)
theory Client_State
  imports Modbus_Thread Mosquitto "HOL-Library.List_Lexorder" "HOL-Library.Char_ord"
begin

text \<open>
  The state of \<open>MqttClient\<close> (\<open>mqttclient.hpp\<close>) and of the main-thread part of \<open>ModbusClient\<close>
  (\<open>modbus_client.hpp\<close>), and the operations on it: functions from a state to a value or an
  exception and the state that is left, as an exception keeps what was done before it.
\<close>

section \<open>Keys\<close>

text \<open>The order of register types is that of their codes.\<close>

instantiation register_type :: linorder
begin

definition less_eq_register_type :: "register_type \<Rightarrow> register_type \<Rightarrow> bool" where
  "less_eq_register_type a b \<longleftrightarrow> register_type_code a \<le> register_type_code b"

definition less_register_type :: "register_type \<Rightarrow> register_type \<Rightarrow> bool" where
  "less_register_type a b \<longleftrightarrow> register_type_code a < register_type_code b"

instance
  by standard
    (auto simp: less_eq_register_type_def less_register_type_def dest: register_type_code_inj)

end

text \<open>
  \<open>MqttObjectRegisterIdent::Compare\<close>: network, slave, register number, type, in this order.
\<close>

instantiation reg_ident_ext :: (linorder) linorder
begin

definition less_reg_ident_ext :: "'a reg_ident_scheme \<Rightarrow> 'a reg_ident_scheme \<Rightarrow> bool" where
  "less_reg_ident_ext a b \<longleftrightarrow>
     idNetworkName a < idNetworkName b \<or> idNetworkName a = idNetworkName b \<and>
    (idSlaveId a < idSlaveId b \<or> idSlaveId a = idSlaveId b \<and>
    (idRegisterNumber a < idRegisterNumber b \<or> idRegisterNumber a = idRegisterNumber b \<and>
    (idRegisterType a < idRegisterType b \<or> idRegisterType a = idRegisterType b \<and>
     reg_ident.more a < reg_ident.more b)))"

definition less_eq_reg_ident_ext :: "'a reg_ident_scheme \<Rightarrow> 'a reg_ident_scheme \<Rightarrow> bool" where
  "less_eq_reg_ident_ext a b \<longleftrightarrow> a = b \<or> a < b"

instance
proof
  fix a b c :: "'a reg_ident_scheme"
  show "a < b \<longleftrightarrow> a \<le> b \<and> \<not> b \<le> a"
    by (auto simp: less_eq_reg_ident_ext_def less_reg_ident_ext_def)
  show "a \<le> a" by (simp add: less_eq_reg_ident_ext_def)
  show "a \<le> b \<Longrightarrow> b \<le> c \<Longrightarrow> a \<le> c"
    by (auto simp: less_eq_reg_ident_ext_def less_reg_ident_ext_def)
  show "a \<le> b \<Longrightarrow> b \<le> a \<Longrightarrow> a = b"
    by (auto simp: less_eq_reg_ident_ext_def less_reg_ident_ext_def)
  show "a \<le> b \<or> b \<le> a"
    using reg_ident.equality [of a b] unfolding less_eq_reg_ident_ext_def less_reg_ident_ext_def
    by (metis linorder_less_linear)
qed

end

text \<open>The identity under which the objects of a poll are kept.\<close>

definition ident_of :: "string \<Rightarrow> 'a modbus_msg_scheme \<Rightarrow> reg_ident" where
  "ident_of net m =
     \<lparr>idNetworkName = net, idSlaveId = mSlaveId m, idRegisterNumber = mRegister m,
      idRegisterType = mRegisterType m\<rparr>"

section \<open>State\<close>

datatype payload_type = STRING

record mqtt_command = modbus_msg +
  cmdTopic :: string
  cmdPayloadType :: payload_type
  cmdNetworkName :: string
  cmdWriteMode :: write_mode
  cmdConverter :: "data_converter option"

record pending_rpc =
  rpcNetworkName :: string
  rpcResponseTopic :: string
  rpcCorrelationData :: "string option"
  rpcSlaveId :: int
  rpcRegisterNumber :: int
  rpcDisplayAddress :: string
  rpcRegisterType :: register_type
  rpcCount :: int
  rpcIsWrite :: bool
  rpcConverter :: "data_converter option"

datatype rpc_mode = DISABLED | READ | READ_WRITE

datatype conn_state = DISCONNECTED | CONNECTING | CONNECTED | DISCONNECTING

record modbus_client =
  clNetworkName :: string
  mToModbusQueue :: "modbus_item list"
  mFromModbusQueue :: "queue_item list"

text \<open>
  Objects are shared; the lists hold their addresses in \<open>objectStore\<close>. \<open>clientTicks\<close> counts the
  readings of the clock.
\<close>

record 'm mqtt_client =
  mMqttImpl :: 'm
  clientTicks :: nat
  objectStore :: "nat \<Rightarrow> mqtt_object"
  mBrokerConfig :: broker_config
  mModbusClients :: "modbus_client list"
  mConnectionState :: conn_state
  mIsStarted :: bool
  mObjects :: "(reg_ident, nat list) omap"
  mCommandObjects :: "(int, nat list) omap"
  mCommands :: "(string, mqtt_command) omap"
  mRpcMode :: rpc_mode
  mRpcRequestTopic :: string
  mNextRpcId :: int
  mPendingRpc :: "(int, pending_rpc) omap"

text \<open>
  What the client uses: the MQTT library, the clock, the text of doubles and of JSON, the JSON
  parser with the offset and the message of an error, and \<open>ModMqtt::createConverterFromString\<close>.
\<close>

record 'm mqtt_env =
  mqttImpl :: "'m mqtt_impl"
  mqttClock :: "nat \<Rightarrow> time"
  formatDouble :: "double_bits \<Rightarrow> int \<Rightarrow> string"
  renderJson :: "writer_call list \<Rightarrow> string"
  parseJson :: "string \<Rightarrow> (nat \<times> string) + json"
  createConverterFrom :: "string \<Rightarrow> cpp_exn + data_converter"

section \<open>Operations\<close>

type_synonym ('m, 'a) client_op = "'m mqtt_client \<Rightarrow> (cpp_exn + 'a) \<times> 'm mqtt_client"

definition returnC :: "'a \<Rightarrow> ('m, 'a) client_op" where
  "returnC x s = (Inr x, s)"

definition liftC :: "cpp_exn + 'a \<Rightarrow> ('m, 'a) client_op" where
  "liftC r s = (r, s)"

definition bindC :: "('m, 'a) client_op \<Rightarrow> ('a \<Rightarrow> ('m, 'b) client_op) \<Rightarrow> ('m, 'b) client_op" where
  "bindC c f s = (case c s of (Inl e, s) \<Rightarrow> (Inl e, s) | (Inr x, s) \<Rightarrow> f x s)"

definition thenC :: "('m, 'a) client_op \<Rightarrow> ('m, 'b) client_op \<Rightarrow> ('m, 'b) client_op" where
  "thenC c d = bindC c (\<lambda>_. d)"

definition getC :: "('m mqtt_client \<Rightarrow> 'a) \<Rightarrow> ('m, 'a) client_op" where
  "getC f s = (Inr (f s), s)"

definition modifyC :: "('m mqtt_client \<Rightarrow> 'm mqtt_client) \<Rightarrow> ('m, unit) client_op" where
  "modifyC f s = (Inr (), f s)"

text \<open>\<open>try\<close> and \<open>catch\<close>: the handler of an exception, if there is one for it.\<close>

definition catchC ::
  "('m, 'a) client_op \<Rightarrow> (cpp_exn \<Rightarrow> ('m, 'a) client_op option) \<Rightarrow> ('m, 'a) client_op" where
  "catchC c h s =
     (case c s of
        (Inl e, s) \<Rightarrow> (case h e of None \<Rightarrow> (Inl e, s) | Some d \<Rightarrow> d s)
      | (Inr x, s) \<Rightarrow> (Inr x, s))"

fun forC :: "('a \<Rightarrow> ('m, unit) client_op) \<Rightarrow> 'a list \<Rightarrow> ('m, unit) client_op" where
  "forC f [] = returnC ()"
| "forC f (x # xs) = thenC (f x) (forC f xs)"

text \<open>Handlers for \<open>MosquittoException\<close> and for \<open>std::exception\<close>; undefined behaviour is neither.\<close>

definition on_mosquitto :: "('m, 'a) client_op \<Rightarrow> cpp_exn \<Rightarrow> ('m, 'a) client_op option" where
  "on_mosquitto d e = (case e of MosquittoException _ \<Rightarrow> Some d | _ \<Rightarrow> None)"

definition on_any :: "(cpp_exn \<Rightarrow> ('m, 'a) client_op) \<Rightarrow> cpp_exn \<Rightarrow> ('m, 'a) client_op option" where
  "on_any d e = (if e = Undefined then None else Some (d e))"

definition nowC :: "'m mqtt_env \<Rightarrow> ('m, time) client_op" where
  "nowC env s = (Inr (mqttClock env (clientTicks s)), s\<lparr>clientTicks := Suc (clientTicks s)\<rparr>)"

definition publishC :: "'m mqtt_env \<Rightarrow> string \<Rightarrow> string option \<Rightarrow> bool \<Rightarrow> ('m, unit) client_op" where
  "publishC env topic data retain s =
     (let (r, m) = implPublish (mqttImpl env) topic data retain (mMqttImpl s)
      in (r, s\<lparr>mMqttImpl := m\<rparr>))"

definition publishResponseC ::
  "'m mqtt_env \<Rightarrow> string \<Rightarrow> string option \<Rightarrow> string option \<Rightarrow> (string \<times> string) list
    \<Rightarrow> ('m, unit) client_op" where
  "publishResponseC env topic data corr props s =
     (let (r, m) = implPublishResponse (mqttImpl env) topic data corr props (mMqttImpl s)
      in (r, s\<lparr>mMqttImpl := m\<rparr>))"

text \<open>An operation on a shared object.\<close>

definition objectC :: "nat \<Rightarrow> (mqtt_object \<Rightarrow> cpp_exn option \<times> mqtt_object) \<Rightarrow> ('m, unit) client_op" where
  "objectC a f s =
     (let (x, obj) = f (objectStore s a); s = s\<lparr>objectStore := (objectStore s)(a := obj)\<rparr>
      in case x of Some e \<Rightarrow> (Inl e, s) | None \<Rightarrow> (Inr (), s))"

definition setObjectC :: "nat \<Rightarrow> (mqtt_object \<Rightarrow> mqtt_object) \<Rightarrow> ('m, unit) client_op" where
  "setObjectC a f = modifyC (\<lambda>s. s\<lparr>objectStore := (objectStore s)(a := f (objectStore s a))\<rparr>)"

text \<open>\<open>enqueue\<close> on the queue of the first client of a network.\<close>

fun enqueue_first :: "string \<Rightarrow> modbus_item \<Rightarrow> modbus_client list \<Rightarrow> modbus_client list" where
  "enqueue_first net item [] = []"
| "enqueue_first net item (c # cs) =
     (if clNetworkName c = net then c\<lparr>mToModbusQueue := mToModbusQueue c @ [item]\<rparr> # cs
      else c # enqueue_first net item cs)"

definition enqueueC :: "string \<Rightarrow> modbus_item \<Rightarrow> ('m, unit) client_op" where
  "enqueueC net item =
     modifyC (\<lambda>s. s\<lparr>mModbusClients := enqueue_first net item (mModbusClients s)\<rparr>)"

definition hasNetwork :: "string \<Rightarrow> modbus_client list \<Rightarrow> bool" where
  "hasNetwork net cs \<longleftrightarrow> list_ex (\<lambda>c. clNetworkName c = net) cs"

text \<open>The elements of a list without later repetitions.\<close>

fun remdups_from :: "nat list \<Rightarrow> nat list \<Rightarrow> nat list" where
  "remdups_from seen [] = []"
| "remdups_from seen (a # as) =
     (if a \<in> set seen then remdups_from seen as else a # remdups_from (a # seen) as)"

abbreviation remdups_first :: "nat list \<Rightarrow> nat list" where
  "remdups_first as \<equiv> remdups_from [] as"

definition sendMqttNetworkIsUp :: "bool \<Rightarrow> modbus_client \<Rightarrow> modbus_client" where
  "sendMqttNetworkIsUp up c =
     c\<lparr>mToModbusQueue := mToModbusQueue c @ [MessageItem (MqttNetworkState up)]\<rparr>"

end
