(* ===== verification/Mqtt_Rpc.thy ===== *)
theory Mqtt_Rpc
  imports Client_State
begin

text \<open>
  The remote calls of \<open>mqttclient.cpp\<close>: a request is read from a JSON document, checked, given a
  negative command id and queued for its network; the reply of the Modbus thread is matched by that
  id. The checks only read the state of the client, so they are a pure function.
\<close>

section \<open>Replies\<close>

definition publishRpcError ::
  "'m mqtt_env \<Rightarrow> string \<Rightarrow> string option \<Rightarrow> string \<Rightarrow> ('m, unit) client_op" where
  "publishRpcError env responseTopic corr errorMsg =
     catchC (publishResponseC env (c_str responseTopic) None corr [(''error'', errorMsg)])
       (on_any (\<lambda>_. returnC ()))"

definition takePending :: "int \<Rightarrow> ('m, pending_rpc option) client_op" where
  "takePending cid s =
     (Inr (map_of (mPendingRpc s) cid), s\<lparr>mPendingRpc := omap_erase cid (mPendingRpc s)\<rparr>)"

definition rpc_payload ::
  "'m mqtt_env \<Rightarrow> pending_rpc \<Rightarrow> u16 list \<Rightarrow> cpp_exn + string" where
  "rpc_payload env req rs =
     (case (rpcIsWrite req, rpcConverter req) of
        (False, Some conv) \<Rightarrow>
          bindE (toMqtt conv rs) (\<lambda>v. Inr (getString (formatDouble env) v))
      | _ \<Rightarrow>
          if length rs = 1 then Inr (to_string (uint (rs ! 0)))
          else Inr (c_str (renderJson env
                 (StartArray # map (\<lambda>r. WriteUint (uint r)) rs @ [EndArray]))))"

definition publishRpcResponse :: "'m mqtt_env \<Rightarrow> msg_register_values \<Rightarrow> ('m, unit) client_op" where
  "publishRpcResponse env pValues =
     bindC (takePending (mCommandId pValues)) (\<lambda>it.
       case it of
         None \<Rightarrow> returnC ()
       | Some req \<Rightarrow>
           (case rpc_payload env req (mRegisters pValues) of
              Inl Undefined \<Rightarrow> liftC (Inl Undefined)
            | Inl e \<Rightarrow>
                publishRpcError env (rpcResponseTopic req) (rpcCorrelationData req)
                  ''internal error''
            | Inr payload \<Rightarrow>
                catchC
                  (publishResponseC env (c_str (rpcResponseTopic req))
                    (if payload = [] then None else Some payload) (rpcCorrelationData req) [])
                  (on_any (\<lambda>_. returnC ()))))"

definition publishRpcErrorFor :: "'m mqtt_env \<Rightarrow> 'a modbus_msg_scheme \<Rightarrow> ('m, unit) client_op" where
  "publishRpcErrorFor env pSlaveData =
     bindC (takePending (mCommandId pSlaveData)) (\<lambda>it.
       case it of
         None \<Rightarrow> returnC ()
       | Some req \<Rightarrow>
           publishRpcError env (rpcResponseTopic req) (rpcCorrelationData req)
             (if rpcIsWrite req then ''modbus write failed'' else ''modbus read failed''))"

section \<open>Requests\<close>

text \<open>The position of a parse error as line and column.\<close>

fun line_col :: "string \<Rightarrow> nat \<Rightarrow> nat \<Rightarrow> nat \<times> nat" where
  "line_col [] line col = (line, col)"
| "line_col (c # cs) line col =
     (if c = CHR 0x0A then line_col cs (line + 1) 1 else line_col cs line (col + 1))"

definition rpc_document :: "'m mqtt_env \<Rightarrow> string \<Rightarrow> cpp_exn + (string \<times> json) list" where
  "rpc_document env payload =
     (case parseJson env payload of
        Inl (off, msg) \<Rightarrow>
          (let (line, col) = line_col (take off payload) 1 1
           in Inl (InvalidArgument (''JSON parse error at '' @ to_string (int line) @ '':'' @
                to_string (int col) @ '': '' @ msg)))
      | Inr (JObject ms) \<Rightarrow> Inr ms
      | Inr _ \<Rightarrow> Inl (InvalidArgument ''object expected''))"

definition rpc_string :: "(string \<times> json) list \<Rightarrow> string \<Rightarrow> cpp_exn + string" where
  "rpc_string doc name =
     (case map_of doc name of
        Some (JString s) \<Rightarrow> Inr (c_str s)
      | _ \<Rightarrow> Inl (InvalidArgument (''missing or invalid field: '' @ name)))"

definition rpc_slave :: "(string \<times> json) list \<Rightarrow> cpp_exn + int" where
  "rpc_slave doc =
     (case map_of doc ''slave'' of
        Some j \<Rightarrow>
          if json_IsInt j then Inr (json_int j)
          else Inl (InvalidArgument ''missing or invalid field: slave'')
      | None \<Rightarrow> Inl (InvalidArgument ''missing or invalid field: slave''))"

definition rpc_register_type :: "(string \<times> json) list \<Rightarrow> cpp_exn + register_type" where
  "rpc_register_type doc =
     (case map_of doc ''register_type'' of
        None \<Rightarrow> Inr HOLDING
      | Some (JString s) \<Rightarrow>
          (let rtStr = c_str s
           in if rtStr = ''coil'' then Inr COIL
              else if rtStr = ''input'' then Inr INPUT
              else if rtStr = ''bit'' then Inr BIT
              else if rtStr \<noteq> ''holding''
              then Inl (InvalidArgument (''unknown register_type: '' @ rtStr))
              else Inr HOLDING)
      | Some _ \<Rightarrow> Inl (InvalidArgument ''invalid field: register_type''))"

definition rpc_converter ::
  "'m mqtt_env \<Rightarrow> (string \<times> json) list \<Rightarrow> cpp_exn + data_converter option" where
  "rpc_converter env doc =
     (case map_of doc ''converter'' of
        None \<Rightarrow> Inr None
      | Some (JString s) \<Rightarrow>
          (let converterSpec = c_str s
           in if converterSpec \<noteq> [] \<and> converterSpec \<noteq> ''none''
              then bindE (createConverterFrom env converterSpec) (\<lambda>c. Inr (Some c))
              else Inr None)
      | Some _ \<Rightarrow> Inl (InvalidArgument ''invalid field: converter''))"

text \<open>The registers of a raw write.\<close>

definition rpc_uint16 :: "json \<Rightarrow> u16 option" where
  "rpc_uint16 j =
     (if json_IsUint j \<and> json_int j \<le> UINT16_MAX then Some (of_int (json_int j)) else None)"

fun rpc_elements :: "json list \<Rightarrow> cpp_exn + u16 list" where
  "rpc_elements [] = Inr []"
| "rpc_elements (j # js) =
     (case rpc_uint16 j of
        None \<Rightarrow> Inl (InvalidArgument ''value elements must be uint16 integers'')
      | Some r \<Rightarrow> bindE (rpc_elements js) (\<lambda>rs. Inr (r # rs)))"

definition rpc_raw_values :: "json \<Rightarrow> cpp_exn + u16 list" where
  "rpc_raw_values val =
     (case rpc_uint16 val of
        Some r \<Rightarrow> Inr [r]
      | None \<Rightarrow>
          (case val of
             JArray js \<Rightarrow> rpc_elements js
           | _ \<Rightarrow> Inl (InvalidArgument
                      ''value must be a uint16 integer or an array of uint16 values'')))"

definition rpcWriteValueFromJson :: "json \<Rightarrow> cpp_exn + mqtt_value" where
  "rpcWriteValueFromJson pValue =
     (case pValue of
        JString s \<Rightarrow> Inr (fromString (c_str s))
      | JDouble d \<Rightarrow> Inr (DoubleValue d NO_PRECISION)
      | JInt v \<Rightarrow>
          if json_IsInt pValue then Inr (IntValue v)
          else if json_IsInt64 pValue then Inr (Int64Value v)
          else if json_IsUint pValue then Inr (Int64Value v)
          else if json_IsUint64 pValue then
            (if v > LONG_MAX then Inl (InvalidArgument ''value out of range'')
             else Inr (Int64Value v))
          else Inl (InvalidArgument ''converter write requires a scalar value (number or string)'')
      | _ \<Rightarrow> Inl (InvalidArgument ''converter write requires a scalar value (number or string)''))"

definition rpc_max_count :: "register_type \<Rightarrow> int" where
  "rpc_max_count ty = (if ty = COIL \<or> ty = BIT then 2000 else 125)"

definition rpc_count :: "register_type \<Rightarrow> (string \<times> json) list \<Rightarrow> cpp_exn + int" where
  "rpc_count ty doc =
     (case map_of doc ''count'' of
        None \<Rightarrow> Inr 1
      | Some j \<Rightarrow>
          if \<not> json_IsInt j then Inl (InvalidArgument ''invalid field: count'')
          else if json_int j < 1 \<or> json_int j > rpc_max_count ty
          then Inl (InvalidArgument (''count out of range [1, '' @ to_string (rpc_max_count ty) @ '']''))
          else Inr (json_int j))"

text \<open>The register count and, for a write, the registers.\<close>

definition rpc_values ::
  "(string \<times> json) list \<Rightarrow> register_type \<Rightarrow> data_converter option \<Rightarrow> cpp_exn + int \<times> u16 list" where
  "rpc_values doc ty conv =
     (case (map_of doc ''value'', conv) of
        (Some val, None) \<Rightarrow>
          bindE (rpc_raw_values val) (\<lambda>rs. Inr (to_int32 (int (length rs)), rs))
      | (value, _) \<Rightarrow>
          bindE (rpc_count ty doc) (\<lambda>count.
            (case (value, conv) of
               (Some val, Some c) \<Rightarrow>
                 bindE (rpcWriteValueFromJson val) (\<lambda>v.
                 bindE (toModbus c v count) (\<lambda>regs.
                   if int (length regs) \<noteq> count
                   then Inl (InvalidArgument (''converter produced '' @
                          to_string (int (length regs)) @ '' register(s), expected '' @
                          to_string count))
                   else Inr (count, regs)))
             | _ \<Rightarrow> Inr (count, []))))"

record rpc_request =
  rqNetwork :: string
  rqSlave :: int
  rqAddress :: string
  rqRegister :: int
  rqType :: register_type
  rqConverter :: "data_converter option"
  rqIsWrite :: bool
  rqCount :: int
  rqValues :: "u16 list"

text \<open>The checks of \<open>handleRpcRequest\<close>, in the order of the code.\<close>

definition checkRpcRequest ::
  "'m mqtt_env \<Rightarrow> 'm mqtt_client \<Rightarrow> string \<Rightarrow> cpp_exn + rpc_request" where
  "checkRpcRequest env s payload =
     bindE (rpc_document env payload) (\<lambda>doc.
     bindE (rpc_string doc ''network'') (\<lambda>networkName.
     bindE (rpc_slave doc) (\<lambda>slaveId.
     bindE (rpc_string doc ''register'') (\<lambda>regStr.
     bindE (registerNumberFromString regStr) (\<lambda>regNum.
     bindE (rpc_register_type doc) (\<lambda>regType.
     bindE (rpc_converter env doc) (\<lambda>conv.
       let isWrite = map_of doc ''value'' \<noteq> None
       in if \<not> hasNetwork networkName (mModbusClients s)
          then Inl (InvalidArgument (''network not found: '' @ networkName))
          else if isWrite \<and> mRpcMode s \<noteq> READ_WRITE
          then Inl (InvalidArgument ''writes are disabled (mode: read)'')
          else if isWrite \<and> (regType = BIT \<or> regType = INPUT)
          then Inl (InvalidArgument ''register_type is read-only'')
          else
            bindE (rpc_values doc regType conv) (\<lambda>(count, values).
              Inr \<lparr>rqNetwork = networkName, rqSlave = slaveId, rqAddress = regStr,
                   rqRegister = regNum, rqType = regType, rqConverter = conv,
                   rqIsWrite = isWrite, rqCount = count, rqValues = values\<rparr>))))))))"

text \<open>The next command id: negative, and starting again when the smallest is used up.\<close>

definition next_rpc_id :: "int \<Rightarrow> int" where
  "next_rpc_id mNext = (if mNext = INT_MIN then 0 else mNext) - 1"

definition acceptRpc ::
  "'m mqtt_env \<Rightarrow> string \<Rightarrow> string option \<Rightarrow> rpc_request \<Rightarrow> ('m, unit) client_op" where
  "acceptRpc env respTopic corr rq =
     bindC (getC (\<lambda>s. next_rpc_id (mNextRpcId s))) (\<lambda>cid.
     thenC (modifyC (\<lambda>s. s\<lparr>mNextRpcId := cid,
              mPendingRpc := omap_put cid
                \<lparr>rpcNetworkName = rqNetwork rq, rpcResponseTopic = respTopic,
                 rpcCorrelationData = corr, rpcSlaveId = rqSlave rq,
                 rpcRegisterNumber = rqRegister rq, rpcDisplayAddress = rqAddress rq,
                 rpcRegisterType = rqType rq, rpcCount = rqCount rq, rpcIsWrite = rqIsWrite rq,
                 rpcConverter = rqConverter rq\<rparr> (mPendingRpc s)\<rparr>))
       (if rqIsWrite rq then
          bindC (nowC env) (\<lambda>t.
            enqueueC (rqNetwork rq)
              (MessageItem (RegisterValues (new_register_values (rqSlave rq) (rqType rq)
                 (rqRegister rq) (rqValues rq) cid AUTO t))))
        else
          enqueueC (rqNetwork rq)
            (MessageItem (RegisterReadRequest
               (new_msg (rqSlave rq) (rqType rq) (rqRegister rq) (rqCount rq) cid)))))"

definition handleRpcRequest ::
  "'m mqtt_env \<Rightarrow> string \<Rightarrow> string option \<Rightarrow> string option \<Rightarrow> ('m, unit) client_op" where
  "handleRpcRequest env payload pResponseTopic corr =
     (case pResponseTopic of
        None \<Rightarrow> returnC ()
      | Some respTopic \<Rightarrow>
          if respTopic = [] then returnC ()
          else
            catchC
              (bindC (getC (\<lambda>s. checkRpcRequest env s payload)) (\<lambda>r.
               bindC (liftC r) (\<lambda>rq. acceptRpc env respTopic corr rq)))
              (on_any (\<lambda>e. publishRpcError env respTopic corr (exn_what e))))"

end
