(* ===== verification/Mqtt_Client.thy ===== *)
theory Mqtt_Client
  imports Mqtt_Rpc
begin

text \<open>
  \<open>mqttclient.cpp\<close>: the connection to the broker, what is published for messages from the Modbus
  threads, and what is sent to them for messages from the broker.
\<close>

section \<open>Configuration\<close>

definition isConnected :: "'m mqtt_client \<Rightarrow> bool" where
  "isConnected s \<longleftrightarrow> mConnectionState s = CONNECTED"

definition setBrokerConfig :: "broker_config \<Rightarrow> ('m, unit) client_op" where
  "setBrokerConfig config =
     modifyC (\<lambda>s. if \<not> broker_isSameAs (mBrokerConfig s) config then s\<lparr>mBrokerConfig := config\<rparr> else s)"

definition setClientId :: "'m mqtt_env \<Rightarrow> string \<Rightarrow> ('m, unit) client_op" where
  "setClientId env clientId s =
     (if mIsStarted s then (Inl (MosquittoException ''Cannot change client id when started''), s)
      else (Inr (), s\<lparr>mRpcRequestTopic := clientId @ ''/rpc/modbus_request'',
                    mMqttImpl := implInit (mqttImpl env) (c_str clientId) (mMqttImpl s)\<rparr>))"

definition addCommand :: "mqtt_command \<Rightarrow> ('m, unit) client_op" where
  "addCommand cmd = modifyC (\<lambda>s. s\<lparr>mCommands := omap_insert (cmdTopic cmd) cmd (mCommands s)\<rparr>)"

section \<open>Publishing\<close>

definition publishState :: "'m mqtt_env \<Rightarrow> nat \<Rightarrow> bool \<Rightarrow> ('m, unit) client_op" where
  "publishState env a force =
     bindC (getC (\<lambda>s. objectStore s a)) (\<lambda>obj.
       if mIsAvailable obj \<noteq> AvTrue then returnC ()
       else if objPublishMode obj = ONCE \<and> mLastPublishTime obj \<noteq> time_point_min then returnC ()
       else
         bindC (liftC (generate (formatDouble env) (renderJson env) obj)) (\<lambda>messageData.
           if messageData \<noteq> mLastPublishedPayload obj \<or> force then
             thenC (publishC env (c_str (mStateTopic obj)) (Some messageData) (mRetain obj))
               (thenC (setObjectC a (\<lambda>obj. obj\<lparr>mLastPublishedPayload := messageData\<rparr>))
                 (bindC (nowC env) (\<lambda>t. setObjectC a (\<lambda>obj. obj\<lparr>mLastPublishTime := t\<rparr>))))
           else returnC ()))"

definition publishAvailabilityChange :: "'m mqtt_env \<Rightarrow> nat \<Rightarrow> ('m, unit) client_op" where
  "publishAvailabilityChange env a =
     bindC (getC (\<lambda>s. objectStore s a)) (\<lambda>obj.
       if mIsAvailable obj = NotSet then returnC ()
       else
         catchC
           (publishC env (c_str (mAvailabilityTopic obj))
             (Some (if mIsAvailable obj = AvTrue then ''1'' else ''0'')) True)
           (on_mosquitto (returnC ())))"

text \<open>\<open>std::set\<close> of the objects handled: each address once, in the order of the lists.\<close>

definition publishAll :: "'m mqtt_env \<Rightarrow> ('m, unit) client_op" where
  "publishAll env =
     bindC (getC (\<lambda>s. remdups_first (concat (map snd (mObjects s)))))
       (forC (\<lambda>a.
          thenC
            (bindC (getC (\<lambda>s. mIsAvailable (objectStore s a))) (\<lambda>flag.
               if flag = AvTrue then publishState env a True else returnC ()))
            (publishAvailabilityChange env a)))"

section \<open>Messages from the Modbus threads\<close>

text \<open>An object that became available is published before its availability.\<close>

definition publishBecameAvailable ::
  "'m mqtt_env \<Rightarrow> nat \<Rightarrow> available_flag \<Rightarrow> ('m, unit) client_op" where
  "publishBecameAvailable env a oldAvail =
     bindC (getC (\<lambda>s. objectStore s a)) (\<lambda>obj.
       if mRetain obj then publishState env a True
       else
         thenC
           (if oldAvail = NotSet then
              thenC (publishC env (c_str (mStateTopic obj)) None True)
                (bindC (liftC (generate (formatDouble env) (renderJson env) obj)) (\<lambda>payload.
                   setObjectC a (\<lambda>obj. obj\<lparr>mLastPublishedPayload := payload\<rparr>)))
            else returnC ())
           (if objPublishMode obj = EVERY_POLL then publishState env a True else returnC ()))"

text \<open>\<open>needStateRepublish\<close>, which reads the clock only where the answer depends on it.\<close>

definition republishC :: "'m mqtt_env \<Rightarrow> mqtt_object \<Rightarrow> ('m, bool) client_op" where
  "republishC env obj =
     (if objPublishMode obj = EVERY_POLL \<and> mLastPublishTime obj \<noteq> time_point_min
      then bindC (nowC env) (\<lambda>t. returnC (needStateRepublish t obj))
      else returnC (needStateRepublish 0 obj))"

definition processObjectValues ::
  "'m mqtt_env \<Rightarrow> string \<Rightarrow> msg_register_values \<Rightarrow> nat \<Rightarrow> ('m, unit) client_op" where
  "processObjectValues env net m a =
     bindC (getC (\<lambda>s. mIsAvailable (objectStore s a))) (\<lambda>oldAvail.
     thenC (objectC a (obj_updateRegisterValues net m))
       (bindC (getC (\<lambda>s. objectStore s a)) (\<lambda>obj.
          if oldAvail \<noteq> mIsAvailable obj then
            thenC (if mIsAvailable obj = AvTrue then publishBecameAvailable env a oldAvail
                   else returnC ())
              (publishAvailabilityChange env a)
          else bindC (republishC env obj) (publishState env a))))"

text \<open>The objects a message concerns. A poll without objects is an end iterator dereferenced.\<close>

definition affectedObjects ::
  "'m mqtt_env \<Rightarrow> string \<Rightarrow> msg_register_values \<Rightarrow> ('m, nat list option) client_op" where
  "affectedObjects env net m =
     bindC (getC (\<lambda>s. (map_of (mCommandObjects s) (mCommandId m),
                       map_of (mObjects s) (ident_of net m)))) (\<lambda>(byCommand, byPoll).
       if hasCommandId m then
         (case byCommand of
            Some as \<Rightarrow> returnC (Some as)
          | None \<Rightarrow>
              if isRpc m then thenC (publishRpcResponse env m) (returnC byPoll)
              else returnC None)
       else
         (case byPoll of
            Some as \<Rightarrow> returnC (Some as)
          | None \<Rightarrow> liftC (Inl Undefined)))"

definition processRegisterValues ::
  "'m mqtt_env \<Rightarrow> string \<Rightarrow> msg_register_values \<Rightarrow> ('m, unit) client_op" where
  "processRegisterValues env net m =
     bindC (getC isConnected) (\<lambda>up.
       if \<not> up then returnC ()
       else
         bindC (affectedObjects env net m) (\<lambda>as.
           case as of
             None \<Rightarrow> returnC ()
           | Some as \<Rightarrow>
               catchC (forC (processObjectValues env net m) as) (on_mosquitto (returnC ()))))"

definition processRegistersOperationFailed ::
  "'m mqtt_env \<Rightarrow> string \<Rightarrow> 'a modbus_msg_scheme \<Rightarrow> ('m, unit) client_op" where
  "processRegistersOperationFailed env net m =
     bindC (getC (\<lambda>s. map_of (mObjects s) (ident_of net m))) (\<lambda>it.
       case it of
         None \<Rightarrow> returnC ()
       | Some as \<Rightarrow>
           forC (\<lambda>a.
             bindC (getC (\<lambda>s. mIsAvailable (objectStore s a))) (\<lambda>oldAvail.
             thenC (objectC a (obj_updateRegistersReadFailed net m))
               (bindC (getC (\<lambda>s. mIsAvailable (objectStore s a))) (\<lambda>newAvail.
                  thenC (publishState env a False)
                    (if oldAvail \<noteq> newAvail then publishAvailabilityChange env a
                     else returnC ()))))) as)"

definition setNetworkState :: "string \<Rightarrow> bool \<Rightarrow> mqtt_object \<Rightarrow> cpp_exn option \<times> mqtt_object" where
  "setNetworkState net isUp obj =
     (case obj_setModbusNetworkState net isUp obj of
        (Inl e, obj) \<Rightarrow> (Some e, obj)
      | (Inr _, obj) \<Rightarrow> (None, obj))"

definition processModbusNetworkState :: "'m mqtt_env \<Rightarrow> string \<Rightarrow> bool \<Rightarrow> ('m, unit) client_op" where
  "processModbusNetworkState env net isUp =
     (if isUp then returnC ()
      else
        bindC (getC (\<lambda>s. remdups_first (concat (map snd
                (filter (\<lambda>e. idNetworkName (fst e) = net) (mObjects s))))))
          (forC (\<lambda>a.
             bindC (getC (\<lambda>s. mIsAvailable (objectStore s a))) (\<lambda>oldAvail.
             thenC (objectC a (setNetworkState net isUp))
               (bindC (getC (\<lambda>s. mIsAvailable (objectStore s a))) (\<lambda>newAvail.
                  if oldAvail \<noteq> newAvail then publishAvailabilityChange env a
                  else returnC ()))))))"

section \<open>The connection\<close>

definition mqtt_start :: "'m mqtt_env \<Rightarrow> ('m, unit) client_op" where
  "mqtt_start env s =
     (if mConnectionState s = CONNECTED then (Inr (), s)
      else
        let (r, m) = implConnect (mqttImpl env) (mBrokerConfig s) (mMqttImpl s)
        in (r, s\<lparr>mIsStarted := True, mConnectionState := CONNECTING, mMqttImpl := m\<rparr>))"

definition mqtt_shutdown :: "'m mqtt_env \<Rightarrow> ('m, unit) client_op" where
  "mqtt_shutdown env =
     modifyC (\<lambda>s.
       let s = s\<lparr>mModbusClients := []\<rparr>
       in case mConnectionState s of
            CONNECTED \<Rightarrow>
              s\<lparr>mConnectionState := DISCONNECTING,
                mMqttImpl := implDisconnect (mqttImpl env) (mMqttImpl s)\<rparr>
          | CONNECTING \<Rightarrow> s\<lparr>mIsStarted := False\<rparr>
          | DISCONNECTING \<Rightarrow> s
          | DISCONNECTED \<Rightarrow> s\<lparr>mIsStarted := False, mConnectionState := DISCONNECTED\<rparr>)"

text \<open>\<open>stop\<close> is called where the C library is not musl. \<open>notifyQueues\<close> wakes the main loop.\<close>

definition onDisconnect :: "'m mqtt_env \<Rightarrow> ('m, unit) client_op" where
  "onDisconnect env =
     modifyC (\<lambda>s.
       let s = s\<lparr>mPendingRpc := [],
                 mModbusClients := map (sendMqttNetworkIsUp False) (mModbusClients s)\<rparr>
       in case mConnectionState s of
            CONNECTED \<Rightarrow> s\<lparr>mMqttImpl := implReconnect (mqttImpl env) (mMqttImpl s)\<rparr>
          | CONNECTING \<Rightarrow> s\<lparr>mMqttImpl := implReconnect (mqttImpl env) (mMqttImpl s)\<rparr>
          | DISCONNECTING \<Rightarrow>
              s\<lparr>mConnectionState := DISCONNECTED,
                mMqttImpl := implStop (mqttImpl env) (mMqttImpl s), mIsStarted := False\<rparr>
          | DISCONNECTED \<Rightarrow> s)"

definition subscribeC :: "'m mqtt_env \<Rightarrow> string \<Rightarrow> ('m, unit) client_op" where
  "subscribeC env topic =
     modifyC (\<lambda>s. s\<lparr>mMqttImpl := implSubscribe (mqttImpl env) (c_str topic) (mMqttImpl s)\<rparr>)"

definition onConnect :: "'m mqtt_env \<Rightarrow> ('m, unit) client_op" where
  "onConnect env =
     bindC (getC mCommands) (\<lambda>commands.
     thenC (forC (\<lambda>cmd. subscribeC env (cmdTopic (snd cmd))) commands)
     (bindC (getC (\<lambda>s. (mRpcMode s, mRpcRequestTopic s))) (\<lambda>(mode, topic).
      thenC (if mode \<noteq> DISABLED then subscribeC env topic else returnC ())
     (thenC (modifyC (\<lambda>s. s\<lparr>mConnectionState := CONNECTED\<rparr>))
     (thenC (publishAll env)
       (modifyC (\<lambda>s. s\<lparr>mModbusClients := map (sendMqttNetworkIsUp True) (mModbusClients s)\<rparr>)))))))"

section \<open>Messages from the broker\<close>

definition createMqttValue :: "mqtt_command \<Rightarrow> string \<Rightarrow> cpp_exn + mqtt_value" where
  "createMqttValue cmd data = (case cmdPayloadType cmd of STRING \<Rightarrow> Inr (BinaryValue data))"

text \<open>The registers a payload gives for a command.\<close>

definition commandRegisters :: "'m mqtt_env \<Rightarrow> mqtt_command \<Rightarrow> string \<Rightarrow> cpp_exn + u16 list" where
  "commandRegisters env cmd payload =
     bindE (createMqttValue cmd payload) (\<lambda>tmpval.
     bindE (case cmdConverter cmd of
              Some conv \<Rightarrow> toModbus conv tmpval (mCount cmd)
            | None \<Rightarrow>
                default_toModbus (formatDouble env)
                  (\<lambda>text. case parseJson env text of Inl _ \<Rightarrow> None | Inr j \<Rightarrow> Some j)
                  tmpval (mCount cmd)) (\<lambda>reg_values.
       if int (length reg_values) \<noteq> mCount cmd
       then Inl (MqttPayloadConversionException (''Conversion failed, expecting '' @
              to_string (mCount cmd) @ '' register values, got '' @
              to_string (int (length reg_values))))
       else Inr reg_values))"

definition client_sendCommand :: "'m mqtt_env \<Rightarrow> mqtt_command \<Rightarrow> u16 list \<Rightarrow> ('m, unit) client_op" where
  "client_sendCommand env cmd reg_values =
     bindC (nowC env) (\<lambda>t.
       enqueueC (cmdNetworkName cmd)
         (MessageItem (RegisterValues (new_register_values (mSlaveId cmd) (mRegisterType cmd)
            (mRegister cmd) reg_values (mCommandId cmd) (cmdWriteMode cmd) t))))"

definition on_conversion_error ::
  "('m, unit) client_op \<Rightarrow> cpp_exn \<Rightarrow> ('m, unit) client_op option" where
  "on_conversion_error d e =
     (case e of
        ConvException _ \<Rightarrow> Some d
      | MqttPayloadConversionException _ \<Rightarrow> Some d
      | _ \<Rightarrow> None)"

definition onMessage ::
  "'m mqtt_env \<Rightarrow> string \<Rightarrow> string \<Rightarrow> string option \<Rightarrow> string option \<Rightarrow> ('m, unit) client_op" where
  "onMessage env topic payload responseTopic corr =
     bindC (getC (\<lambda>s. map_of (mCommands s) topic)) (\<lambda>it.
       case it of
         None \<Rightarrow>
           bindC (getC (\<lambda>s. mRpcMode s \<noteq> DISABLED \<and> mRpcRequestTopic s = topic)) (\<lambda>rpc.
             if rpc then handleRpcRequest env payload responseTopic corr else returnC ())
       | Some cmd \<Rightarrow>
           bindC (getC (\<lambda>s. hasNetwork (cmdNetworkName cmd) (mModbusClients s))) (\<lambda>known.
             if \<not> known then returnC ()
             else
               catchC
                 (bindC (liftC (commandRegisters env cmd payload)) (client_sendCommand env cmd))
                 (on_conversion_error (returnC ()))))"

end
