(* ===== verification/Client_Logic.thy ===== *)
theory Client_Logic
  imports Mqtt_Client
begin

text \<open>
  Rules for triples on the operations of the MQTT client: a state that satisfies the precondition
  is led to one that satisfies the postcondition, or, with an exception, the exceptional one.
\<close>

named_theorems hoare_rules \<open>rules for triples\<close>

definition hoareC ::
  "(cpp_exn \<Rightarrow> 'm mqtt_client \<Rightarrow> bool) \<Rightarrow> ('m mqtt_client \<Rightarrow> bool) \<Rightarrow> ('m, 'a) client_op
    \<Rightarrow> ('a \<Rightarrow> 'm mqtt_client \<Rightarrow> bool) \<Rightarrow> bool" where
  "hoareC X P c Q \<longleftrightarrow>
     (\<forall>s r s'. P s \<longrightarrow> c s = (r, s') \<longrightarrow> (case r of Inl e \<Rightarrow> X e s' | Inr x \<Rightarrow> Q x s'))"

lemma bindC_return [simp]: "bindC (returnC x) f = f x"
  by (simp add: fun_eq_iff bindC_def returnC_def)

lemma bindC_Inr_iff:
  "bindC c f s = (Inr y, u) \<longleftrightarrow> (\<exists>x t. c s = (Inr x, t) \<and> f x t = (Inr y, u))"
  by (auto simp: bindC_def split: prod.splits sum.splits)

lemma hoareD: "hoareC X P c Q \<Longrightarrow> P s \<Longrightarrow> c s = (Inr x, s') \<Longrightarrow> Q x s'"
  by (fastforce simp: hoareC_def)

lemma hoareD_exn: "hoareC X P c Q \<Longrightarrow> P s \<Longrightarrow> c s = (Inl e, s') \<Longrightarrow> X e s'"
  by (fastforce simp: hoareC_def)

lemma hoare_return [hoare_rules]: "hoareC X (Q x) (returnC x) Q"
  by (auto simp: hoareC_def returnC_def)

lemma hoare_get: "hoareC X (\<lambda>s. Q (f s) s) (getC f) Q"
  by (auto simp: hoareC_def getC_def)

lemma hoare_modify: "hoareC X (\<lambda>s. Q () (f s)) (modifyC f) Q"
  by (auto simp: hoareC_def modifyC_def)

lemma hoare_lift: "hoareC X (\<lambda>s. case r of Inl e \<Rightarrow> X e s | Inr x \<Rightarrow> Q x s) (liftC r) Q"
  by (auto simp: hoareC_def liftC_def split: sum.splits)

lemma hoare_bind:
  assumes "hoareC X P c R" and "\<And>x. hoareC X (R x) (f x) Q"
  shows "hoareC X P (bindC c f) Q"
  using assms unfolding hoareC_def bindC_def
  by (fastforce split: prod.splits sum.splits)

lemma hoare_then:
  "hoareC X P c (\<lambda>_. R) \<Longrightarrow> hoareC X R d Q \<Longrightarrow> hoareC X P (thenC c d) Q"
  unfolding thenC_def by (rule hoare_bind)

lemma hoare_get_bind:
  "(\<And>x. hoareC X (\<lambda>s. P s \<and> x = f s) (g x) Q) \<Longrightarrow> hoareC X P (bindC (getC f) g) Q"
  by (rule hoare_bind [where R = "\<lambda>x s. P s \<and> x = f s"]) (auto simp: hoareC_def getC_def)

lemma hoare_lift_bind:
  "(\<And>e. r = Inl e \<Longrightarrow> hoareC X P (liftC (Inl e)) Q) \<Longrightarrow> (\<And>x. r = Inr x \<Longrightarrow> hoareC X P (g x) Q) \<Longrightarrow>
   hoareC X P (bindC (liftC r) g) Q"
  by (cases r) (auto simp: hoareC_def bindC_def liftC_def)

lemma hoare_pre: "hoareC X P c Q \<Longrightarrow> (\<And>s. P' s \<Longrightarrow> P s) \<Longrightarrow> hoareC X P' c Q"
  by (auto simp: hoareC_def)

lemma hoare_post: "hoareC X P c Q \<Longrightarrow> (\<And>x s. Q x s \<Longrightarrow> Q' x s) \<Longrightarrow> hoareC X P c Q'"
  by (fastforce simp: hoareC_def split: sum.splits)

lemma hoare_if:
  "(b \<Longrightarrow> hoareC X P c Q) \<Longrightarrow> (\<not> b \<Longrightarrow> hoareC X P d Q) \<Longrightarrow> hoareC X P (if b then c else d) Q"
  by simp

lemma hoare_for:
  "(\<And>x. x \<in> set xs \<Longrightarrow> hoareC X I (f x) (\<lambda>_. I)) \<Longrightarrow> hoareC X I (forC f xs) (\<lambda>_. I)"
  by (induction xs) (auto intro: hoare_return hoare_then)

lemma hoare_catch:
  assumes "hoareC Y P c Q"
    and "\<And>e d. h e = Some d \<Longrightarrow> hoareC X (Y e) d Q"
    and "\<And>e s. h e = None \<Longrightarrow> Y e s \<Longrightarrow> X e s"
  shows "hoareC X P (catchC c h) Q"
  using assms unfolding hoareC_def catchC_def
  by (fastforce split: prod.splits sum.splits option.splits)

lemma hoare_false: "hoareC X (\<lambda>s. False) c Q"
  by (simp add: hoareC_def)

lemma hoare_fact: "(b \<Longrightarrow> hoareC X P c Q) \<Longrightarrow> hoareC X (\<lambda>s. P s \<and> b) c Q"
  by (auto simp: hoareC_def)

section \<open>Relations between the states before and after\<close>

text \<open>
  An operation that changes a state only as a preorder allows, whether it returns or throws.
\<close>

definition relC :: "('m mqtt_client \<Rightarrow> 'm mqtt_client \<Rightarrow> bool) \<Rightarrow> ('m, 'a) client_op \<Rightarrow> bool" where
  "relC R c \<longleftrightarrow> (\<forall>s r s'. c s = (r, s') \<longrightarrow> R s s')"

lemma relD: "relC R c \<Longrightarrow> c s = (r, s') \<Longrightarrow> R s s'"
  by (auto simp: relC_def)

locale client_preorder =
  fixes R :: "'m mqtt_client \<Rightarrow> 'm mqtt_client \<Rightarrow> bool"
  assumes refl: "R s s" and trans: "R s t \<Longrightarrow> R t u \<Longrightarrow> R s u"
begin

lemma rel_return: "relC R (returnC x)"
  by (simp add: relC_def returnC_def refl)

lemma rel_get: "relC R (getC f)"
  by (simp add: relC_def getC_def refl)

lemma rel_lift: "relC R (liftC r)"
  by (simp add: relC_def liftC_def refl)

lemma rel_bind: "relC R c \<Longrightarrow> (\<And>x. relC R (f x)) \<Longrightarrow> relC R (bindC c f)"
  unfolding relC_def bindC_def by (fastforce intro: trans split: prod.splits sum.splits)

lemma rel_then: "relC R c \<Longrightarrow> relC R d \<Longrightarrow> relC R (thenC c d)"
  unfolding thenC_def by (rule rel_bind)

lemma rel_for: "(\<And>x. relC R (f x)) \<Longrightarrow> relC R (forC f xs)"
  by (induction xs) (auto intro: rel_return rel_then)

lemma rel_catch: "relC R c \<Longrightarrow> (\<And>e d. h e = Some d \<Longrightarrow> relC R d) \<Longrightarrow> relC R (catchC c h)"
  unfolding relC_def catchC_def
  by (fastforce intro: trans split: prod.splits sum.splits option.splits)

lemma rel_on_mosquitto: "relC R c \<Longrightarrow> relC R d \<Longrightarrow> relC R (catchC c (on_mosquitto d))"
  by (rule rel_catch) (auto simp: on_mosquitto_def split: cpp_exn.splits)

lemma rel_on_any: "relC R c \<Longrightarrow> (\<And>e. relC R (d e)) \<Longrightarrow> relC R (catchC c (on_any d))"
  by (rule rel_catch) (auto simp: on_any_def split: if_splits)

lemma rel_if: "relC R c \<Longrightarrow> relC R d \<Longrightarrow> relC R (if b then c else d)"
  by simp

lemma rel_option: "relC R c \<Longrightarrow> (\<And>x. relC R (f x)) \<Longrightarrow> relC R (case opt of None \<Rightarrow> c | Some x \<Rightarrow> f x)"
  by (cases opt) simp_all

lemmas rel_rules = rel_return rel_get rel_lift rel_bind rel_then rel_for rel_on_mosquitto rel_on_any
  rel_if rel_option

end

end
