(* ===== verification/Object_Properties.thy ===== *)
theory Object_Properties
  imports Mqtt_Object
begin

text \<open>
  The tree of an MQTT object is a view of a register store: a map from register identities to the
  last value read and whether the last access succeeded. Every message acts on the store, and the
  leaves and the availability flag of the object follow it.
\<close>

section \<open>The register store\<close>

record store_cell =
  readable :: bool
  lastRead :: "u16 option"

type_synonym store = "reg_ident \<Rightarrow> store_cell"

definition empty_store :: store where
  "empty_store i = \<lparr>readable = True, lastRead = None\<rparr>"

text \<open>The messages from the Modbus threads that reach an object.\<close>

datatype object_event =
    ValuesRead string msg_register_values
  | ReadFailed string modbus_msg
  | NetworkState string bool

definition addresses :: "string \<Rightarrow> 'a modbus_msg_scheme \<Rightarrow> reg_ident \<Rightarrow> bool" where
  "addresses net m i \<longleftrightarrow> same_slave net m i \<and> idRegisterNumber i \<in> regs m"

text \<open>
  What an event does to the registers it names: values read, a read of a range failed, or the state
  of a whole network changed.
\<close>

fun register_step :: "object_event \<Rightarrow> store \<Rightarrow> store" where
  "register_step (ValuesRead net m) s i =
     (if addresses net m i
      then \<lparr>readable = True, lastRead = Some (mRegisters m ! nat (idRegisterNumber i - mRegister m))\<rparr>
      else s i)"
| "register_step (ReadFailed net m) s i =
     (if addresses net m i then (s i)\<lparr>readable := False\<rparr> else s i)"
| "register_step (NetworkState net isUp) s i =
     (if net = idNetworkName i then (s i)\<lparr>readable := isUp\<rparr> else s i)"

text \<open>
  The objects see failed reads in another way: a failed read also marks the registers just below
  its range, since the distance to its first register is taken without a sign.
\<close>

fun store_step :: "object_event \<Rightarrow> store \<Rightarrow> store" where
  "store_step (ValuesRead net m) s i =
     (if addresses net m i
      then \<lparr>readable = True, lastRead = Some (mRegisters m ! nat (idRegisterNumber i - mRegister m))\<rparr>
      else s i)"
| "store_step (ReadFailed net m) s i =
     (if same_slave net m i \<and> \<bar>idRegisterNumber i - mRegister m\<bar> mod 65536 < mCount m
      then (s i)\<lparr>readable := False\<rparr> else s i)"
| "store_step (NetworkState net isUp) s i =
     (if net = idNetworkName i then (s i)\<lparr>readable := isUp\<rparr> else s i)"

text \<open>A leaf that shows a cell, and an object whose leaves all show the store.\<close>

definition shows_cell :: "reg_value \<Rightarrow> store_cell \<Rightarrow> bool" where
  "shows_cell v c \<longleftrightarrow>
     mReadOk v = readable c \<and> mHasValue v = (lastRead c \<noteq> None) \<and>
     mRawValue v = (case lastRead c of None \<Rightarrow> 0 | Some r \<Rightarrow> r)"

fun leaves :: "data_node \<Rightarrow> (reg_ident \<times> reg_value) list" where
  "leaves (DataNode name ns forced i v conv) =
     (if ns = [] then [(i, v)] else concat (map leaves ns))"

definition object_leaves :: "mqtt_object \<Rightarrow> (reg_ident \<times> reg_value) list" where
  "object_leaves obj =
     concat (map leaves (lNodes (mState obj))) @ concat (map leaves (lNodes (mAvailability obj)))"

definition shows_store :: "mqtt_object \<Rightarrow> store \<Rightarrow> bool" where
  "shows_store obj s \<longleftrightarrow> (\<forall>(i, v) \<in> set (object_leaves obj). shows_cell v (s i))"

definition object_step :: "object_event \<Rightarrow> mqtt_object \<Rightarrow> cpp_exn option \<times> mqtt_object" where
  "object_step e obj =
     (case e of
        ValuesRead net m \<Rightarrow> obj_updateRegisterValues net m obj
      | ReadFailed net m \<Rightarrow> obj_updateRegistersReadFailed net m obj
      | NetworkState net isUp \<Rightarrow>
          (case obj_setModbusNetworkState net isUp obj of
             (Inl x, obj) \<Rightarrow> (Some x, obj)
           | (Inr _, obj) \<Rightarrow> (None, obj)))"

text \<open>A run of events ends at the first exception of a converter.\<close>

fun object_run :: "object_event list \<Rightarrow> mqtt_object \<Rightarrow> cpp_exn option \<times> mqtt_object" where
  "object_run [] obj = (None, obj)"
| "object_run (e # es) obj =
     (case object_step e obj of
        (Some x, obj) \<Rightarrow> (Some x, obj)
      | (None, obj) \<Rightarrow> object_run es obj)"

definition fresh_object :: "mqtt_object \<Rightarrow> bool" where
  "fresh_object obj \<longleftrightarrow>
     mIsAvailable obj = NotSet \<and> object_leaves obj \<noteq> [] \<and>
     (\<forall>(i, v) \<in> set (object_leaves obj). v = new_value)"

text \<open>
  The registers of a message fill its range, and a 16-bit index reaches all of them.
\<close>

fun event_ok :: "object_event \<Rightarrow> bool" where
  "event_ok (ValuesRead net m) = (mCount m = int (length (mRegisters m)) \<and> mCount m \<le> 65536)"
| "event_ok _ = True"

text \<open>
  The ranges of failed reads lie in the address space of Modbus, as do the registers of leaves. A
  register lies just below the range of a failed read if its distance to the first register is
  smaller than the count.
\<close>

fun in_address_space :: "object_event \<Rightarrow> bool" where
  "in_address_space (ReadFailed net m) = (0 \<le> mRegister m \<and> mRegister m + mCount m \<le> 65536)"
| "in_address_space _ = True"

fun just_below :: "reg_ident \<Rightarrow> object_event \<Rightarrow> bool" where
  "just_below i (ReadFailed net m) =
     (same_slave net m i \<and> mRegister m - mCount m < idRegisterNumber i \<and>
      idRegisterNumber i < mRegister m)"
| "just_below i _ = False"

text \<open>
  A leaf mirrors its register after some events: it has a value iff the register was read, namely
  the last one read; it counts as readable only if the last access succeeded, and exactly then
  unless a failed read ended just above it.
\<close>

definition mirrors :: "object_event list \<Rightarrow> reg_ident \<Rightarrow> reg_value \<Rightarrow> bool" where
  "mirrors es i v \<longleftrightarrow>
     (let c = fold register_step es empty_store i
      in mHasValue v = (lastRead c \<noteq> None) \<and>
         mRawValue v = (case lastRead c of None \<Rightarrow> 0 | Some r \<Rightarrow> r) \<and>
         (mReadOk v \<longrightarrow> readable c) \<and>
         (0 \<le> idRegisterNumber i \<and> idRegisterNumber i < 65536 \<and> \<not> list_ex (just_below i) es \<longrightarrow>
            mReadOk v = readable c))"

lemma addresses_marked:
  "in_address_space (ReadFailed net m) \<Longrightarrow> addresses net m i \<Longrightarrow>
   same_slave net m i \<and> \<bar>idRegisterNumber i - mRegister m\<bar> mod 65536 < mCount m"
  by (auto simp: addresses_def regs_def range_defs)

lemma marked_addresses:
  assumes "in_address_space (ReadFailed net m)" and "same_slave net m i"
    and "\<bar>idRegisterNumber i - mRegister m\<bar> mod 65536 < mCount m"
    and "0 \<le> idRegisterNumber i" "idRegisterNumber i < 65536" and "\<not> just_below i (ReadFailed net m)"
  shows "addresses net m i"
proof -
  have "0 \<le> \<bar>idRegisterNumber i - mRegister m\<bar> mod 65536" by simp
  with assms(3) have "0 < mCount m" by linarith
  with assms(1,4,5) have "\<bar>idRegisterNumber i - mRegister m\<bar> < 65536" by auto
  with assms(3) have "\<bar>idRegisterNumber i - mRegister m\<bar> < mCount m" by simp
  with assms(2,6) show ?thesis by (auto simp: addresses_def regs_def range_defs)
qed

text \<open>How the store of the objects relates to the registers.\<close>

definition marks_more :: "bool \<Rightarrow> store_cell \<Rightarrow> store_cell \<Rightarrow> bool" where
  "marks_more exact c d \<longleftrightarrow>
     lastRead c = lastRead d \<and> (readable c \<longrightarrow> readable d) \<and> (exact \<longrightarrow> readable c = readable d)"

lemma step_marks_more:
  assumes "in_address_space e" and "marks_more exact (s i) (r i)"
    and "exact \<Longrightarrow> 0 \<le> idRegisterNumber i \<and> idRegisterNumber i < 65536 \<and> \<not> just_below i e"
  shows "marks_more exact (store_step e s i) (register_step e r i)"
proof (cases e)
  case (ReadFailed net m)
  show ?thesis
  proof (cases "addresses net m i")
    case True
    from addresses_marked [OF _ this] assms(1,2) True ReadFailed show ?thesis
      by (auto simp: marks_more_def)
  next
    case False
    with marked_addresses [of net m i] assms ReadFailed show ?thesis
      by (auto simp: marks_more_def)
  qed
qed (use assms(2) in \<open>auto simp: marks_more_def\<close>)

lemma run_marks_more:
  "list_all in_address_space es \<Longrightarrow> marks_more exact (s i) (r i) \<Longrightarrow>
   (exact \<Longrightarrow> 0 \<le> idRegisterNumber i \<and> idRegisterNumber i < 65536 \<and> \<not> list_ex (just_below i) es) \<Longrightarrow>
   marks_more exact (fold store_step es s i) (fold register_step es r i)"
proof (induction es arbitrary: s r)
  case (Cons e es)
  then have "marks_more exact (store_step e s i) (register_step e r i)"
    by (intro step_marks_more) auto
  with Cons show ?case by simp
qed simp

lemma shows_mirrors:
  assumes "list_all in_address_space es" and "shows_cell v (fold store_step es empty_store i)"
  shows "mirrors es i v"
  using assms(2) run_marks_more [OF assms(1), of False empty_store i empty_store]
    run_marks_more [OF assms(1), of True empty_store i empty_store]
  by (auto simp: mirrors_def shows_cell_def marks_more_def Let_def)

section \<open>Walks and leaves\<close>

definition leaf_step :: "object_event \<Rightarrow> reg_ident \<Rightarrow> reg_value \<Rightarrow> bool \<times> reg_value" where
  "leaf_step e =
     (case e of
        ValuesRead net m \<Rightarrow> leaf_values net m
      | ReadFailed net m \<Rightarrow> leaf_failed net m
      | NetworkState net isUp \<Rightarrow> leaf_network net isUp)"

lemma leaves_not_Nil [simp]: "leaves n \<noteq> []"
proof (induction n rule: leaves.induct)
  case (1 name ns forced i v conv)
  then show ?case by (cases ns) auto
qed

lemma walk_leaves:
  "leaves (snd (walk f n)) = map (\<lambda>(i, v). (i, snd (f i v))) (leaves n) \<and>
   (fst (walk f n) \<longleftrightarrow> (\<exists>(i, v) \<in> set (leaves n). fst (f i v)))"
proof (induction f n rule: walk.induct)
  case (1 f name ns forced i v conv)
  show ?case
  proof (cases "ns = []")
    case True
    then show ?thesis by (auto split: prod.splits)
  next
    case False
    have "map (\<lambda>n. leaves (snd (walk f n))) ns =
        map (\<lambda>n. map (\<lambda>(i, v). (i, snd (f i v))) (leaves n)) ns"
      using 1 False by auto
    from arg_cong [OF this, of concat]
    have "leaves (snd (walk f (DataNode name ns forced i v conv))) =
        map (\<lambda>(i, v). (i, snd (f i v))) (leaves (DataNode name ns forced i v conv))"
      using False by (simp add: Let_def map_concat comp_def)
    moreover have "list_ex fst (map (walk f) ns) \<longleftrightarrow>
        (\<exists>n \<in> set ns. \<exists>(i, v) \<in> set (leaves n). fst (f i v))"
      using 1 False by (auto simp: list_ex_iff)
    ultimately show ?thesis using False by (simp add: Let_def)
  qed
qed

lemma walk_list_leaves:
  "concat (map leaves (lNodes (snd (walk_list f l)))) =
     map (\<lambda>(i, v). (i, snd (f i v))) (concat (map leaves (lNodes l)))"
  "fst (walk_list f l) \<longleftrightarrow> (\<exists>(i, v) \<in> set (concat (map leaves (lNodes l))). fst (f i v))"
  by (auto simp: walk_list_def Let_def map_concat list_ex_iff walk_leaves comp_def split: prod.splits)

lemma node_isPolling_leaves: "node_isPolling n \<longleftrightarrow> (\<forall>(i, v) \<in> set (leaves n). mReadOk v)"
  by (induction n rule: node_isPolling.induct) (auto simp: list_all_iff)

lemma node_hasAllValues_leaves: "node_hasAllValues n \<longleftrightarrow> (\<forall>(i, v) \<in> set (leaves n). mHasValue v)"
  by (induction n rule: node_hasAllValues.induct) (auto simp: list_all_iff)

lemma polling_leaves:
  "state_isPolling (mState obj) \<and> state_isPolling (mAvailability obj) \<longleftrightarrow>
   (\<forall>(i, v) \<in> set (object_leaves obj). mReadOk v)"
  by (auto simp: state_isPolling_def object_leaves_def list_all_iff node_isPolling_leaves)

lemma values_leaves:
  "state_hasAllValues (mState obj) \<and> state_hasAllValues (mAvailability obj) \<longleftrightarrow>
   (\<forall>(i, v) \<in> set (object_leaves obj). mHasValue v)"
  by (auto simp: state_hasAllValues_def object_leaves_def list_all_iff node_hasAllValues_leaves)

section \<open>One event\<close>

lemma unat_of_int_u16: "0 \<le> k \<Longrightarrow> k < 65536 \<Longrightarrow> unat (of_int k :: u16) = nat k"
  by (simp add: unsigned_of_int take_bit_int_eq_self)

lemma leaf_values_shows:
  assumes "event_ok (ValuesRead net m)" and "shows_cell v (s i)"
  shows "shows_cell (snd (leaf_values net m i v)) (store_step (ValuesRead net m) s i)"
proof -
  have "unat (of_int (idRegisterNumber i - mRegister m) :: u16) = nat (idRegisterNumber i - mRegister m)"
    if "idRegisterNumber i \<in> regs m"
    using that assms(1)
    by (intro unat_of_int_u16) (auto simp: regs_def range_defs)
  then show ?thesis using assms(2)
    by (auto simp: leaf_values_def addresses_def regs_def range_defs setValue_def setReadError_def
        shows_cell_def Let_def split: option.splits)
qed

lemma leaf_failed_shows:
  "shows_cell v (s i) \<Longrightarrow> shows_cell (snd (leaf_failed net m i v)) (store_step (ReadFailed net m) s i)"
  by (auto simp: leaf_failed_def setReadError_def shows_cell_def uint_word_of_int)

lemma leaf_network_shows:
  "shows_cell v (s i) \<Longrightarrow>
   shows_cell (snd (leaf_network net isUp i v)) (store_step (NetworkState net isUp) s i)"
  by (auto simp: leaf_network_def setReadError_def shows_cell_def)

lemma leaf_step_shows:
  "event_ok e \<Longrightarrow> shows_cell v (s i) \<Longrightarrow> shows_cell (snd (leaf_step e i v)) (store_step e s i)"
  by (cases e) (simp_all add: leaf_step_def leaf_values_shows leaf_failed_shows leaf_network_shows
      del: store_step.simps event_ok.simps)

text \<open>
  The object after an event: the trees walked, and the flag recomputed if a leaf reported a change
  or, for values, if the object was unavailable.
\<close>

definition walked :: "object_event \<Rightarrow> mqtt_object \<Rightarrow> mqtt_object" where
  "walked e obj =
     obj\<lparr>mState := snd (walk_list (leaf_step e) (mState obj)),
         mAvailability := snd (walk_list (leaf_step e) (mAvailability obj))\<rparr>"

definition reports_change :: "object_event \<Rightarrow> mqtt_object \<Rightarrow> bool" where
  "reports_change e obj \<longleftrightarrow>
     fst (walk_list (leaf_step e) (mState obj)) \<or> fst (walk_list (leaf_step e) (mAvailability obj)) \<or>
     (case e of ValuesRead _ _ \<Rightarrow> mIsAvailable obj = AvFalse | _ \<Rightarrow> False)"

lemma reports_change_leaves:
  "reports_change e obj \<longleftrightarrow>
     (\<exists>(i, v) \<in> set (object_leaves obj). fst (leaf_step e i v)) \<or>
     (case e of ValuesRead _ _ \<Rightarrow> mIsAvailable obj = AvFalse | _ \<Rightarrow> False)"
  by (auto simp: reports_change_def walk_list_leaves(2) object_leaves_def)

lemma object_step_eq:
  "object_step e obj =
     (if reports_change e obj then updateAvailablityFlag (walked e obj) else (None, walked e obj))"
proof (cases e)
  case (ValuesRead net m)
  then show ?thesis
    by (simp add: object_step_def reports_change_def walked_def leaf_step_def Let_def
        case_prod_beta obj_updateRegisterValues_def)
next
  case (ReadFailed net m)
  then show ?thesis
    by (simp add: object_step_def reports_change_def walked_def leaf_step_def Let_def
        case_prod_beta obj_updateRegistersReadFailed_def)
next
  case (NetworkState net isUp)
  then show ?thesis
    by (cases "updateAvailablityFlag (walked e obj)")
      (simp add: object_step_def reports_change_def walked_def leaf_step_def Let_def
        case_prod_beta obj_setModbusNetworkState_def split: option.split)
qed

lemma walked_leaves:
  "object_leaves (walked e obj) = map (\<lambda>(i, v). (i, snd (leaf_step e i v))) (object_leaves obj)"
  by (simp add: object_leaves_def walked_def walk_list_leaves(1))

lemma update_flag_leaves: "object_leaves (snd (updateAvailablityFlag obj)) = object_leaves obj"
  by (auto simp: updateAvailablityFlag_def object_leaves_def split: sum.splits)

lemma object_step_leaves:
  "object_leaves (snd (object_step e obj)) =
     map (\<lambda>(i, v). (i, snd (leaf_step e i v))) (object_leaves obj)"
  by (simp add: object_step_eq update_flag_leaves walked_leaves)

lemma object_step_shows:
  "event_ok e \<Longrightarrow> shows_store obj s \<Longrightarrow> shows_store (snd (object_step e obj)) (store_step e s)"
  by (auto simp: shows_store_def object_step_leaves leaf_step_shows simp del: store_step.simps
      split: prod.splits)

section \<open>The availability flag\<close>

text \<open>The flag a store gives an object.\<close>

definition store_flag :: "store \<Rightarrow> mqtt_object \<Rightarrow> cpp_exn + available_flag" where
  "store_flag s obj =
     (if \<exists>(i, v) \<in> set (object_leaves obj). \<not> readable (s i) then Inr AvFalse
      else if \<exists>(i, v) \<in> set (object_leaves obj). lastRead (s i) = None then Inr NotSet
      else getAvailableFlag (mAvailableValue obj) (mAvailability obj))"

definition flag_current :: "mqtt_object \<Rightarrow> bool" where
  "flag_current obj \<longleftrightarrow> computedFlag obj = Inr (mIsAvailable obj)"

lemma computedFlag_store: "shows_store obj s \<Longrightarrow> computedFlag obj = store_flag s obj"
proof -
  assume shown: "shows_store obj s"
  have "(\<exists>(i, v) \<in> set (object_leaves obj). \<not> readable (s i)) \<longleftrightarrow>
      \<not> (state_isPolling (mState obj) \<and> state_isPolling (mAvailability obj))"
    using shown unfolding polling_leaves by (fastforce simp: shows_store_def shows_cell_def)
  moreover have "(\<exists>(i, v) \<in> set (object_leaves obj). lastRead (s i) = None) \<longleftrightarrow>
      \<not> (state_hasAllValues (mState obj) \<and> state_hasAllValues (mAvailability obj))"
    using shown unfolding values_leaves by (fastforce simp: shows_store_def shows_cell_def)
  ultimately show ?thesis by (auto simp: computedFlag_def store_flag_def)
qed

lemma update_flag_current:
  "updateAvailablityFlag obj = (None, obj') \<Longrightarrow> flag_current obj'"
  by (auto simp: updateAvailablityFlag_def flag_current_def computedFlag_def split: sum.splits)

lemma computedFlag_unavailable:
  "(\<exists>(i, v) \<in> set (object_leaves obj). \<not> mReadOk v) \<Longrightarrow> computedFlag obj = Inr AvFalse"
  using polling_leaves [of obj] by (auto simp: computedFlag_def)

text \<open>A leaf that reports no change keeps its value, unless it was unreadable.\<close>

lemma leaf_step_unreported:
  "\<not> fst (leaf_step e i v) \<Longrightarrow> mReadOk v \<Longrightarrow> snd (leaf_step e i v) = v"
  by (cases e)
    (auto simp: leaf_step_def leaf_values_def leaf_failed_def leaf_network_def setValue_def
      setReadError_def Let_def split: if_splits)

lemma leaf_step_unreported_failed:
  "\<not> fst (leaf_step e i v) \<Longrightarrow> (\<And>net m. e \<noteq> ValuesRead net m) \<Longrightarrow> snd (leaf_step e i v) = v"
  by (cases e)
    (auto simp: leaf_step_def leaf_failed_def leaf_network_def setReadError_def split: if_splits)

lemma walk_id: "(\<forall>(i, v) \<in> set (leaves n). snd (f i v) = v) \<Longrightarrow> snd (walk f n) = n"
proof (induction f n rule: walk.induct)
  case (1 f name ns forced i v conv)
  show ?case
  proof (cases "ns = []")
    case True
    with 1(2) show ?thesis by (simp add: case_prod_beta)
  next
    case False
    with 1 have "map (snd \<circ> walk f) ns = ns" by (intro map_idI) simp
    with False show ?thesis by (simp add: Let_def)
  qed
qed

lemma walked_id:
  assumes "\<forall>(i, v) \<in> set (object_leaves obj). snd (leaf_step e i v) = v"
  shows "walked e obj = obj"
proof -
  have "map (snd \<circ> walk (leaf_step e)) ns = ns"
    if "set (concat (map leaves ns)) \<subseteq> set (object_leaves obj)" for ns
    using that assms by (intro map_idI) (auto intro!: walk_id)
  then show ?thesis
    by (simp add: walked_def walk_list_def Let_def object_leaves_def)
qed

lemma object_step_current:
  assumes cur: "flag_current obj" and step: "object_step e obj = (None, obj')"
  shows "flag_current obj'"
proof (cases "reports_change e obj")
  case True
  with step show ?thesis by (simp add: object_step_eq update_flag_current)
next
  case False
  note quiet = False [unfolded reports_change_leaves]
  have "snd (leaf_step e i v) = v" if iv: "(i, v) \<in> set (object_leaves obj)" for i v
  proof (cases e)
    case (ValuesRead net m)
    with quiet have "mIsAvailable obj \<noteq> AvFalse" by auto
    with cur computedFlag_unavailable [of obj] iv have "mReadOk v"
      by (auto simp: flag_current_def)
    with quiet iv show ?thesis by (intro leaf_step_unreported) auto
  qed (use quiet iv in \<open>auto intro!: leaf_step_unreported_failed\<close>)
  then have "walked e obj = obj" by (intro walked_id) auto
  with step False cur show ?thesis by (simp add: object_step_eq)
qed

lemma fresh_current: "fresh_object obj \<Longrightarrow> flag_current obj"
  using polling_leaves [of obj] values_leaves [of obj] list.set_intros(1)
  by (cases "object_leaves obj")
    (auto simp: fresh_object_def flag_current_def computedFlag_def new_value_def)

lemma fresh_shows: "fresh_object obj \<Longrightarrow> shows_store obj empty_store"
  by (auto simp: fresh_object_def shows_store_def shows_cell_def empty_store_def new_value_def)

lemma object_run_invariant:
  "object_run es obj = (None, obj') \<Longrightarrow> list_all event_ok es \<Longrightarrow> shows_store obj s \<Longrightarrow>
   flag_current obj \<Longrightarrow>
   shows_store obj' (fold store_step es s) \<and> flag_current obj' \<and>
   map fst (object_leaves obj') = map fst (object_leaves obj)"
proof (induction es arbitrary: obj s)
  case (Cons e es)
  then obtain mid where mid: "object_step e obj = (None, mid)" "object_run es mid = (None, obj')"
    by (auto split: prod.splits option.splits)
  have "shows_store mid (store_step e s)"
    using object_step_shows [of e obj s] mid Cons.prems by simp
  moreover have "flag_current mid"
    using object_step_current [OF _ mid(1)] Cons.prems by simp
  moreover have "map fst (object_leaves mid) = map fst (object_leaves obj)"
    using object_step_leaves [of e obj] mid(1) by (simp add: comp_def case_prod_beta)
  ultimately show ?case
    using Cons.IH [OF mid(2)] Cons.prems by simp
qed simp

section \<open>Results\<close>

definition demo_ident :: "int \<Rightarrow> reg_ident" where
  "demo_ident n =
     \<lparr>idNetworkName = ''net'', idSlaveId = 1, idRegisterNumber = n, idRegisterType = HOLDING\<rparr>"

definition demo_leaf :: "int \<Rightarrow> data_node" where
  "demo_leaf n = DataNode [] [] False (demo_ident n) new_value None"

definition demo_object :: mqtt_object where
  "demo_object =
     (new_MqttObject ''obj'' ON_CHANGE 1000)
       \<lparr>mState := addDataNode (demo_leaf 11) False (addDataNode (demo_leaf 10) False
          \<lparr>lNodes = [], lForceList = False\<rparr>),
        mAvailability := addDataNode (demo_leaf 8) False \<lparr>lNodes = [], lForceList = False\<rparr>\<rparr>"

definition demo_msg :: "int \<Rightarrow> u16 list \<Rightarrow> msg_register_values" where
  "demo_msg n rs =
     \<lparr>mRegister = n, mCount = int (length rs), mRegisterType = HOLDING, mSlaveId = 1,
      mCommandId = 0, mRegisters = rs, mWriteMode = AUTO,
      mCreationTime = 0\<rparr>"

definition demo_failed :: "int \<Rightarrow> int \<Rightarrow> modbus_msg" where
  "demo_failed n k =
     \<lparr>mRegister = n, mCount = k, mRegisterType = HOLDING, mSlaveId = 1, mCommandId = 0\<rparr>"

definition demo_events :: "object_event list" where
  "demo_events =
     [ValuesRead ''net'' (demo_msg 8 [1]), ReadFailed ''net'' (demo_failed 10 3),
      ValuesRead ''net'' (demo_msg 10 [5, 6, 7]), NetworkState ''net'' False,
      NetworkState ''net'' True]"

lemma demo_run: "object_run demo_events demo_object = (None, snd (object_run demo_events demo_object))"
proof -
  have "fst (object_run demo_events demo_object) = None" by code_simp
  then show ?thesis by (metis prod.collapse)
qed

text \<open>
  C31: an MQTT object mirrors the registers: after any sequence of messages from the Modbus threads
  that raises no converter exception, each leaf of its state and availability trees holds the last
  value read for its register and whether there is one. A leaf counts as readable only if the last
  access to its register succeeded, and exactly then if no failed read covers registers so close
  above it that its count exceeds the distance (such a read marks the leaf as well). The leaves are
  those of the configuration. The ranges of failed reads lie within 65536 registers.
\<close>

theorem object_mirrors_registers:
  assumes "fresh_object obj" and "list_all event_ok es" and "list_all in_address_space es"
    and "object_run es obj = (None, obj')"
  shows "map fst (object_leaves obj') = map fst (object_leaves obj) \<and>
    list_all (\<lambda>(i, v). mirrors es i v) (object_leaves obj')"
  using object_run_invariant [OF assms(4,2) fresh_shows [OF assms(1)] fresh_current [OF assms(1)]]
    shows_mirrors [OF assms(3)]
  by (auto simp: shows_store_def list_all_iff)

theorem object_mirrors_registers_witness:
  "fresh_object demo_object \<and> list_all event_ok demo_events \<and> list_all in_address_space demo_events \<and>
   list_all (\<lambda>(i, v). mirrors demo_events i v)
     (object_leaves (snd (object_run demo_events demo_object)))"
proof -
  have "fresh_object demo_object" "list_all event_ok demo_events"
    "list_all in_address_space demo_events" by code_simp+
  with object_mirrors_registers [OF _ _ _ demo_run] show ?thesis by blast
qed

text \<open>
  C32: the availability flag of an object is always the one its registers give: unavailable when a
  register could not be read (or a failed read just above it marked it so), unset while a register has never been read, and otherwise what the
  availability registers say. The flag is recomputed only after some messages; the others do not
  change it.
\<close>

theorem availability_flag_is_current:
  assumes "fresh_object obj" and "list_all event_ok es" and "object_run es obj = (None, obj')"
  shows "store_flag (fold store_step es empty_store) obj' = Inr (mIsAvailable obj')"
  using object_run_invariant [OF assms(3,2) fresh_shows [OF assms(1)] fresh_current [OF assms(1)]]
    computedFlag_store [of obj' "fold store_step es empty_store"]
  by (simp add: flag_current_def)

theorem availability_flag_is_current_witness:
  "fresh_object demo_object \<and> list_all event_ok demo_events \<and>
   mIsAvailable (snd (object_run demo_events demo_object)) = AvTrue \<and>
   store_flag (fold store_step demo_events empty_store) (snd (object_run demo_events demo_object)) =
     Inr AvTrue"
proof -
  have "fresh_object demo_object" "list_all event_ok demo_events"
    "mIsAvailable (snd (object_run demo_events demo_object)) = AvTrue" by code_simp+
  with availability_flag_is_current [OF _ _ demo_run] show ?thesis by simp
qed

text \<open>
  A failed read marks registers below the range it tried to read: the distance to its first
  register is taken without its sign.
\<close>

lemma failed_read_marks_lower_registers:
  assumes "same_slave net m i" and "idRegisterNumber i = mRegister m - k" and "0 < k" "k < mCount m"
    and "mCount m < 65536"
  shows "idRegisterNumber i \<notin> regs m \<and> leaf_failed net m i v = (True, v\<lparr>mReadOk := False\<rparr>)"
  using assms by (simp add: regs_def range_defs leaf_failed_def setReadError_def uint_word_of_int)

end
