(* ===== verification/Client_Availability.thy ===== *)
theory Client_Availability
  imports Client_Logic Object_Properties
begin

text \<open>
  What a subscriber of the availability topics knows: the last message handed over for an object is
  the state of its flag, in every state of the client in which no message was lost.
\<close>

section \<open>Reported flags\<close>

fun published_on :: "string \<Rightarrow> mqtt_message \<Rightarrow> bool" where
  "published_on t (Published t' p r) = (t' = t)"
| "published_on t (Responded t' p c ps) = False"

definition last_on :: "string \<Rightarrow> mqtt_message list \<Rightarrow> mqtt_message option" where
  "last_on t msgs =
     (let ms = filter (published_on t) msgs in if ms = [] then None else Some (last ms))"

definition flag_text :: "available_flag \<Rightarrow> string" where
  "flag_text f = (if f = AvTrue then ''1'' else ''0'')"

definition reported :: "mqtt_message list \<Rightarrow> mqtt_object \<Rightarrow> bool" where
  "reported msgs obj \<longleftrightarrow>
     mIsAvailable obj \<noteq> NotSet \<longrightarrow>
     last_on (c_str (mAvailabilityTopic obj)) msgs =
       Some (Published (c_str (mAvailabilityTopic obj)) (Some (flag_text (mIsAvailable obj))) True)"

lemma last_on_append:
  "last_on t (msgs @ [m]) = (if published_on t m then Some m else last_on t msgs)"
  by (simp add: last_on_def Let_def)

lemma reported_append:
  "reported (msgs @ [Published t p r]) obj \<longleftrightarrow>
     (if t = c_str (mAvailabilityTopic obj)
      then mIsAvailable obj \<noteq> NotSet \<longrightarrow> p = Some (flag_text (mIsAvailable obj)) \<and> r
      else reported msgs obj)"
  "reported (msgs @ [Responded t p c ps]) obj = reported msgs obj"
  by (auto simp: reported_def last_on_append)

text \<open>A converter does not throw the exception of the MQTT library.\<close>

definition no_mosquitto :: "cpp_exn + 'a \<Rightarrow> bool" where
  "no_mosquitto r \<longleftrightarrow> (\<forall>w. r \<noteq> Inl (MosquittoException w))"

fun quiet_node :: "data_node \<Rightarrow> bool" where
  "quiet_node (DataNode name ns forced i v conv) \<longleftrightarrow>
     (\<forall>c rs. conv = Some c \<longrightarrow> no_mosquitto (c rs)) \<and> list_all quiet_node ns"

definition quiet_object :: "mqtt_object \<Rightarrow> bool" where
  "quiet_object obj \<longleftrightarrow>
     list_all quiet_node (lNodes (mState obj)) \<and> list_all quiet_node (lNodes (mAvailability obj))"

text \<open>The topics of the objects at the addresses \<open>A\<close> are different, also as C strings.\<close>

definition topics_distinct :: "nat set \<Rightarrow> (nat \<Rightarrow> mqtt_object) \<Rightarrow> bool" where
  "topics_distinct A objs \<longleftrightarrow>
     (\<forall>a \<in> A. \<forall>b \<in> A. a \<noteq> b \<longrightarrow>
        c_str (mAvailabilityTopic (objs a)) \<noteq> c_str (mAvailabilityTopic (objs b))) \<and>
     (\<forall>a \<in> A. \<forall>b \<in> A. c_str (mAvailabilityTopic (objs a)) \<noteq> c_str (mStateTopic (objs b)))"

definition listed :: "'m mqtt_client \<Rightarrow> nat set" where
  "listed s = (\<Union>e \<in> set (mObjects s). set (snd e)) \<union> (\<Union>e \<in> set (mCommandObjects s). set (snd e))"

definition client_ok :: "nat set \<Rightarrow> 'm mqtt_client \<Rightarrow> bool" where
  "client_ok A s \<longleftrightarrow>
     topics_distinct A (objectStore s) \<and> (\<forall>a \<in> A. quiet_object (objectStore s a)) \<and> listed s \<subseteq> A"

section \<open>Objects\<close>

text \<open>What the updates of an object leave alone.\<close>

definition obj_frame :: "mqtt_object \<Rightarrow> mqtt_object \<Rightarrow> bool" where
  "obj_frame obj obj' \<longleftrightarrow>
     mStateTopic obj' = mStateTopic obj \<and> mAvailabilityTopic obj' = mAvailabilityTopic obj \<and>
     (quiet_object obj \<longrightarrow> quiet_object obj')"

lemma walk_quiet: "quiet_node n \<Longrightarrow> quiet_node (snd (walk f n))"
proof (induction f n rule: walk.induct)
  case (1 f name ns forced i v conv)
  then show ?case by (cases "ns = []") (auto simp: Let_def case_prod_beta list_all_iff)
qed

lemma walk_list_quiet: "list_all quiet_node (lNodes l) \<Longrightarrow> list_all quiet_node (lNodes (snd (walk_list f l)))"
  by (auto simp: walk_list_def Let_def list_all_iff walk_quiet)

lemma walked_frame: "obj_frame obj (walked e obj)"
  by (simp add: obj_frame_def walked_def quiet_object_def walk_list_quiet)

lemma getConvertedValue_quiet: "quiet_node n \<Longrightarrow> no_mosquitto (getConvertedValue n)"
  by (cases n) (auto simp: getConvertedValue_eq no_mosquitto_def split: option.splits)

lemma getInt_quiet: "no_mosquitto (getInt v)"
  by (cases v) (auto simp: no_mosquitto_def double_to_int_def split: option.splits)

lemma getInt64_quiet: "no_mosquitto (getInt64 v)"
  by (cases v) (auto simp: no_mosquitto_def double_to_int_def split: option.splits)

lemma no_mosquitto_bind:
  "no_mosquitto r \<Longrightarrow> (\<And>x. r = Inr x \<Longrightarrow> no_mosquitto (f x)) \<Longrightarrow> no_mosquitto (bindE r f)"
  by (cases r) (auto simp: no_mosquitto_def)

lemma no_mosquitto_Inr [simp]: "no_mosquitto (Inr x)"
  by (simp add: no_mosquitto_def)

lemma computedFlag_quiet: "quiet_object obj \<Longrightarrow> no_mosquitto (computedFlag obj)"
  by (auto simp: computedFlag_def getAvailableFlag_def quiet_object_def
      intro!: no_mosquitto_bind getInt_quiet getConvertedValue_quiet split: list.splits)

lemma updateFlag_frame:
  "updateAvailablityFlag obj = (x, obj') \<Longrightarrow>
   obj_frame obj obj' \<and> (quiet_object obj \<longrightarrow> (\<forall>w. x \<noteq> Some (MosquittoException w)))"
  using computedFlag_quiet [of obj]
  by (auto simp: updateAvailablityFlag_def obj_frame_def quiet_object_def no_mosquitto_def
      split: sum.splits)

lemma obj_frame_trans: "obj_frame a b \<Longrightarrow> obj_frame b c \<Longrightarrow> obj_frame a c"
  by (simp add: obj_frame_def)

lemma object_step_frame:
  "object_step e obj = (x, obj') \<Longrightarrow>
   obj_frame obj obj' \<and> (quiet_object obj \<longrightarrow> (\<forall>w. x \<noteq> Some (MosquittoException w)))"
  using walked_frame [of obj e] updateFlag_frame [of "walked e obj" x obj']
  by (auto simp: object_step_eq obj_frame_def split: if_splits)

lemma updateRegisterValues_step:
  "obj_updateRegisterValues net m = object_step (ValuesRead net m)"
  by (simp add: fun_eq_iff object_step_def)

lemma setNetworkState_step: "setNetworkState net isUp = object_step (NetworkState net isUp)"
  by (simp add: fun_eq_iff object_step_def setNetworkState_def)

lemma createConvertedValue_quiet: "no_mosquitto (createConvertedValue v)"
  using getInt64_quiet [of v]
  by (cases v) (simp_all add: createConvertedValue_def Let_def no_mosquitto_bind)

lemma json_quiet:
  "list_all quiet_node ns \<Longrightarrow> no_mosquitto (generateJson ns b)"
  "list_all quiet_node ns \<Longrightarrow> no_mosquitto (json_members k ns)"
  "quiet_node n \<Longrightarrow> no_mosquitto (json_node n)"
proof (induction ns b and k ns and n rule: generateJson_json_members_json_node.induct)
  case (1 ns b)
  have "ns \<noteq> [] \<Longrightarrow> quiet_node (hd ns)" using 1(3) by (cases ns) auto
  moreover have "no_mosquitto (Inl Undefined)" by (simp add: no_mosquitto_def)
  ultimately show ?case
    using 1 by (auto intro!: no_mosquitto_bind getConvertedValue_quiet createConvertedValue_quiet)
next
  case (4 n)
  then show ?case
    by (cases n) (auto simp: isScalar_def
        intro!: no_mosquitto_bind getConvertedValue_quiet createConvertedValue_quiet)
qed (auto intro!: no_mosquitto_bind simp del: json_node.simps generateJson.simps)

lemma generate_quiet: "quiet_object obj \<Longrightarrow> no_mosquitto (generate format render obj)"
  using json_quiet(1) [of "lNodes (mState obj)" "lForceList (mState obj)"]
  by (auto simp: generate_def Let_def quiet_object_def intro!: no_mosquitto_bind
      getConvertedValue_quiet simp: no_mosquitto_def [of "Inl Undefined"] split: list.splits
      simp del: generateJson.simps)

section \<open>The invariant\<close>

text \<open>
  The flags of the objects in \<open>A\<close> but not in \<open>E\<close> are reported, unless a message was lost. An operation that ends
  with the exception of the MQTT library leaves all of them reported in this sense.
\<close>

definition flags_reported ::
  "('m \<Rightarrow> mqtt_message list) \<Rightarrow> ('m \<Rightarrow> bool) \<Rightarrow> nat set \<Rightarrow> nat set \<Rightarrow> 'm mqtt_client \<Rightarrow> bool" where
  "flags_reported sent failed A E s \<longleftrightarrow>
     client_ok A s \<and>
     (failed (mMqttImpl s) \<or> (\<forall>a \<in> A - E. reported (sent (mMqttImpl s)) (objectStore s a)))"

definition reported_if_mosquitto ::
  "('m \<Rightarrow> mqtt_message list) \<Rightarrow> ('m \<Rightarrow> bool) \<Rightarrow> nat set \<Rightarrow> cpp_exn \<Rightarrow> 'm mqtt_client \<Rightarrow> bool" where
  "reported_if_mosquitto sent failed A e s \<longleftrightarrow>
     (\<forall>w. e = MosquittoException w \<longrightarrow> flags_reported sent failed A {} s)"

lemma listed_entries:
  "map_of (mObjects s) i = Some as \<Longrightarrow> listed s \<subseteq> A \<Longrightarrow> set as \<subseteq> A"
  "map_of (mCommandObjects s) cid = Some as \<Longrightarrow> listed s \<subseteq> A \<Longrightarrow> set as \<subseteq> A"
  "e \<in> set (mObjects s) \<Longrightarrow> listed s \<subseteq> A \<Longrightarrow> set (snd e) \<subseteq> A"
  unfolding listed_def by (force dest: map_of_SomeD)+

lemma topics_apart:
  "client_ok A s \<Longrightarrow> a \<in> A \<Longrightarrow> b \<in> A \<Longrightarrow>
   c_str (mStateTopic (objectStore s a)) \<noteq> c_str (mAvailabilityTopic (objectStore s b))"
  unfolding client_ok_def topics_distinct_def by metis

lemma client_ok_frame:
  "client_ok A s \<Longrightarrow> obj_frame (objectStore s a) obj \<Longrightarrow>
   client_ok A (s\<lparr>objectStore := (objectStore s)(a := obj)\<rparr>)"
  by (auto simp: client_ok_def topics_distinct_def obj_frame_def listed_def)

lemma client_ok_impl: "client_ok A (s\<lparr>mMqttImpl := m\<rparr>) = client_ok A s"
  by (simp add: client_ok_def listed_def)

lemma client_ok_other:
  "client_ok A (s\<lparr>clientTicks := n\<rparr>) = client_ok A s"
  "client_ok A (s\<lparr>mModbusClients := cs\<rparr>) = client_ok A s"
  "client_ok A (s\<lparr>mConnectionState := st\<rparr>) = client_ok A s"
  "client_ok A (s\<lparr>mIsStarted := b\<rparr>) = client_ok A s"
  "client_ok A (s\<lparr>mNextRpcId := i\<rparr>) = client_ok A s"
  "client_ok A (s\<lparr>mPendingRpc := p\<rparr>) = client_ok A s"
  by (simp_all add: client_ok_def listed_def)

lemmas client_ok_simps = client_ok_impl client_ok_other

context mqtt_implementation
begin

abbreviation "known \<equiv> flags_reported sent failed"
abbreviation "lost \<equiv> reported_if_mosquitto sent failed"

lemma known_mono: "known A E s \<Longrightarrow> E \<subseteq> F \<Longrightarrow> known A F s"
  by (auto simp: flags_reported_def)

lemma publish_state_topic:
  assumes "mqttImpl env = impl" and "a \<in> A"
  shows "hoareC (lost A) (\<lambda>s. known A E s \<and> t = c_str (mStateTopic (objectStore s a)))
    (publishC env t p r) (\<lambda>_. known A E)"
  unfolding hoareC_def
proof (intro allI impI)
  fix s res s'
  assume pre: "known A E s \<and> t = c_str (mStateTopic (objectStore s a))"
    and run: "publishC env t p r s = (res, s')"
  then obtain m where m: "implPublish impl t p r (mMqttImpl s) = (res, m)"
    and s': "s' = s\<lparr>mMqttImpl := m\<rparr>"
    by (auto simp: publishC_def assms(1) split: prod.splits)
  have topics: "b \<in> A \<Longrightarrow> t \<noteq> c_str (mAvailabilityTopic (objectStore s b))" for b
    using pre assms(2) topics_apart [of A s a b] by (auto simp: flags_reported_def)
  show "case res of Inl e \<Rightarrow> lost A e s' | Inr x \<Rightarrow> known A E s'"
    using pre m s' publish_sends [of t p r "mMqttImpl s" _ m] publish_throws [of t p r "mMqttImpl s" _ m]
      topics
    by (cases res) (auto simp: flags_reported_def reported_if_mosquitto_def client_ok_simps
        reported_append)
qed

lemma publish_flag:
  assumes "mqttImpl env = impl" and "a \<in> A"
  shows "hoareC (lost A) (known A (insert a E)) (publishAvailabilityChange env a) (\<lambda>_. known A E)"
  unfolding hoareC_def
proof (intro allI impI)
  fix s res s'
  assume pre: "known A (insert a E) s" and run: "publishAvailabilityChange env a s = (res, s')"
  let ?obj = "objectStore s a"
  let ?t = "c_str (mAvailabilityTopic ?obj)"
  let ?p = "Some (flag_text (mIsAvailable ?obj))"
  have other: "b \<in> A \<Longrightarrow> b \<noteq> a \<Longrightarrow> ?t \<noteq> c_str (mAvailabilityTopic (objectStore s b))" for b
    using pre assms(2) by (simp add: flags_reported_def client_ok_def topics_distinct_def)
  show "case res of Inl e \<Rightarrow> lost A e s' | Inr x \<Rightarrow> known A E s'"
  proof (cases "mIsAvailable ?obj = NotSet")
    case True
    with run have "res = Inr ()" "s' = s"
      by (simp_all add: publishAvailabilityChange_def bindC_def getC_def returnC_def)
    with pre True show ?thesis by (auto simp: flags_reported_def reported_def)
  next
    case False
    obtain r m where m: "implPublish impl ?t ?p True (mMqttImpl s) = (r, m)" by fastforce
    with run False assms(1) publish_throws [of ?t ?p True "mMqttImpl s" _ m]
    have "res = Inr ()" "s' = s\<lparr>mMqttImpl := m\<rparr>"
      by (auto simp: publishAvailabilityChange_def bindC_def getC_def returnC_def catchC_def
          publishC_def on_mosquitto_def flag_text_def split: sum.splits)
    with m pre other publish_sends [of ?t ?p True "mMqttImpl s" _ m]
      publish_throws [of ?t ?p True "mMqttImpl s" _ m] show ?thesis
      by (cases r) (auto simp: flags_reported_def client_ok_simps reported_append)
  qed
qed

lemma set_object:
  assumes "\<And>obj. obj_frame obj (f obj) \<and> mIsAvailable (f obj) = mIsAvailable obj"
  shows "hoareC (lost A) (known A E) (setObjectC a f) (\<lambda>_. known A E)"
  unfolding setObjectC_def
proof (rule hoare_pre [OF hoare_modify])
  fix s
  assume pre: "known A E s"
  have "mAvailabilityTopic (f obj) = mAvailabilityTopic obj" for obj
    using assms [of obj] by (simp add: obj_frame_def)
  with pre assms client_ok_frame [of A s a "f (objectStore s a)"]
  show "known A E (s\<lparr>objectStore := (objectStore s)(a := f (objectStore s a))\<rparr>)"
    by (auto simp: flags_reported_def reported_def)
qed

lemma read_clock: "hoareC (lost A) (known A E) (nowC env) (\<lambda>_. known A E)"
  by (auto simp: hoareC_def nowC_def flags_reported_def client_ok_simps)

lemma lift_quiet:
  assumes "\<And>s. P s \<Longrightarrow> no_mosquitto r" and "\<And>x. r = Inr x \<Longrightarrow> hoareC (lost A) P (g x) Q"
  shows "hoareC (lost A) P (bindC (liftC r) g) Q"
  using assms
  by (cases r) (auto simp: hoareC_def bindC_def liftC_def reported_if_mosquitto_def no_mosquitto_def)

lemma quiet_objectStore: "known A E s \<Longrightarrow> a \<in> A \<Longrightarrow> quiet_object (objectStore s a)"
  by (simp add: flags_reported_def client_ok_def)

lemma publish_state:
  assumes "mqttImpl env = impl" and "a \<in> A"
  shows "hoareC (lost A) (known A E) (publishState env a force) (\<lambda>_. known A E)"
  unfolding publishState_def
proof (intro hoare_get_bind hoare_if)
  fix obj
  show "hoareC (lost A) (\<lambda>s. known A E s \<and> obj = objectStore s a) (returnC ()) (\<lambda>_. known A E)"
    by (rule hoare_pre [OF hoare_return]) simp
  then show "hoareC (lost A) (\<lambda>s. known A E s \<and> obj = objectStore s a) (returnC ()) (\<lambda>_. known A E)" .
  show "hoareC (lost A) (\<lambda>s. known A E s \<and> obj = objectStore s a)
    (bindC (liftC (generate (formatDouble env) (renderJson env) obj)) (\<lambda>messageData.
       if messageData \<noteq> mLastPublishedPayload obj \<or> force then
         thenC (publishC env (c_str (mStateTopic obj)) (Some messageData) (mRetain obj))
           (thenC (setObjectC a (\<lambda>obj. obj\<lparr>mLastPublishedPayload := messageData\<rparr>))
             (bindC (nowC env) (\<lambda>t. setObjectC a (\<lambda>obj. obj\<lparr>mLastPublishTime := t\<rparr>))))
       else returnC ())) (\<lambda>_. known A E)"
  proof (intro lift_quiet hoare_if)
    show "no_mosquitto (generate (formatDouble env) (renderJson env) obj)"
      if "known A E s \<and> obj = objectStore s a" for s
      using that assms(2) quiet_objectStore generate_quiet by blast
    fix msg
    show "hoareC (lost A) (\<lambda>s. known A E s \<and> obj = objectStore s a)
      (thenC (publishC env (c_str (mStateTopic obj)) (Some msg) (mRetain obj))
        (thenC (setObjectC a (\<lambda>obj. obj\<lparr>mLastPublishedPayload := msg\<rparr>))
          (bindC (nowC env) (\<lambda>t. setObjectC a (\<lambda>obj. obj\<lparr>mLastPublishTime := t\<rparr>))))) (\<lambda>_. known A E)"
      by (rule hoare_then [OF hoare_pre [OF publish_state_topic [OF assms]]
            hoare_then [OF set_object hoare_bind [OF read_clock set_object]]])
        (auto simp: obj_frame_def quiet_object_def)
    show "hoareC (lost A) (\<lambda>s. known A E s \<and> obj = objectStore s a) (returnC ()) (\<lambda>_. known A E)"
      by (rule hoare_pre [OF hoare_return]) simp
  qed
qed

lemma object_update:
  assumes "a \<in> A"
  shows "hoareC (lost A) (\<lambda>s. known A E s \<and> old = mIsAvailable (objectStore s a))
    (objectC a (object_step e))
    (\<lambda>_ s. known A (insert a E) s \<and> (mIsAvailable (objectStore s a) = old \<longrightarrow> known A E s))"
  unfolding hoareC_def
proof (intro allI impI)
  fix s res s'
  assume pre: "known A E s \<and> old = mIsAvailable (objectStore s a)"
    and run: "objectC a (object_step e) s = (res, s')"
  obtain x obj where x: "object_step e (objectStore s a) = (x, obj)" by fastforce
  note frame = object_step_frame [OF x]
  have ok: "client_ok A (s\<lparr>objectStore := (objectStore s)(a := obj)\<rparr>)"
    using pre frame client_ok_frame by (auto simp: flags_reported_def)
  have topic: "mAvailabilityTopic obj = mAvailabilityTopic (objectStore s a)"
    using frame by (simp add: obj_frame_def)
  have "x \<noteq> Some (MosquittoException w)" for w
    using frame quiet_objectStore [of A E s a] pre assms by auto
  with run x pre ok topic
  show "case res of Inl e \<Rightarrow> lost A e s'
      | Inr u \<Rightarrow> known A (insert a E) s' \<and> (mIsAvailable (objectStore s' a) = old \<longrightarrow> known A E s')"
    by (cases x) (auto simp: objectC_def Let_def flags_reported_def reported_if_mosquitto_def
        reported_def)
qed

lemma known_return: "hoareC (lost A) (known A E) (returnC x) (\<lambda>_. known A E)"
  by (rule hoare_return)

lemma became_available:
  assumes "mqttImpl env = impl" and "a \<in> A"
  shows "hoareC (lost A) (known A E) (publishBecameAvailable env a oldAvail) (\<lambda>_. known A E)"
  unfolding publishBecameAvailable_def
proof (intro hoare_get_bind hoare_if)
  fix obj
  let ?P = "\<lambda>s. known A E s \<and> obj = objectStore s a"
  show "hoareC (lost A) ?P (publishState env a True) (\<lambda>_. known A E)"
    by (rule hoare_pre [OF publish_state [OF assms]]) simp
  have cleared: "hoareC (lost A) ?P
     (thenC (publishC env (c_str (mStateTopic obj)) None True)
       (bindC (liftC (generate (formatDouble env) (renderJson env) obj)) (\<lambda>payload.
          setObjectC a (\<lambda>obj. obj\<lparr>mLastPublishedPayload := payload\<rparr>)))) (\<lambda>_. known A E)"
    if quiet: "quiet_object obj"
    by (rule hoare_then [OF hoare_pre [OF publish_state_topic [OF assms]]
          lift_quiet [OF generate_quiet [OF quiet] set_object]])
      (auto simp: obj_frame_def quiet_object_def)
  show "hoareC (lost A) ?P
    (thenC
       (if oldAvail = NotSet then
          thenC (publishC env (c_str (mStateTopic obj)) None True)
            (bindC (liftC (generate (formatDouble env) (renderJson env) obj)) (\<lambda>payload.
               setObjectC a (\<lambda>obj. obj\<lparr>mLastPublishedPayload := payload\<rparr>)))
        else returnC ())
       (if objPublishMode obj = EVERY_POLL then publishState env a True else returnC ()))
    (\<lambda>_. known A E)"
  proof (cases "quiet_object obj")
    case True
    have "hoareC (lost A) ?P (returnC ()) (\<lambda>_. known A E)"
      by (rule hoare_pre [OF known_return]) simp
    with cleared [OF True] show ?thesis
      by - (rule hoare_then [where R = "known A E"],
          auto intro: known_return publish_state [OF assms])
  next
    case False
    then have "\<not> ?P s" for s using quiet_objectStore [of A E s a] assms(2) by auto
    then show ?thesis by (intro hoare_pre [OF hoare_false]) blast
  qed
qed

lemma object_values:
  assumes "mqttImpl env = impl" and "a \<in> A"
  shows "hoareC (lost A) (known A {}) (processObjectValues env net m a) (\<lambda>_. known A {})"
  unfolding processObjectValues_def updateRegisterValues_step
proof (intro hoare_get_bind)
  fix old
  show "hoareC (lost A) (\<lambda>s. known A {} s \<and> old = mIsAvailable (objectStore s a))
    (thenC (objectC a (object_step (ValuesRead net m)))
      (bindC (getC (\<lambda>s. objectStore s a)) (\<lambda>obj.
         if old \<noteq> mIsAvailable obj then
           thenC (if mIsAvailable obj = AvTrue then publishBecameAvailable env a old else returnC ())
             (publishAvailabilityChange env a)
         else bindC (republishC env obj) (publishState env a)))) (\<lambda>_. known A {})"
  proof (rule hoare_then [OF object_update [OF assms(2)]], intro hoare_get_bind hoare_if)
    fix obj
    let ?P = "\<lambda>s. (known A {a} s \<and> (mIsAvailable (objectStore s a) = old \<longrightarrow> known A {} s)) \<and>
      obj = objectStore s a"
    show "hoareC (lost A) ?P
      (thenC (if mIsAvailable obj = AvTrue then publishBecameAvailable env a old else returnC ())
        (publishAvailabilityChange env a)) (\<lambda>_. known A {})"
      by (rule hoare_then [OF _ publish_flag [OF assms]], rule hoare_pre [where P = "known A {a}"])
        (auto intro: became_available [OF assms] known_return)
    assume same: "\<not> old \<noteq> mIsAvailable obj"
    have "hoareC (lost A) (known A {}) (republishC env obj) (\<lambda>_. known A {})"
      unfolding republishC_def by (intro hoare_if hoare_bind [OF read_clock] known_return)
    from hoare_bind [OF this publish_state [OF assms]]
    show "hoareC (lost A) ?P (bindC (republishC env obj) (publishState env a)) (\<lambda>_. known A {})"
      by (rule hoare_pre) (use same in auto)
  qed
qed

lemma known_catch:
  "hoareC (lost A) (known A {}) c (\<lambda>_. known A {}) \<Longrightarrow>
   hoareC (lost A) (known A {}) (catchC c (on_mosquitto (returnC ()))) (\<lambda>_. known A {})"
  by (erule hoare_catch)
    (auto simp: on_mosquitto_def hoareC_def returnC_def reported_if_mosquitto_def
      split: cpp_exn.splits)

lemma respond_keeps:
  assumes "mqttImpl env = impl"
  shows "hoareC (lost A) (known A {}) (publishResponseC env t p c ps) (\<lambda>_. known A {})"
  unfolding hoareC_def
proof (intro allI impI)
  fix s res s'
  assume pre: "known A {} s" and run: "publishResponseC env t p c ps s = (res, s')"
  then obtain m where m: "implPublishResponse impl t p c ps (mMqttImpl s) = (res, m)"
    and s': "s' = s\<lparr>mMqttImpl := m\<rparr>"
    by (auto simp: publishResponseC_def assms split: prod.splits)
  with pre respond_sends [of t p c ps "mMqttImpl s" _ m] respond_throws [of t p c ps "mMqttImpl s" _ m]
  show "case res of Inl e \<Rightarrow> lost A e s' | Inr u \<Rightarrow> known A {} s'"
    by (cases res) (auto simp: flags_reported_def reported_if_mosquitto_def client_ok_simps
        response_def reported_append)
qed

lemma known_catch_any:
  "hoareC (lost A) (known A {}) c (\<lambda>_. known A {}) \<Longrightarrow> (\<And>s e s'. c s = (Inl e, s') \<Longrightarrow> \<exists>w. e = MosquittoException w)
   \<Longrightarrow> hoareC (lost A) (known A {}) (catchC c (on_any (\<lambda>_. returnC ()))) (\<lambda>_. known A {})"
  by (fastforce simp: hoareC_def catchC_def on_any_def returnC_def reported_if_mosquitto_def
      split: prod.splits sum.splits option.splits if_splits)

lemma rpc_error_keeps:
  assumes "mqttImpl env = impl"
  shows "hoareC (lost A) (known A {}) (publishRpcError env t c msg) (\<lambda>_. known A {})"
  unfolding publishRpcError_def
  by (rule known_catch_any [OF respond_keeps [OF assms]])
    (auto simp: publishResponseC_def assms dest: respond_throws split: prod.splits)

lemma modify_keeps:
  "(\<And>s. P s \<Longrightarrow> P (f s)) \<Longrightarrow> hoareC X P (modifyC f) (\<lambda>_. P)"
  by (rule hoare_pre [OF hoare_modify])

lemma take_pending_keeps: "hoareC X (known A E) (takePending cid) (\<lambda>_. known A E)"
  by (auto simp: hoareC_def takePending_def flags_reported_def client_ok_simps)

lemma rpc_response_keeps:
  assumes "mqttImpl env = impl"
  shows "hoareC (lost A) (known A {}) (publishRpcResponse env m) (\<lambda>_. known A {})"
  unfolding publishRpcResponse_def
proof (rule hoare_bind [OF take_pending_keeps])
  fix it
  have resp: "hoareC (lost A) (known A {})
      (catchC (publishResponseC env t p c []) (on_any (\<lambda>_. returnC ()))) (\<lambda>_. known A {})" for t p c
    by (rule known_catch_any [OF respond_keeps [OF assms]])
      (auto simp: publishResponseC_def assms dest: respond_throws split: prod.splits)
  have undef: "hoareC (lost A) (known A {}) (liftC (Inl Undefined)) (\<lambda>_. known A {})"
    by (simp add: hoareC_def liftC_def reported_if_mosquitto_def)
  show "hoareC (lost A) (known A {})
    (case it of None \<Rightarrow> returnC ()
     | Some req \<Rightarrow>
         (case rpc_payload env req (mRegisters m) of
            Inl Undefined \<Rightarrow> liftC (Inl Undefined)
          | Inl e \<Rightarrow> publishRpcError env (rpcResponseTopic req) (rpcCorrelationData req) ''internal error''
          | Inr payload \<Rightarrow>
              catchC (publishResponseC env (c_str (rpcResponseTopic req))
                  (if payload = [] then None else Some payload) (rpcCorrelationData req) [])
                (on_any (\<lambda>_. returnC ())))) (\<lambda>_. known A {})"
    by (auto intro: known_return undef resp rpc_error_keeps [OF assms]
        split: option.split sum.split cpp_exn.split)
qed

lemma rpc_error_for_keeps:
  assumes "mqttImpl env = impl"
  shows "hoareC (lost A) (known A {}) (publishRpcErrorFor env m) (\<lambda>_. known A {})"
  unfolding publishRpcErrorFor_def
  by (rule hoare_bind [OF take_pending_keeps])
    (auto intro: known_return rpc_error_keeps [OF assms] split: option.split)

lemma enqueue_keeps: "hoareC X (known A E) (enqueueC net item) (\<lambda>_. known A E)"
  unfolding enqueueC_def by (rule modify_keeps) (simp add: flags_reported_def client_ok_simps)

lemma read_clock_any: "hoareC X (known A E) (nowC env) (\<lambda>_. known A E)"
  by (auto simp: hoareC_def nowC_def flags_reported_def client_ok_simps)

lemma accept_keeps: "hoareC X (known A E) (acceptRpc env t c rq) (\<lambda>_. known A E)"
  unfolding acceptRpc_def
  by (rule hoare_get_bind, rule hoare_then [OF hoare_pre [OF modify_keeps [where P = "known A E"]]])
    (auto simp: flags_reported_def client_ok_simps
      intro: enqueue_keeps hoare_bind [OF read_clock_any])

lemma request_keeps:
  assumes "mqttImpl env = impl"
  shows "hoareC (lost A) (known A {}) (handleRpcRequest env payload t c) (\<lambda>_. known A {})"
proof -
  have "hoareC (\<lambda>_. known A {}) (known A {})
      (bindC (getC (\<lambda>s. checkRpcRequest env s payload)) (\<lambda>r.
         bindC (liftC r) (\<lambda>rq. acceptRpc env topic c rq))) (\<lambda>_. known A {})" for topic
  proof (rule hoare_get_bind, rule hoare_lift_bind)
    fix r
    show "hoareC (\<lambda>_. known A {}) (\<lambda>s. known A {} s \<and> r = checkRpcRequest env s payload)
        (acceptRpc env topic c rq) (\<lambda>_. known A {})" for rq
      by (rule hoare_pre [OF accept_keeps]) simp
  qed (auto simp: hoareC_def liftC_def)
  then have "hoareC (lost A) (known A {})
      (catchC (bindC (getC (\<lambda>s. checkRpcRequest env s payload)) (\<lambda>r.
           bindC (liftC r) (\<lambda>rq. acceptRpc env topic c rq)))
         (on_any (\<lambda>e. publishRpcError env topic c (exn_what e)))) (\<lambda>_. known A {})" for topic
    by (rule hoare_catch)
      (auto simp: on_any_def reported_if_mosquitto_def intro: rpc_error_keeps [OF assms]
        split: if_splits)
  then show ?thesis
    unfolding handleRpcRequest_def by (auto intro: known_return split: option.split)
qed

section \<open>The operations of the client\<close>

lemma listed_objects:
  "known A E s \<Longrightarrow> map_of (mObjects s) i = Some as \<Longrightarrow> set as \<subseteq> A"
  "known A E s \<Longrightarrow> map_of (mCommandObjects s) cid = Some as \<Longrightarrow> set as \<subseteq> A"
  "known A E s \<Longrightarrow> e \<in> set (mObjects s) \<Longrightarrow> set (snd e) \<subseteq> A"
  by (auto simp: flags_reported_def client_ok_def dest: listed_entries)

lemma register_values_keeps:
  assumes "mqttImpl env = impl"
  shows "hoareC (lost A) (known A {}) (processRegisterValues env net m) (\<lambda>_. known A {})"
proof -
  have objects: "hoareC (lost A) (known A {})
      (catchC (forC (processObjectValues env net m) as) (on_mosquitto (returnC ()))) (\<lambda>_. known A {})"
    if "set as \<subseteq> A" for as
    using that by (intro known_catch hoare_for object_values [OF assms]) auto
  define sub where "sub = (\<lambda>r. \<forall>as. r = Some as \<longrightarrow> set as \<subseteq> A)"
  let ?Q = "\<lambda>r s. known A {} s \<and> sub r"
  have affected: "hoareC (lost A) (known A {}) (affectedObjects env net m) ?Q"
    unfolding affectedObjects_def
  proof (rule hoare_get_bind, clarify, rule hoare_pre, rule hoare_fact)
    fix byCommand byPoll
    assume subs: "sub byCommand \<and> sub byPoll"
    have ret: "hoareC (lost A) (known A {}) (returnC r) ?Q" if "sub r" for r
      using that by (intro hoare_pre [OF hoare_return]) simp
    have rpc: "hoareC (lost A) (known A {}) (thenC (publishRpcResponse env m) (returnC byPoll)) ?Q"
      using subs by (intro hoare_then [OF rpc_response_keeps [OF assms]] ret) simp
    have undef: "hoareC (lost A) (known A {}) (liftC (Inl Undefined)) ?Q"
      by (simp add: hoareC_def liftC_def reported_if_mosquitto_def)
    have "sub None" by (simp add: sub_def)
    with subs show "hoareC (lost A) (known A {})
      (if hasCommandId m then
         (case byCommand of Some as \<Rightarrow> returnC (Some as)
          | None \<Rightarrow> if isRpc m then thenC (publishRpcResponse env m) (returnC byPoll) else returnC None)
       else (case byPoll of Some as \<Rightarrow> returnC (Some as) | None \<Rightarrow> liftC (Inl Undefined))) ?Q"
      using ret rpc undef by (cases byCommand; cases byPoll) auto
  next
    fix byCommand byPoll s
    assume "known A {} s \<and> (byCommand, byPoll) =
      (map_of (mCommandObjects s) (mCommandId m), map_of (mObjects s) (ident_of net m))"
    then show "known A {} s \<and> sub byCommand \<and> sub byPoll"
      using listed_objects(1) [of A "{}" s "ident_of net m"]
        listed_objects(2) [of A "{}" s "mCommandId m"] by (simp add: sub_def)
  qed
  show ?thesis
    unfolding processRegisterValues_def
  proof (rule hoare_get_bind, rule hoare_if)
    fix up
    show "hoareC (lost A) (\<lambda>s. known A {} s \<and> up = isConnected s) (returnC ()) (\<lambda>_. known A {})"
      by (rule hoare_pre [OF known_return]) simp
    show "hoareC (lost A) (\<lambda>s. known A {} s \<and> up = isConnected s)
      (bindC (affectedObjects env net m) (\<lambda>as. case as of None \<Rightarrow> returnC ()
         | Some as \<Rightarrow> catchC (forC (processObjectValues env net m) as) (on_mosquitto (returnC ()))))
      (\<lambda>_. known A {})"
      by (rule hoare_pre [OF hoare_bind [OF affected hoare_fact]])
        (auto simp: sub_def intro: known_return objects split: option.split)
  qed
qed

text \<open>An update of an object, followed by something that does not touch the flags, and the flag.\<close>

lemma update_and_publish:
  assumes env: "mqttImpl env = impl" and a: "a \<in> A"
    and c: "\<And>E. hoareC (lost A) (known A E) c (\<lambda>_. known A E)"
  shows "hoareC (lost A) (known A {})
    (bindC (getC (\<lambda>s. mIsAvailable (objectStore s a))) (\<lambda>old.
     thenC (objectC a (object_step e))
       (bindC (getC (\<lambda>s. mIsAvailable (objectStore s a))) (\<lambda>new.
          thenC c (if old \<noteq> new then publishAvailabilityChange env a else returnC ())))))
    (\<lambda>_. known A {})"
proof (rule hoare_get_bind, rule hoare_then [OF object_update [OF a]], rule hoare_get_bind)
  fix old new
  let ?P = "\<lambda>s. (known A {a} s \<and> (mIsAvailable (objectStore s a) = old \<longrightarrow> known A {} s)) \<and>
    new = mIsAvailable (objectStore s a)"
  show "hoareC (lost A) ?P
    (thenC c (if old \<noteq> new then publishAvailabilityChange env a else returnC ())) (\<lambda>_. known A {})"
  proof (cases "old = new")
    case True
    then show ?thesis
      by (intro hoare_pre [OF hoare_then [OF c [of "{}"] hoare_if]])
        (auto intro: known_return)
  next
    case False
    then show ?thesis
      by (intro hoare_pre [OF hoare_then [OF c [of "{a}"] hoare_if]])
        (auto intro: publish_flag [OF env a])
  qed
qed

lemma operation_failed_keeps:
  assumes "mqttImpl env = impl"
  shows "hoareC (lost A) (known A {}) (processRegistersOperationFailed env net (m :: modbus_msg))
    (\<lambda>_. known A {})"
  unfolding processRegistersOperationFailed_def
proof (rule hoare_get_bind)
  fix it
  let ?body = "\<lambda>a. bindC (getC (\<lambda>s. mIsAvailable (objectStore s a))) (\<lambda>oldAvail.
     thenC (objectC a (obj_updateRegistersReadFailed net m))
       (bindC (getC (\<lambda>s. mIsAvailable (objectStore s a))) (\<lambda>newAvail.
          thenC (publishState env a False)
            (if oldAvail \<noteq> newAvail then publishAvailabilityChange env a else returnC ()))))"
  have step: "obj_updateRegistersReadFailed net m = object_step (ReadFailed net m)"
    by (simp add: fun_eq_iff object_step_def)
  have body: "hoareC (lost A) (known A {}) (?body a) (\<lambda>_. known A {})" if "a \<in> A" for a
    unfolding step by (rule update_and_publish [OF assms that publish_state [OF assms that]])
  show "hoareC (lost A) (\<lambda>s. known A {} s \<and> it = map_of (mObjects s) (ident_of net m))
    (case it of None \<Rightarrow> returnC () | Some as \<Rightarrow> forC ?body as) (\<lambda>_. known A {})"
  proof (cases it)
    case None
    then show ?thesis by (auto intro: hoare_pre [OF known_return])
  next
    case (Some as)
    have "hoareC (lost A) (\<lambda>s. known A {} s \<and> set as \<subseteq> A) (forC ?body as) (\<lambda>_. known A {})"
      by (rule hoare_fact, rule hoare_for) (auto intro: body)
    then have "hoareC (lost A) (\<lambda>s. known A {} s \<and> Some as = map_of (mObjects s) (ident_of net m))
        (forC ?body as) (\<lambda>_. known A {})"
      by (rule hoare_pre) (metis listed_objects(1))
    with Some show ?thesis by simp
  qed
qed

lemma remdups_from_subset: "set (remdups_from seen as) \<subseteq> set as"
  by (induction seen as rule: remdups_from.induct) auto

lemma for_listed:
  assumes "\<And>a. a \<in> A \<Longrightarrow> hoareC (lost A) (known A {}) (body a) (\<lambda>_. known A {})"
    and "\<And>s. set (f s) \<subseteq> set (mObjects s)"
  shows "hoareC (lost A) (known A {})
    (bindC (getC (\<lambda>s. remdups_first (concat (map snd (f s))))) (forC body)) (\<lambda>_. known A {})"
proof (rule hoare_get_bind)
  fix as
  have "hoareC (lost A) (\<lambda>s. known A {} s \<and> set as \<subseteq> A) (forC body as) (\<lambda>_. known A {})"
    by (rule hoare_fact, rule hoare_for) (auto intro: assms(1))
  moreover have "set as \<subseteq> A" if "known A {} s" "as = remdups_first (concat (map snd (f s)))" for s
    using that assms(2) [of s] listed_objects(3) [OF that(1)]
      remdups_from_subset [of "[]" "concat (map snd (f s))"] by fastforce
  ultimately show "hoareC (lost A) (\<lambda>s. known A {} s \<and> as = remdups_first (concat (map snd (f s))))
      (forC body as) (\<lambda>_. known A {})"
    by (elim hoare_pre) blast
qed

lemma network_state_keeps:
  assumes "mqttImpl env = impl"
  shows "hoareC (lost A) (known A {}) (processModbusNetworkState env net isUp) (\<lambda>_. known A {})"
proof -
  have body: "hoareC (lost A) (known A {})
     (bindC (getC (\<lambda>s. mIsAvailable (objectStore s a))) (\<lambda>oldAvail.
      thenC (objectC a (setNetworkState net isUp))
        (bindC (getC (\<lambda>s. mIsAvailable (objectStore s a))) (\<lambda>newAvail.
           if oldAvail \<noteq> newAvail then publishAvailabilityChange env a else returnC ()))))
     (\<lambda>_. known A {})" if "a \<in> A" for a
    using update_and_publish [OF assms that known_return [of A _ "()"], of "NetworkState net isUp"]
    unfolding setNetworkState_step by (simp add: thenC_def)
  have "hoareC (lost A) (known A {})
    (bindC (getC (\<lambda>s. remdups_first (concat (map snd
        (filter (\<lambda>e. idNetworkName (fst e) = net) (mObjects s)))))) (forC (\<lambda>a.
     bindC (getC (\<lambda>s. mIsAvailable (objectStore s a))) (\<lambda>oldAvail.
      thenC (objectC a (setNetworkState net isUp))
        (bindC (getC (\<lambda>s. mIsAvailable (objectStore s a))) (\<lambda>newAvail.
           if oldAvail \<noteq> newAvail then publishAvailabilityChange env a else returnC ())))))) (\<lambda>_. known A {})"
    by (rule for_listed [OF body]) auto
  then show ?thesis
    unfolding processModbusNetworkState_def by (cases isUp) (simp_all add: known_return)
qed

lemma publish_all_keeps:
  assumes "mqttImpl env = impl"
  shows "hoareC (lost A) (known A {}) (publishAll env) (\<lambda>_. known A {})"
  unfolding publishAll_def
proof (rule for_listed [where f = mObjects, OF _ order_refl])
  fix a
  assume a: "a \<in> A"
  have "hoareC (lost A) (known A {})
      (bindC (getC (\<lambda>s. mIsAvailable (objectStore s a))) (\<lambda>flag.
         if flag = AvTrue then publishState env a True else returnC ())) (\<lambda>_. known A {a})"
    by (rule hoare_get_bind, rule hoare_pre [where P = "known A {}"], rule hoare_post [where Q = "\<lambda>_. known A {}"])
      (auto intro: publish_state [OF assms a] known_return known_mono)
  then show "hoareC (lost A) (known A {})
      (thenC (bindC (getC (\<lambda>s. mIsAvailable (objectStore s a))) (\<lambda>flag.
           if flag = AvTrue then publishState env a True else returnC ()))
        (publishAvailabilityChange env a)) (\<lambda>_. known A {})"
    by (rule hoare_then [OF _ publish_flag [OF assms a]])
qed

lemma start_keeps:
  assumes "mqttImpl env = impl"
  shows "hoareC (lost A) (known A {}) (mqtt_start env) (\<lambda>_. known A {})"
  unfolding hoareC_def
proof (intro allI impI)
  fix s res s'
  assume pre: "known A {} s" and run: "mqtt_start env s = (res, s')"
  obtain r m where m: "implConnect impl (mBrokerConfig s) (mMqttImpl s) = (r, m)" by fastforce
  have "known A {} s'"
    using pre run m connect_keeps [OF m]
    by (auto simp: mqtt_start_def assms flags_reported_def client_ok_simps split: if_splits)
  then show "case res of Inl e \<Rightarrow> lost A e s' | Inr x \<Rightarrow> known A {} s'"
    by (simp add: reported_if_mosquitto_def split: sum.split)
qed

lemma shutdown_keeps:
  "mqttImpl env = impl \<Longrightarrow> hoareC (lost A) (known A {}) (mqtt_shutdown env) (\<lambda>_. known A {})"
  unfolding mqtt_shutdown_def
  by (rule modify_keeps)
    (auto simp: flags_reported_def client_ok_simps impl_keeps Let_def split: conn_state.splits)

lemma disconnect_callback_keeps:
  "mqttImpl env = impl \<Longrightarrow> hoareC (lost A) (known A {}) (onDisconnect env) (\<lambda>_. known A {})"
  unfolding onDisconnect_def
  by (rule modify_keeps)
    (auto simp: flags_reported_def client_ok_simps impl_keeps Let_def split: conn_state.splits)

lemma connect_callback_keeps:
  assumes "mqttImpl env = impl"
  shows "hoareC (lost A) (known A {}) (onConnect env) (\<lambda>_. known A {})"
proof -
  have sub: "hoareC (lost A) (known A {}) (subscribeC env t) (\<lambda>_. known A {})" for t
    unfolding subscribeC_def
    by (rule modify_keeps) (simp add: flags_reported_def client_ok_simps impl_keeps assms)
  have mods: "hoareC (lost A) (known A {}) (modifyC (\<lambda>s. s\<lparr>mConnectionState := CONNECTED\<rparr>)) (\<lambda>_. known A {})"
    "hoareC (lost A) (known A {}) (modifyC (\<lambda>s. s\<lparr>mModbusClients := f (mModbusClients s)\<rparr>)) (\<lambda>_. known A {})"
    for f
    by (rule modify_keeps, simp add: flags_reported_def client_ok_simps)+
  have rest: "hoareC (lost A) (known A {})
      (thenC (if mode \<noteq> DISABLED then subscribeC env topic else returnC ())
       (thenC (modifyC (\<lambda>s. s\<lparr>mConnectionState := CONNECTED\<rparr>))
       (thenC (publishAll env)
         (modifyC (\<lambda>s. s\<lparr>mModbusClients := map (sendMqttNetworkIsUp True) (mModbusClients s)\<rparr>)))))
      (\<lambda>_. known A {})" for mode topic
    by (rule hoare_then [OF hoare_if hoare_then [OF mods(1) hoare_then [OF publish_all_keeps [OF assms] mods(2)]]])
      (rule sub known_return)+
  show ?thesis
    unfolding onConnect_def
    by (rule hoare_get_bind, rule hoare_pre [OF hoare_then [OF hoare_for [OF sub] hoare_get_bind]])
      (auto intro: hoare_pre [OF rest])
qed

lemma message_keeps:
  assumes "mqttImpl env = impl"
  shows "hoareC (lost A) (known A {}) (onMessage env topic payload t c) (\<lambda>_. known A {})"
proof -
  have send: "hoareC (\<lambda>_. known A {}) (known A {})
      (bindC (liftC (commandRegisters env cmd payload)) (client_sendCommand env cmd)) (\<lambda>_. known A {})" for cmd
    unfolding client_sendCommand_def
    by (rule hoare_lift_bind) (auto simp: hoareC_def [of _ _ "liftC _"] liftC_def
        intro: hoare_bind [OF read_clock_any] enqueue_keeps)
  have command: "hoareC (lost A) (known A {})
      (catchC (bindC (liftC (commandRegisters env cmd payload)) (client_sendCommand env cmd))
         (on_conversion_error (returnC ()))) (\<lambda>_. known A {})" for cmd
    by (rule hoare_catch [OF send])
      (auto simp: on_conversion_error_def reported_if_mosquitto_def intro: known_return
        split: cpp_exn.splits)
  show ?thesis
    unfolding onMessage_def
  proof (rule hoare_get_bind)
    fix it
    show "hoareC (lost A) (\<lambda>s. known A {} s \<and> it = map_of (mCommands s) topic)
      (case it of
         None \<Rightarrow> bindC (getC (\<lambda>s. mRpcMode s \<noteq> DISABLED \<and> mRpcRequestTopic s = topic)) (\<lambda>rpc.
             if rpc then handleRpcRequest env payload t c else returnC ())
       | Some cmd \<Rightarrow> bindC (getC (\<lambda>s. hasNetwork (cmdNetworkName cmd) (mModbusClients s))) (\<lambda>known.
             if \<not> known then returnC ()
             else catchC (bindC (liftC (commandRegisters env cmd payload)) (client_sendCommand env cmd))
                    (on_conversion_error (returnC ())))) (\<lambda>_. known A {})"
      by (cases it)
        (auto intro!: hoare_get_bind intro: hoare_pre [OF request_keeps [OF assms]]
          hoare_pre [OF command] hoare_pre [OF known_return])
  qed
qed

end

end
