(* ===== verification/Client_Properties.thy ===== *)
theory Client_Properties
  imports Client_Availability
begin

text \<open>
  The life of an MQTT client as a sequence of events: messages from the Modbus threads, callbacks of
  the MQTT library, and the calls of the main loop. An exception that leaves an event ends the
  gateway, so a state is reached by events that return.
\<close>

section \<open>Events\<close>

datatype client_event =
    ValuesArrived string msg_register_values
  | OperationFailed string modbus_msg
  | NetworkChanged string bool
  | RpcFailed modbus_msg
  | MqttConnected
  | MqttDisconnected
  | MqttMessage string string "string option" "string option"
  | StartCalled
  | ShutdownCalled

definition client_step :: "'m mqtt_env \<Rightarrow> client_event \<Rightarrow> ('m, unit) client_op" where
  "client_step env e =
     (case e of
        ValuesArrived net m \<Rightarrow> processRegisterValues env net m
      | OperationFailed net m \<Rightarrow> processRegistersOperationFailed env net m
      | NetworkChanged net isUp \<Rightarrow> processModbusNetworkState env net isUp
      | RpcFailed m \<Rightarrow> publishRpcErrorFor env m
      | MqttConnected \<Rightarrow> onConnect env
      | MqttDisconnected \<Rightarrow> onDisconnect env
      | MqttMessage topic payload t c \<Rightarrow> onMessage env topic payload t c
      | StartCalled \<Rightarrow> mqtt_start env
      | ShutdownCalled \<Rightarrow> mqtt_shutdown env)"

inductive client_reaches :: "'m mqtt_env \<Rightarrow> 'm mqtt_client \<Rightarrow> client_event list \<Rightarrow> 'm mqtt_client \<Rightarrow> bool"
  for env where
  reaches_start: "client_reaches env s [] s"
| reaches_step: "client_reaches env s es t \<Longrightarrow> client_step env e t = (Inr (), u) \<Longrightarrow>
    client_reaches env s (es @ [e]) u"

lemma reaches_one: "client_step env e s = (Inr (), u) \<Longrightarrow> client_reaches env s [e] u"
  using reaches_step [OF reaches_start] by simp

context mqtt_implementation
begin

lemma step_keeps:
  "mqttImpl env = impl \<Longrightarrow> hoareC (lost A) (known A {}) (client_step env e) (\<lambda>_. known A {})"
  by (cases e) (simp_all add: client_step_def register_values_keeps operation_failed_keeps
      network_state_keeps rpc_error_for_keeps connect_callback_keeps disconnect_callback_keeps
      message_keeps start_keeps shutdown_keeps)

lemma reaches_keeps:
  "client_reaches env s es t \<Longrightarrow> mqttImpl env = impl \<Longrightarrow> known A {} s \<Longrightarrow> known A {} t"
proof (induction rule: client_reaches.induct)
  case (reaches_step s es t e u)
  then show ?case using hoareD [OF step_keeps] by blast
qed

end

section \<open>A client with one object\<close>

definition demo_mosq_lib :: mosq_lib where
  "demo_mosq_lib =
     \<lparr>mosqResult = (\<lambda>_ _. MOSQ_ERR_SUCCESS), errnoIsEPROTO = (\<lambda>_. False), strerror = (\<lambda>_. [])\<rparr>"

definition demo_env :: "mosq_state mqtt_env" where
  "demo_env =
     \<lparr>mqttImpl = mosquitto_impl demo_mosq_lib, mqttClock = (\<lambda>n. int n), formatDouble = (\<lambda>_ _. []),
      renderJson = (\<lambda>_. ''[5,6]''), parseJson = (\<lambda>_. Inr JNull),
      createConverterFrom = (\<lambda>_. Inl (ConvNameParserException []))\<rparr>"

definition demo_client :: "mosq_state mqtt_client" where
  "demo_client =
     \<lparr>mMqttImpl = \<lparr>mosqProtocolV5 = False, mosqCalls = []\<rparr>, clientTicks = 0,
      objectStore = (\<lambda>_. demo_object),
      mBrokerConfig = \<lparr>mHost = ''h'', mPort = 1883, mKeepalive = 60, mUsername = [], mPassword = [],
        mTLS = False, mCafile = [], mProtocolV5 = False\<rparr>,
      mModbusClients = [\<lparr>clNetworkName = ''net'', mToModbusQueue = [], mFromModbusQueue = []\<rparr>],
      mConnectionState = CONNECTED, mIsStarted = True,
      mObjects = [(demo_ident 8, [0]), (demo_ident 10, [0])], mCommandObjects = [],
      mCommands = [], mRpcMode = READ, mRpcRequestTopic = ''gw/rpc/modbus_request'', mNextRpcId = 0,
      mPendingRpc = []\<rparr>"

definition demo_client_event :: client_event where
  "demo_client_event = OperationFailed ''net'' (demo_failed 10 2)"

lemma demo_client_ok: "client_ok {0} demo_client"
  by (simp add: client_ok_def topics_distinct_def listed_def demo_client_def demo_object_def
      new_MqttObject_def c_str_def quiet_object_def addDataNode_def demo_leaf_def)

lemma demo_client_steps:
  "client_step demo_env demo_client_event demo_client =
     (Inr (), snd (client_step demo_env demo_client_event demo_client))"
proof -
  have "fst (client_step demo_env demo_client_event demo_client) = Inr ()" by code_simp
  then show ?thesis by (metis prod.collapse)
qed

section \<open>Results\<close>

text \<open>
  C34: as long as the MQTT library has not refused a message, the last message handed over for the
  availability topic of an object tells its availability flag, in every state the client reaches
  from one whose flags are unset, by any events in any order. The objects must have different
  topics.
\<close>

theorem availability_is_reported:
  assumes "mqttImpl env = mosquitto_impl lib" and "client_ok A s"
    and "\<forall>a \<in> A. mIsAvailable (objectStore s a) = NotSet"
    and "client_reaches env s es t" and "\<not> mosq_failed (mMqttImpl t)"
    and "a \<in> A" and "mIsAvailable (objectStore t a) \<noteq> NotSet"
  shows "last_on (c_str (mAvailabilityTopic (objectStore t a))) (mosq_sent (mMqttImpl t)) =
    Some (Published (c_str (mAvailabilityTopic (objectStore t a)))
      (Some (if mIsAvailable (objectStore t a) = AvTrue then ''1'' else ''0'')) True)"
proof -
  have "flags_reported mosq_sent mosq_failed A {} s"
    using assms(2,3) by (simp add: flags_reported_def reported_def)
  from mosq.reaches_keeps [OF assms(4,1) this] assms(5-7) show ?thesis
    by (simp add: flags_reported_def reported_def flag_text_def)
qed

theorem availability_is_reported_witness:
  "let t = snd (client_step demo_env demo_client_event demo_client)
   in client_ok {0} demo_client \<and> \<not> mosq_failed (mMqttImpl t) \<and>
      mIsAvailable (objectStore t 0) = AvFalse \<and>
      last_on ''obj/availability'' (mosq_sent (mMqttImpl t)) =
        Some (Published ''obj/availability'' (Some ''0'') True)"
proof -
  define t where "t = snd (client_step demo_env demo_client_event demo_client)"
  have run: "client_reaches demo_env demo_client [demo_client_event] t"
    using reaches_one [OF demo_client_steps] by (simp add: t_def)
  have flag: "mIsAvailable (objectStore t 0) = AvFalse" unfolding t_def by code_simp
  have topic: "c_str (mAvailabilityTopic (objectStore t 0)) = ''obj/availability''"
    unfolding t_def by code_simp
  have ok: "\<not> mosq_failed (mMqttImpl t)" unfolding t_def by code_simp
  have "mqttImpl demo_env = mosquitto_impl demo_mosq_lib"
    "\<forall>a \<in> {0}. mIsAvailable (objectStore demo_client a) = NotSet"
    by (simp_all add: demo_env_def demo_client_def demo_object_def new_MqttObject_def)
  from availability_is_reported [OF this(1) demo_client_ok this(2) run ok, of 0] flag topic ok
  show ?thesis by (simp add: demo_client_ok t_def [symmetric] Let_def)
qed

end
