(* ===== verification/Rpc_Properties.thy ===== *)
theory Rpc_Properties
  imports Client_Properties
begin

text \<open>
  Remote calls: what is queued for a request, and that every request is answered once, at its
  response topic and with its correlation data.
\<close>

section \<open>Accounts\<close>

text \<open>Where an answer goes.\<close>

type_synonym address = "string \<times> string"

fun answer_address :: "mqtt_message \<Rightarrow> address list" where
  "answer_address (Responded t p c ps) = [(t, c)]"
| "answer_address (Published t p r) = []"

definition answered :: "mqtt_message list \<Rightarrow> address multiset" where
  "answered msgs = mset (concat (map answer_address msgs))"

definition correlation_bytes :: "string option \<Rightarrow> string" where
  "correlation_bytes c = (case c of None \<Rightarrow> [] | Some d \<Rightarrow> take (length d mod 65536) d)"

definition pending_address :: "int \<times> pending_rpc \<Rightarrow> address" where
  "pending_address e =
     (c_str (rpcResponseTopic (snd e)), correlation_bytes (rpcCorrelationData (snd e)))"

definition waiting :: "'m mqtt_client \<Rightarrow> address multiset" where
  "waiting s = mset (map pending_address (mPendingRpc s))"

text \<open>The requests among the messages from the broker.\<close>

fun request_address :: "'m mqtt_client \<Rightarrow> client_event \<Rightarrow> address list" where
  "request_address s (MqttMessage topic payload (Some t) c) =
     (if t \<noteq> [] \<and> map_of (mCommands s) topic = None \<and> mRpcMode s \<noteq> DISABLED \<and>
         mRpcRequestTopic s = topic
      then [(c_str t, correlation_bytes c)] else [])"
| "request_address s _ = []"

definition requested :: "'m mqtt_client \<Rightarrow> client_event list \<Rightarrow> address multiset" where
  "requested s es = mset (concat (map (request_address s) es))"

text \<open>
  The requests that wait when the connection to the broker is lost. The client forgets them.
\<close>

fun abandoned :: "'m mqtt_env \<Rightarrow> 'm mqtt_client \<Rightarrow> client_event list \<Rightarrow> address multiset" where
  "abandoned env s [] = {#}"
| "abandoned env s (e # es) =
     (if e = MqttDisconnected then waiting s else {#}) +
     abandoned env (snd (client_step env e s)) es"

lemma abandoned_append:
  "abandoned env s (es @ es') =
     abandoned env s es + abandoned env (fold (\<lambda>e s. snd (client_step env e s)) es s) es'"
  by (induction es arbitrary: s) simp_all

lemma reaches_fold: "client_reaches env s es t \<Longrightarrow> fold (\<lambda>e s. snd (client_step env e s)) es s = t"
  by (induction rule: client_reaches.induct) simp_all

lemma abandoned_snoc:
  "client_reaches env s es t \<Longrightarrow>
   abandoned env s (es @ [e]) = abandoned env s es + (if e = MqttDisconnected then waiting t else {#})"
  by (simp add: abandoned_append reaches_fold)

lemma abandoned_connected: "MqttDisconnected \<notin> set es \<Longrightarrow> abandoned env s es = {#}"
  by (induction es arbitrary: s) auto

section \<open>Pending requests\<close>

definition ids_ok :: "int \<Rightarrow> (int, pending_rpc) omap \<Rightarrow> bool" where
  "ids_ok n m \<longleftrightarrow> omap_ok m \<and> list_all (\<lambda>e. n \<le> fst e) m"

definition pending_ok :: "'m mqtt_client \<Rightarrow> bool" where
  "pending_ok s \<longleftrightarrow> ids_ok (mNextRpcId s) (mPendingRpc s)"

lemma mset_omap_put:
  "k \<notin> fst ` set m \<Longrightarrow> mset (omap_put k v m) = add_mset (k, v) (mset m)"
  by (induction k v m rule: omap_put.induct) auto

lemma mset_omap_erase:
  "distinct (map fst m) \<Longrightarrow> map_of m k = Some v \<Longrightarrow>
   mset m = add_mset (k, v) (mset (omap_erase k m))"
proof (induction m)
  case (Cons e m)
  show ?case
  proof (cases "fst e = k")
    case True
    with Cons.prems(1) have "k \<notin> fst ` set m" by auto
    then have "filter (\<lambda>e. fst e \<noteq> k) m = m" by (auto simp: filter_id_conv)
    with Cons True show ?thesis by (cases e) (auto simp: omap_erase_def)
  qed (use Cons in \<open>auto simp: omap_erase_def\<close>)
qed simp

lemma omap_erase_unknown: "map_of m k = None \<Longrightarrow> omap_erase k m = m"
  by (auto simp: omap_erase_def filter_id_conv map_of_eq_None_iff)

lemma ids_ok_erase: "ids_ok n m \<Longrightarrow> ids_ok n (omap_erase k m)"
  by (auto simp: ids_ok_def omap_ok_def omap_erase_def sorted_wrt_filter sorted_wrt_map list_all_iff)

lemma list_all_keys: "list_all (\<lambda>e. P (fst e)) m \<longleftrightarrow> (\<forall>k \<in> fst ` set m. P k)"
  by (auto simp: list_all_iff)

lemma ids_ok_put: "ids_ok n m \<Longrightarrow> ids_ok (n - 1) (omap_put (n - 1) v m)"
  unfolding ids_ok_def list_all_keys set_keys_omap_put by fastforce

section \<open>Operations without remote calls\<close>

definition rpc_view ::
  "('m \<Rightarrow> mqtt_message list) \<Rightarrow> 'm mqtt_client \<Rightarrow>
    address multiset \<times> (int, pending_rpc) omap \<times> int \<times> (string, mqtt_command) omap \<times> rpc_mode \<times> string" where
  "rpc_view sent s =
     (answered (sent (mMqttImpl s)), mPendingRpc s, mNextRpcId s, mCommands s, mRpcMode s,
      mRpcRequestTopic s)"

definition same_rpc ::
  "('m \<Rightarrow> mqtt_message list) \<Rightarrow> ('m \<Rightarrow> bool) \<Rightarrow> 'm mqtt_client \<Rightarrow> 'm mqtt_client \<Rightarrow> bool" where
  "same_rpc sent failed s s' \<longleftrightarrow>
     (failed (mMqttImpl s) \<longrightarrow> failed (mMqttImpl s')) \<and>
     (failed (mMqttImpl s') \<or> rpc_view sent s' = rpc_view sent s)"

interpretation same_rpc_order: client_preorder "same_rpc sent failed" for sent failed
  by standard (auto simp: same_rpc_def)

definition lost_stays :: "('m \<Rightarrow> bool) \<Rightarrow> 'm mqtt_client \<Rightarrow> 'm mqtt_client \<Rightarrow> bool" where
  "lost_stays failed s s' \<longleftrightarrow> (failed (mMqttImpl s) \<longrightarrow> failed (mMqttImpl s'))"

interpretation lost_order: client_preorder "lost_stays failed" for failed
  by standard (auto simp: lost_stays_def)

lemma answered_append: "answered (xs @ ys) = answered xs + answered ys"
  by (simp add: answered_def)

context mqtt_implementation
begin

abbreviation "quiet \<equiv> relC (same_rpc sent failed)"

lemma quiet_publish: "mqttImpl env = impl \<Longrightarrow> quiet (publishC env t p r)"
proof (unfold relC_def, intro allI impI)
  fix s res s'
  assume env: "mqttImpl env = impl" and run: "publishC env t p r s = (res, s')"
  then obtain m where m: "implPublish impl t p r (mMqttImpl s) = (res, m)"
    and s': "s' = s\<lparr>mMqttImpl := m\<rparr>"
    by (auto simp: publishC_def split: prod.splits)
  then show "same_rpc sent failed s s'"
    using publish_sends [of t p r "mMqttImpl s" _ m] publish_throws [of t p r "mMqttImpl s" _ m]
    by (cases res) (auto simp: same_rpc_def rpc_view_def answered_def)
qed

lemma quiet_now: "quiet (nowC env)"
  by (simp add: relC_def nowC_def same_rpc_def rpc_view_def)

lemma quiet_object: "quiet (objectC a f)"
  by (auto simp: relC_def objectC_def same_rpc_def rpc_view_def Let_def
      split: prod.splits option.splits)

lemma quiet_set_object: "quiet (setObjectC a f)"
  by (simp add: relC_def setObjectC_def modifyC_def same_rpc_def rpc_view_def)

lemma quiet_enqueue: "quiet (enqueueC net item)"
  by (simp add: relC_def enqueueC_def modifyC_def same_rpc_def rpc_view_def)

lemmas quiet_ops = same_rpc_order.rel_rules quiet_now quiet_object quiet_set_object quiet_enqueue

lemma quiet_publishState: "mqttImpl env = impl \<Longrightarrow> quiet (publishState env a b)"
  unfolding publishState_def by (intro quiet_ops quiet_publish)

lemma quiet_availability: "mqttImpl env = impl \<Longrightarrow> quiet (publishAvailabilityChange env a)"
  unfolding publishAvailabilityChange_def by (intro quiet_ops quiet_publish)

lemma quiet_values: "mqttImpl env = impl \<Longrightarrow> quiet (processObjectValues env net m a)"
  unfolding processObjectValues_def publishBecameAvailable_def republishC_def
  by (intro quiet_ops quiet_publish quiet_publishState quiet_availability)

lemma quiet_failed: "mqttImpl env = impl \<Longrightarrow> quiet (processRegistersOperationFailed env net m)"
  unfolding processRegistersOperationFailed_def
  by (intro quiet_ops quiet_publishState quiet_availability)

lemma quiet_network: "mqttImpl env = impl \<Longrightarrow> quiet (processModbusNetworkState env net isUp)"
  unfolding processModbusNetworkState_def by (intro quiet_ops quiet_availability)

lemma quiet_all: "mqttImpl env = impl \<Longrightarrow> quiet (publishAll env)"
  unfolding publishAll_def by (intro quiet_ops quiet_publishState quiet_availability)

lemma quiet_subscribe: "mqttImpl env = impl \<Longrightarrow> quiet (subscribeC env t)"
  by (simp add: relC_def subscribeC_def modifyC_def same_rpc_def rpc_view_def impl_keeps)

lemma quiet_connect: "mqttImpl env = impl \<Longrightarrow> quiet (onConnect env)"
proof -
  assume env: "mqttImpl env = impl"
  have "quiet (modifyC (\<lambda>s. s\<lparr>mConnectionState := c\<rparr>))"
    "quiet (modifyC (\<lambda>s. s\<lparr>mModbusClients := f (mModbusClients s)\<rparr>))" for c f
    by (simp_all add: relC_def modifyC_def same_rpc_def rpc_view_def)
  with env show ?thesis
    unfolding onConnect_def
    by (auto intro!: quiet_ops quiet_subscribe quiet_all split: prod.split)
qed

lemma quiet_start: "mqttImpl env = impl \<Longrightarrow> quiet (mqtt_start env)"
proof (unfold relC_def, intro allI impI)
  fix s res s'
  assume env: "mqttImpl env = impl" and run: "mqtt_start env s = (res, s')"
  obtain r m where m: "implConnect impl (mBrokerConfig s) (mMqttImpl s) = (r, m)" by fastforce
  from run env m connect_keeps [OF m] show "same_rpc sent failed s s'"
    by (auto simp: mqtt_start_def same_rpc_def rpc_view_def split: if_splits)
qed

lemma quiet_shutdown: "mqttImpl env = impl \<Longrightarrow> quiet (mqtt_shutdown env)"
  by (auto simp: relC_def mqtt_shutdown_def modifyC_def same_rpc_def rpc_view_def impl_keeps Let_def
      split: conn_state.splits)

lemma quiet_command:
  "quiet (catchC (bindC (liftC (commandRegisters env cmd payload)) (client_sendCommand env cmd))
     (on_conversion_error (returnC ())))"
  unfolding client_sendCommand_def
  by (rule same_rpc_order.rel_catch)
    (auto intro!: quiet_ops simp: on_conversion_error_def split: cpp_exn.splits)

end

section \<open>Operations of remote calls\<close>

definition rpc_account :: "('m \<Rightarrow> mqtt_message list) \<Rightarrow> 'm mqtt_client \<Rightarrow> address multiset" where
  "rpc_account sent s = answered (sent (mMqttImpl s)) + waiting s"

text \<open>A step that adds the requests \<open>X\<close> to the account, unless a message was lost.\<close>

definition moves ::
  "('m \<Rightarrow> mqtt_message list) \<Rightarrow> ('m \<Rightarrow> bool) \<Rightarrow> address multiset \<Rightarrow> 'm mqtt_client \<Rightarrow> 'm mqtt_client
    \<Rightarrow> bool" where
  "moves sent failed X s s' \<longleftrightarrow>
     (failed (mMqttImpl s) \<longrightarrow> failed (mMqttImpl s')) \<and>
     (failed (mMqttImpl s') \<or>
      mCommands s' = mCommands s \<and> mRpcMode s' = mRpcMode s \<and>
      mRpcRequestTopic s' = mRpcRequestTopic s \<and>
      rpc_account sent s' = rpc_account sent s + X \<and> pending_ok s' \<and>
      mNextRpcId s - 1 \<le> mNextRpcId s')"

lemma same_rpc_moves: "same_rpc sent failed s t \<Longrightarrow> pending_ok s \<Longrightarrow> moves sent failed {#} s t"
  by (auto simp: same_rpc_def moves_def rpc_view_def rpc_account_def waiting_def pending_ok_def)

lemma moves_same_rpc:
  "moves sent failed X s t \<Longrightarrow> same_rpc sent failed t u \<Longrightarrow> moves sent failed X s u"
  by (auto simp: same_rpc_def moves_def rpc_view_def rpc_account_def waiting_def pending_ok_def)

text \<open>An answer was sent, or a message lost, and nothing else happened.\<close>

definition answers ::
  "('m \<Rightarrow> mqtt_message list) \<Rightarrow> ('m \<Rightarrow> bool) \<Rightarrow> address \<Rightarrow> 'm mqtt_client \<Rightarrow> 'm mqtt_client \<Rightarrow> bool" where
  "answers sent failed x s s' \<longleftrightarrow>
     (\<exists>m. s' = s\<lparr>mMqttImpl := m\<rparr> \<and>
        (failed m \<or> (\<not> failed (mMqttImpl s) \<and> answered (sent m) = add_mset x (answered (sent (mMqttImpl s))))))"

lemma answers_moves:
  "answers sent failed x s s' \<Longrightarrow> pending_ok s \<Longrightarrow> moves sent failed {#x#} s s'"
  by (auto simp: answers_def moves_def rpc_account_def waiting_def pending_ok_def)

text \<open>Taking a pending request and answering it leaves the account as it is.\<close>

lemma take_answer_moves:
  assumes "pending_ok s" and "map_of (mPendingRpc s) cid = Some req"
    and "answers sent failed (pending_address (cid, req))
      (s\<lparr>mPendingRpc := omap_erase cid (mPendingRpc s)\<rparr>) s'"
  shows "moves sent failed {#} s s'"
proof -
  have "mset (mPendingRpc s) = add_mset (cid, req) (mset (omap_erase cid (mPendingRpc s)))"
    using assms(1,2) by (intro mset_omap_erase omap_ok_distinct) (auto simp: pending_ok_def ids_ok_def)
  then have "waiting s =
      add_mset (pending_address (cid, req))
        (image_mset pending_address (mset (omap_erase cid (mPendingRpc s))))"
    by (simp add: waiting_def)
  then show ?thesis
    using assms(1,3)
    by (auto simp: answers_def moves_def rpc_account_def waiting_def pending_ok_def ids_ok_erase)
qed

text \<open>What an accepted request leaves in the client.\<close>

definition rpc_item :: "int \<Rightarrow> time \<Rightarrow> rpc_request \<Rightarrow> queue_item" where
  "rpc_item cid t rq =
     (if rqIsWrite rq
      then RegisterValues (new_register_values (rqSlave rq) (rqType rq) (rqRegister rq) (rqValues rq)
             cid AUTO t)
      else RegisterReadRequest
             (new_msg (rqSlave rq) (rqType rq) (rqRegister rq) (rqCount rq) cid))"

definition rpc_entry :: "string \<Rightarrow> string option \<Rightarrow> rpc_request \<Rightarrow> pending_rpc" where
  "rpc_entry respTopic corr rq =
     \<lparr>rpcNetworkName = rqNetwork rq, rpcResponseTopic = respTopic,
      rpcCorrelationData = corr, rpcSlaveId = rqSlave rq,
      rpcRegisterNumber = rqRegister rq, rpcDisplayAddress = rqAddress rq,
      rpcRegisterType = rqType rq, rpcCount = rqCount rq, rpcIsWrite = rqIsWrite rq,
      rpcConverter = rqConverter rq\<rparr>"

lemma accept_result:
  "\<exists>n t. acceptRpc env respTopic corr rq s =
     (Inr (), s\<lparr>clientTicks := n,
        mModbusClients := enqueue_first (rqNetwork rq)
          (MessageItem (rpc_item (next_rpc_id (mNextRpcId s)) t rq)) (mModbusClients s),
        mNextRpcId := next_rpc_id (mNextRpcId s),
        mPendingRpc := omap_put (next_rpc_id (mNextRpcId s)) (rpc_entry respTopic corr rq)
          (mPendingRpc s)\<rparr>)"
proof (cases "rqIsWrite rq")
  case True
  then show ?thesis
    by (intro exI [of _ "Suc (clientTicks s)"] exI [of _ "mqttClock env (clientTicks s)"])
      (simp add: acceptRpc_def bindC_def thenC_def getC_def modifyC_def nowC_def enqueueC_def
        rpc_item_def rpc_entry_def)
next
  case False
  then show ?thesis
    by (intro exI [of _ "clientTicks s"] exI [of _ 0])
      (simp add: acceptRpc_def bindC_def thenC_def getC_def modifyC_def enqueueC_def
        rpc_item_def rpc_entry_def)
qed

lemma request_cases:
  assumes "handleRpcRequest env payload (Some t) c s = (res, s')" and "t \<noteq> []"
  obtains (refused) e where "checkRpcRequest env s payload = Inl e" "e \<noteq> Undefined"
      "publishRpcError env t c (exn_what e) s = (res, s')"
  | (undefined_behaviour) "checkRpcRequest env s payload = Inl Undefined" "res = Inl Undefined" "s' = s"
  | (accepted) rq where "checkRpcRequest env s payload = Inr rq" "acceptRpc env t c rq s = (res, s')"
proof (cases "checkRpcRequest env s payload")
  case (Inl e)
  note run = assms(1) [unfolded handleRpcRequest_def catchC_def bindC_def getC_def liftC_def on_any_def]
  show ?thesis
  proof (cases "e = Undefined")
    case True
    with Inl run assms(2) have "res = Inl Undefined" "s' = s" by simp_all
    with Inl True that(2) show ?thesis by simp
  next
    case False
    with Inl run assms(2) have "publishRpcError env t c (exn_what e) s = (res, s')" by simp
    with Inl False that(1) show ?thesis by simp
  qed
next
  case (Inr rq)
  obtain u where u: "acceptRpc env t c rq s = (Inr (), u)"
    using accept_result [of env t c rq s] by blast
  with Inr assms have "acceptRpc env t c rq s = (res, s')"
    by (simp add: handleRpcRequest_def catchC_def bindC_def getC_def liftC_def)
  with Inr that(3) show ?thesis by simp
qed

context mqtt_implementation
begin

lemma respond_answers:
  assumes "mqttImpl env = impl"
    and "catchC (publishResponseC env t p c ps) (on_any (\<lambda>_. returnC ())) s = (res, s')"
  shows "res = Inr () \<and> answers sent failed (t, correlation_bytes c) s s'"
proof -
  obtain r m where m: "implPublishResponse impl t p c ps (mMqttImpl s) = (r, m)" by fastforce
  then have r: "publishResponseC env t p c ps s = (r, s\<lparr>mMqttImpl := m\<rparr>)"
    by (simp add: publishResponseC_def assms(1))
  show ?thesis
  proof (cases r)
    case (Inl e)
    with m r assms(2) respond_throws [of t p c ps "mMqttImpl s" e m] show ?thesis
      by (auto simp: catchC_def on_any_def returnC_def answers_def)
  next
    case (Inr u)
    with m r assms(2) respond_sends [of t p c ps "mMqttImpl s" u m] show ?thesis
      by (auto simp: catchC_def answers_def response_def answered_def correlation_bytes_def)
  qed
qed

lemma error_answers:
  "mqttImpl env = impl \<Longrightarrow> publishRpcError env t c msg s = (res, s') \<Longrightarrow>
   res = Inr () \<and> answers sent failed (c_str t, correlation_bytes c) s s'"
  unfolding publishRpcError_def by (rule respond_answers)

lemma response_moves:
  assumes env: "mqttImpl env = impl" and ok: "pending_ok s"
    and run: "publishRpcResponse env m s = (Inr (), s')"
  shows "moves sent failed {#} s s'"
proof (cases "map_of (mPendingRpc s) (mCommandId m)")
  case None
  with run have "s' = s"
    by (auto simp: publishRpcResponse_def bindC_def takePending_def returnC_def omap_erase_unknown)
  with ok show ?thesis by (simp add: moves_def)
next
  case (Some req)
  let ?mid = "s\<lparr>mPendingRpc := omap_erase (mCommandId m) (mPendingRpc s)\<rparr>"
  have "answers sent failed (pending_address (mCommandId m, req)) ?mid s'"
  proof (cases "rpc_payload env req (mRegisters m)")
    case (Inl e)
    with run Some have "publishRpcError env (rpcResponseTopic req) (rpcCorrelationData req)
        ''internal error'' ?mid = (Inr (), s')"
      by (cases e) (simp_all add: publishRpcResponse_def bindC_def takePending_def liftC_def)
    from error_answers [OF env this] show ?thesis by (simp add: pending_address_def)
  next
    case (Inr payload)
    with run Some have "catchC (publishResponseC env (c_str (rpcResponseTopic req))
        (if payload = [] then None else Some payload) (rpcCorrelationData req) [])
        (on_any (\<lambda>_. returnC ())) ?mid = (Inr (), s')"
      by (simp add: publishRpcResponse_def bindC_def takePending_def)
    from respond_answers [OF env this] show ?thesis by (simp add: pending_address_def)
  qed
  from take_answer_moves [OF ok Some this] show ?thesis .
qed

lemma failure_moves:
  assumes env: "mqttImpl env = impl" and ok: "pending_ok s"
    and run: "publishRpcErrorFor env m s = (Inr (), s')"
  shows "moves sent failed {#} s s'"
proof (cases "map_of (mPendingRpc s) (mCommandId m)")
  case None
  with run have "s' = s"
    by (auto simp: publishRpcErrorFor_def bindC_def takePending_def returnC_def omap_erase_unknown)
  with ok show ?thesis by (simp add: moves_def)
next
  case (Some req)
  let ?mid = "s\<lparr>mPendingRpc := omap_erase (mCommandId m) (mPendingRpc s)\<rparr>"
  have "answers sent failed (pending_address (mCommandId m, req)) ?mid s'"
    using run Some error_answers [OF env, of "rpcResponseTopic req" "rpcCorrelationData req" _ ?mid]
    by (simp add: publishRpcErrorFor_def bindC_def takePending_def pending_address_def)
  from take_answer_moves [OF ok Some this] show ?thesis .
qed

lemma request_moves:
  assumes env: "mqttImpl env = impl" and ok: "pending_ok s" and next_id: "INT_MIN < mNextRpcId s"
    and t: "t \<noteq> []" and run: "handleRpcRequest env payload (Some t) c s = (Inr (), s')"
  shows "moves sent failed {#(c_str t, correlation_bytes c)#} s s'"
  using run t
proof (cases rule: request_cases)
  case (refused e)
  with ok env error_answers answers_moves show ?thesis by blast
next
  case (accepted rq)
  let ?id = "mNextRpcId s - 1"
  have cid: "next_rpc_id (mNextRpcId s) = ?id" using next_id by (simp add: next_rpc_id_def)
  obtain n cs where s': "s' = s\<lparr>clientTicks := n, mModbusClients := cs, mNextRpcId := ?id,
      mPendingRpc := omap_put ?id (rpc_entry t c rq) (mPendingRpc s)\<rparr>"
    using accepted(2) accept_result [of env t c rq s] by (auto simp: cid)
  have fresh: "?id \<notin> fst ` set (mPendingRpc s)"
    using ok by (force simp: pending_ok_def ids_ok_def list_all_iff)
  have "ids_ok ?id (omap_put ?id (rpc_entry t c rq) (mPendingRpc s))"
    using ok by (simp add: pending_ok_def ids_ok_put)
  with fresh show ?thesis
    by (simp add: s' moves_def rpc_account_def waiting_def mset_omap_put pending_ok_def
        pending_address_def rpc_entry_def)
qed simp

lemma values_moves:
  assumes env: "mqttImpl env = impl" and ok: "pending_ok s"
    and run: "processRegisterValues env net m s = (Inr (), s')"
  shows "moves sent failed {#} s s'"
proof (cases "isConnected s")
  case False
  with run have "s' = s" by (simp add: processRegisterValues_def bindC_def getC_def returnC_def)
  with ok show ?thesis by (simp add: moves_def)
next
  case True
  let ?loop = "\<lambda>as. case as of None \<Rightarrow> returnC ()
     | Some as \<Rightarrow> catchC (forC (processObjectValues env net m) as) (on_mosquitto (returnC ()))"
  have quiet_loop: "quiet (?loop as)" for as
    by (intro quiet_ops quiet_values env)
  obtain as mid where mid: "affectedObjects env net m s = (Inr as, mid)" "?loop as mid = (Inr (), s')"
    using run True by (auto simp: processRegisterValues_def bindC_Inr_iff getC_def)
  have "moves sent failed {#} s mid"
  proof (cases "isRpc m \<and> hasCommandId m \<and> map_of (mCommandObjects s) (mCommandId m) = None")
    case True
    with mid(1) have "publishRpcResponse env m s = (Inr (), mid)"
      by (auto simp: affectedObjects_def bindC_Inr_iff thenC_def getC_def returnC_def)
    from response_moves [OF env ok this] show ?thesis .
  next
    case False
    with mid(1) have "mid = s"
      by (auto simp: affectedObjects_def bindC_Inr_iff getC_def returnC_def liftC_def
          split: option.splits if_splits)
    with ok show ?thesis by (simp add: moves_def)
  qed
  with relD [OF quiet_loop mid(2)] show ?thesis by (blast intro: moves_same_rpc)
qed

lemma message_moves:
  assumes env: "mqttImpl env = impl" and ok: "pending_ok s" and next_id: "INT_MIN < mNextRpcId s"
    and run: "onMessage env topic payload t c s = (Inr (), s')"
  shows "moves sent failed (mset (request_address s (MqttMessage topic payload t c))) s s'"
proof (cases "map_of (mCommands s) topic")
  case (Some cmd)
  with run have "same_rpc sent failed s s'"
    using relD [OF quiet_command [of env cmd payload]] same_rpc_order.refl [of sent failed s]
    by (auto simp: onMessage_def bindC_Inr_iff getC_def returnC_def split: if_splits)
  with Some ok show ?thesis
    by (cases t) (simp_all add: same_rpc_moves)
next
  case None
  show ?thesis
  proof (cases "mRpcMode s \<noteq> DISABLED \<and> mRpcRequestTopic s = topic \<and> t \<noteq> None \<and> t \<noteq> Some []")
    case True
    then obtain u where u: "t = Some u" "u \<noteq> []" by auto
    with True None run have "handleRpcRequest env payload (Some u) c s = (Inr (), s')"
      by (simp add: onMessage_def bindC_def getC_def)
    from request_moves [OF env ok next_id u(2) this] True None u show ?thesis by simp
  next
    case False
    with None run have "s' = s"
      by (auto simp: onMessage_def bindC_Inr_iff getC_def returnC_def handleRpcRequest_def
          split: if_splits option.splits)
    with False None ok show ?thesis by (cases t) (auto simp: moves_def)
  qed
qed

lemma step_moves:
  assumes env: "mqttImpl env = impl" and ok: "pending_ok s" and next_id: "INT_MIN < mNextRpcId s"
    and e: "e \<noteq> MqttDisconnected" and run: "client_step env e s = (Inr (), s')"
  shows "moves sent failed (mset (request_address s e)) s s'"
proof -
  have quiet: "moves sent failed {#} s s'" if "quiet c" "c s = (Inr (), s')" for c :: "('m, unit) client_op"
    using relD [OF that] ok by (rule same_rpc_moves)
  show ?thesis
    using run e
  proof (cases e)
    case (MqttMessage topic payload t c)
    with run message_moves [OF env ok next_id] show ?thesis by (simp add: client_step_def)
  next
    case (ValuesArrived net m)
    with run values_moves [OF env ok] show ?thesis by (simp add: client_step_def)
  next
    case (RpcFailed m)
    with run failure_moves [OF env ok] show ?thesis by (simp add: client_step_def)
  next
    case (OperationFailed net m)
    with run quiet [OF quiet_failed [OF env]] show ?thesis by (simp add: client_step_def)
  next
    case (NetworkChanged net isUp)
    with run quiet [OF quiet_network [OF env]] show ?thesis by (simp add: client_step_def)
  next
    case MqttConnected
    with run quiet [OF quiet_connect [OF env]] show ?thesis by (simp add: client_step_def)
  next
    case StartCalled
    with run quiet [OF quiet_start [OF env]] show ?thesis by (simp add: client_step_def)
  next
    case ShutdownCalled
    with run quiet [OF quiet_shutdown [OF env]] show ?thesis by (simp add: client_step_def)
  qed simp
qed

text \<open>A lost message stays lost.\<close>

lemma quiet_lost: "quiet c \<Longrightarrow> relC (lost_stays failed) c"
  by (auto simp: relC_def same_rpc_def lost_stays_def)

lemma respond_lost: "mqttImpl env = impl \<Longrightarrow> relC (lost_stays failed) (publishResponseC env t p c ps)"
proof (unfold relC_def, intro allI impI)
  fix s res s'
  assume env: "mqttImpl env = impl" and run: "publishResponseC env t p c ps s = (res, s')"
  then obtain m where "implPublishResponse impl t p c ps (mMqttImpl s) = (res, m)"
    and "s' = s\<lparr>mMqttImpl := m\<rparr>"
    by (auto simp: publishResponseC_def split: prod.splits)
  then show "lost_stays failed s s'"
    using respond_sends [of t p c ps "mMqttImpl s" _ m] respond_throws [of t p c ps "mMqttImpl s" _ m]
    by (cases res) (auto simp: lost_stays_def)
qed

lemma rpc_lost:
  assumes "mqttImpl env = impl"
  shows "relC (lost_stays failed) (publishRpcError env t c msg)"
    "relC (lost_stays failed) (publishRpcResponse env m)"
    "relC (lost_stays failed) (publishRpcErrorFor env m')"
    "relC (lost_stays failed) (handleRpcRequest env payload topic c)"
proof -
  have take: "relC (lost_stays failed) (takePending cid)" for cid
    by (simp add: relC_def takePending_def lost_stays_def)
  have accept: "relC (lost_stays failed) (acceptRpc env u c rq)" for u c rq
  proof (unfold relC_def, intro allI impI)
    fix s res s'
    assume "acceptRpc env u c rq s = (res, s')"
    with accept_result [of env u c rq s] show "lost_stays failed s s'" by (auto simp: lost_stays_def)
  qed
  show error: "relC (lost_stays failed) (publishRpcError env t c msg)" for t c msg
    unfolding publishRpcError_def by (intro lost_order.rel_rules respond_lost assms)
  show "relC (lost_stays failed) (publishRpcResponse env m)"
    unfolding publishRpcResponse_def
    by (intro lost_order.rel_bind take lost_order.rel_option)
      (auto split: sum.split cpp_exn.split intro!: lost_order.rel_rules error respond_lost assms)
  show "relC (lost_stays failed) (publishRpcErrorFor env m')"
    unfolding publishRpcErrorFor_def by (intro lost_order.rel_rules take error)
  show "relC (lost_stays failed) (handleRpcRequest env payload topic c)"
    unfolding handleRpcRequest_def by (intro lost_order.rel_rules accept error)
qed

lemma step_lost:
  assumes env: "mqttImpl env = impl"
  shows "relC (lost_stays failed) (client_step env e)"
proof (cases e)
  case (ValuesArrived net m)
  show ?thesis
    unfolding ValuesArrived client_step_def client_event.case processRegisterValues_def
      affectedObjects_def
    by (auto intro!: lost_order.rel_rules rpc_lost quiet_lost [OF quiet_values] env split: prod.split)
next
  case (MqttMessage topic payload t c)
  show ?thesis
    unfolding MqttMessage client_step_def client_event.case onMessage_def
    by (intro lost_order.rel_bind lost_order.rel_get lost_order.rel_option lost_order.rel_if
        lost_order.rel_return rpc_lost quiet_lost [OF quiet_command] env)
next
  case MqttDisconnected
  then show ?thesis
    by (auto simp: client_step_def relC_def onDisconnect_def modifyC_def lost_stays_def impl_keeps
        env Let_def split: conn_state.splits)
qed (simp_all add: client_step_def quiet_lost quiet_failed quiet_network quiet_connect quiet_start
    quiet_shutdown rpc_lost env)

text \<open>A disconnection forgets the waiting requests and leaves everything else of remote calls.\<close>

lemma disconnect_forgets:
  assumes "mqttImpl env = impl" and "client_step env MqttDisconnected s = (Inr (), s')"
  shows "rpc_view sent s' =
    (answered (sent (mMqttImpl s)), [], mNextRpcId s, mCommands s, mRpcMode s, mRpcRequestTopic s)"
  using assms(2)
  by (auto simp: client_step_def onDisconnect_def modifyC_def rpc_view_def impl_keeps assms(1) Let_def
      split: conn_state.splits)

lemma run_moves:
  assumes "client_reaches env s es t" and env: "mqttImpl env = impl" and "pending_ok s"
    and "INT_MIN + int (length es) \<le> mNextRpcId s"
    and "\<not> failed (mMqttImpl t)"
  shows "mCommands t = mCommands s \<and> mRpcMode t = mRpcMode s \<and>
    mRpcRequestTopic t = mRpcRequestTopic s \<and> pending_ok t \<and>
    mNextRpcId s - int (length es) \<le> mNextRpcId t \<and>
    rpc_account sent t + abandoned env s es = rpc_account sent s + requested s es"
  using assms
proof (induction rule: client_reaches.induct)
  case (reaches_start s)
  then show ?case by (simp add: requested_def)
next
  case (reaches_step s es t e u)
  have alive: "\<not> failed (mMqttImpl t)"
    using relD [OF step_lost [OF env] reaches_step.hyps(2)] reaches_step.prems(4)
    by (simp add: lost_stays_def)
  with reaches_step have IH: "mCommands t = mCommands s" "mRpcMode t = mRpcMode s"
      "mRpcRequestTopic t = mRpcRequestTopic s" "pending_ok t"
      "mNextRpcId s - int (length es) \<le> mNextRpcId t"
      "rpc_account sent t + abandoned env s es = rpc_account sent s + requested s es"
    by auto
  have next_id: "INT_MIN < mNextRpcId t" using IH(5) reaches_step.prems(3) by simp
  show ?case
  proof (cases "e = MqttDisconnected")
    case True
    from disconnect_forgets [OF env] reaches_step.hyps(2) True
    have "rpc_view sent u = (answered (sent (mMqttImpl t)), [], mNextRpcId t, mCommands t,
        mRpcMode t, mRpcRequestTopic t)" by simp
    with True IH show ?thesis
      by (simp add: rpc_view_def rpc_account_def waiting_def pending_ok_def ids_ok_def requested_def
          abandoned_snoc [OF reaches_step.hyps(1)] ac_simps)
  next
    case False
    from step_moves [OF env IH(4) next_id False reaches_step.hyps(2)] reaches_step.prems(4)
    have m: "mCommands u = mCommands t" "mRpcMode u = mRpcMode t"
      "mRpcRequestTopic u = mRpcRequestTopic t" "pending_ok u" "mNextRpcId t - 1 \<le> mNextRpcId u"
      "rpc_account sent u = rpc_account sent t + mset (request_address t e)"
      by (auto simp: moves_def)
    moreover have "request_address t e = request_address s e"
      using IH(1-3) by (cases "(s, e)" rule: request_address.cases) simp_all
    moreover have "requested s (es @ [e]) = requested s es + mset (request_address s e)"
      by (simp add: requested_def)
    moreover have "abandoned env s (es @ [e]) = abandoned env s es"
      using False by (simp add: abandoned_snoc [OF reaches_step.hyps(1)])
    ultimately show ?thesis using IH by (simp add: ac_simps)
  qed
qed

end

section \<open>What may be queued\<close>

text \<open>
  The messages a request document may lead to: a read if it has no value, else a write. Reads and
  writes through a converter have the register limits of libmodbus; a write of plain registers has
  none.
\<close>

definition asks_converter :: "(string \<times> json) list \<Rightarrow> bool" where
  "asks_converter doc \<longleftrightarrow>
     (case map_of doc ''converter'' of
        Some (JString s) \<Rightarrow> c_str s \<noteq> [] \<and> c_str s \<noteq> ''none''
      | _ \<Rightarrow> False)"

definition rpc_count_ok :: "'a modbus_msg_scheme \<Rightarrow> bool" where
  "rpc_count_ok m \<longleftrightarrow>
     1 \<le> mCount m \<and>
     mCount m \<le> (case mRegisterType m of COIL \<Rightarrow> 2000 | BIT \<Rightarrow> 2000 | HOLDING \<Rightarrow> 125 | INPUT \<Rightarrow> 125)"

fun rpc_allowed :: "rpc_mode \<Rightarrow> (string \<times> json) list \<Rightarrow> queue_item \<Rightarrow> bool" where
  "rpc_allowed mode doc (RegisterReadRequest m) =
     (isRpc m \<and> INT_MIN \<le> mCommandId m \<and> map_of doc ''value'' = None \<and> rpc_count_ok m)"
| "rpc_allowed mode doc (RegisterValues m) =
     (isRpc m \<and> INT_MIN \<le> mCommandId m \<and> map_of doc ''value'' \<noteq> None \<and> mode = READ_WRITE \<and>
      (mRegisterType m = COIL \<or> mRegisterType m = HOLDING) \<and>
      mCount m = int (length (mRegisters m)) \<and> (asks_converter doc \<longrightarrow> rpc_count_ok m))"
| "rpc_allowed mode doc _ = False"

lemma rpc_count_range: "rpc_count ty doc = Inr n \<Longrightarrow> 1 \<le> n \<and> n \<le> rpc_max_count ty"
  by (auto simp: rpc_count_def rpc_max_count_def split: option.splits if_splits)

lemma rpc_count_ok_iff:
  "rpc_count_ok m \<longleftrightarrow> 1 \<le> mCount m \<and> mCount m \<le> rpc_max_count (mRegisterType m)"
  by (cases "mRegisterType m") (simp_all add: rpc_count_ok_def rpc_max_count_def)

lemma asked_converter:
  "asks_converter doc \<Longrightarrow> rpc_converter env doc = Inr conv \<Longrightarrow> conv \<noteq> None"
  by (auto simp: asks_converter_def rpc_converter_def bindE_Inr_iff Let_def
      split: option.splits json.splits)

lemma values_limit:
  assumes "rpc_values doc ty conv = Inr (n, vs)" and "map_of doc ''value'' = None \<or> conv \<noteq> None"
  shows "1 \<le> n \<and> n \<le> rpc_max_count ty \<and> (map_of doc ''value'' \<noteq> None \<longrightarrow> int (length vs) = n)"
  using assms rpc_count_range [of ty doc]
  by (auto simp: rpc_values_def bindE_Inr_iff split: option.splits if_splits)

definition allowed_by ::
  "'m mqtt_client \<Rightarrow> (string \<times> json) list \<Rightarrow> rpc_request \<Rightarrow> bool" where
  "allowed_by s doc rq \<longleftrightarrow>
     hasNetwork (rqNetwork rq) (mModbusClients s) \<and>
     (rqIsWrite rq \<longleftrightarrow> map_of doc ''value'' \<noteq> None) \<and>
     (rqIsWrite rq \<longrightarrow> mRpcMode s = READ_WRITE \<and> (rqType rq = COIL \<or> rqType rq = HOLDING)) \<and>
     (\<not> rqIsWrite rq \<longrightarrow> 1 \<le> rqCount rq \<and> rqCount rq \<le> rpc_max_count (rqType rq)) \<and>
     (rqIsWrite rq \<and> asks_converter doc \<longrightarrow>
        1 \<le> int (length (rqValues rq)) \<and> int (length (rqValues rq)) \<le> rpc_max_count (rqType rq))"

lemma check_allowed:
  assumes "checkRpcRequest env s payload = Inr rq"
  shows "\<exists>doc. rpc_document env payload = Inr doc \<and> allowed_by s doc rq"
proof -
  obtain doc conv n vs where doc: "rpc_document env payload = Inr doc"
    and conv: "rpc_converter env doc = Inr conv"
    and vals: "rpc_values doc (rqType rq) conv = Inr (n, vs)"
    and rq: "rqIsWrite rq \<longleftrightarrow> map_of doc ''value'' \<noteq> None" "rqCount rq = n" "rqValues rq = vs"
    and net: "hasNetwork (rqNetwork rq) (mModbusClients s)"
    and mode: "rqIsWrite rq \<longrightarrow> mRpcMode s = READ_WRITE"
    and ty: "rqIsWrite rq \<longrightarrow> rqType rq \<noteq> BIT \<and> rqType rq \<noteq> INPUT"
    using assms unfolding checkRpcRequest_def
    by (auto simp: bindE_Inr_iff Let_def split: if_splits)
  have "rqIsWrite rq \<longrightarrow> rqType rq = COIL \<or> rqType rq = HOLDING"
    using ty by (cases "rqType rq") auto
  moreover have "asks_converter doc \<longrightarrow> conv \<noteq> None" using asked_converter [OF _ conv] by blast
  ultimately have "allowed_by s doc rq"
    unfolding allowed_by_def rq using net mode rq(1) values_limit [OF vals] by auto
  with doc show ?thesis by blast
qed

section \<open>Results\<close>

text \<open>
  C35: no remote call is answered twice or forgotten while the broker stays connected: for any
  sequence of events, the answers sent, the requests still waiting and the requests that waited when
  a connection was lost (the client forgets those without an answer) are together, with their
  response topics and correlation data, the requests that came in. The library refused no message
  in the run, and there were at most 2^31 events, so that the ids have not started again.
\<close>

theorem rpc_requests_answered:
  assumes "mqttImpl env = mosquitto_impl lib" and "mPendingRpc s = []" and "mNextRpcId s = 0"
    and "client_reaches env s es t" and "length es \<le> 2 ^ 31" and "\<not> mosq_failed (mMqttImpl t)"
  shows "answered (mosq_sent (mMqttImpl t)) + waiting t + abandoned env s es =
      answered (mosq_sent (mMqttImpl s)) + requested s es \<and>
    (MqttDisconnected \<notin> set es \<longrightarrow> abandoned env s es = {#})"
proof -
  have "pending_ok s" using assms(2) by (simp add: pending_ok_def ids_ok_def)
  moreover have "INT_MIN + int (length es) \<le> mNextRpcId s"
    using assms(3,5) by (simp add: INT_MIN_def)
  ultimately have "rpc_account mosq_sent t + abandoned env s es =
      rpc_account mosq_sent s + requested s es"
    using mosq.run_moves [OF assms(4,1) _ _ assms(6)] by blast
  with abandoned_connected [of es env s] show ?thesis
    using assms(2) by (simp add: rpc_account_def waiting_def)
qed

definition demo_request :: client_event where
  "demo_request = MqttMessage ''gw/rpc/modbus_request'' ''{}'' (Some ''reply'') (Some ''42'')"

definition demo_rpc_env :: "mosq_state mqtt_env" where
  "demo_rpc_env = demo_env\<lparr>parseJson := (\<lambda>_. Inr (JObject
     [(''network'', JString ''net''), (''slave'', JInt 1), (''register'', JString ''0x10''),
      (''count'', JInt 2)]))\<rparr>"

definition demo_requests :: "client_event list" where
  "demo_requests = [demo_request, MqttDisconnected]"

theorem rpc_requests_answered_witness:
  "let t = fold (\<lambda>e s. snd (client_step demo_rpc_env e s)) demo_requests demo_client
   in \<not> mosq_failed (mMqttImpl t) \<and> requested demo_client demo_requests = {#(''reply'', ''42'')#} \<and>
      waiting t = {#} \<and> abandoned demo_rpc_env demo_client demo_requests = {#(''reply'', ''42'')#} \<and>
      answered (mosq_sent (mMqttImpl t)) + waiting t +
        abandoned demo_rpc_env demo_client demo_requests = {#(''reply'', ''42'')#}"
proof -
  define s where "s = snd (client_step demo_rpc_env demo_request demo_client)"
  define t where "t = snd (client_step demo_rpc_env MqttDisconnected s)"
  have "fst (client_step demo_rpc_env demo_request demo_client) = Inr ()"
    "fst (client_step demo_rpc_env MqttDisconnected s) = Inr ()" unfolding s_def by code_simp+
  then have "client_step demo_rpc_env demo_request demo_client = (Inr (), s)"
    "client_step demo_rpc_env MqttDisconnected s = (Inr (), t)"
    by (simp_all add: s_def t_def prod_eq_iff)
  from reaches_step [OF reaches_one [OF this(1)] this(2)]
  have run: "client_reaches demo_rpc_env demo_client demo_requests t" by (simp add: demo_requests_def)
  have lost: "\<not> mosq_failed (mMqttImpl t)" unfolding t_def s_def by code_simp
  have "map (\<lambda>e. (rpcResponseTopic (snd e), rpcCorrelationData (snd e))) (mPendingRpc s) =
      [(''reply'', Some ''42'')]" and none: "mPendingRpc t = []"
    unfolding t_def s_def by (code_simp, simp add: client_step_def onDisconnect_def modifyC_def
        Let_def split: conn_state.split)
  then have "map pending_address (mPendingRpc s) = [(''reply'', ''42'')]"
    by (auto simp: pending_address_def c_str_def correlation_bytes_def)
  with none have lists: "waiting t = {#}"
    "abandoned demo_rpc_env demo_client demo_requests = {#(''reply'', ''42'')#}"
    by (simp_all add: waiting_def demo_requests_def s_def, simp add: demo_request_def)
  have req: "requested demo_client demo_requests = {#(''reply'', ''42'')#}"
    by (simp add: requested_def demo_requests_def demo_request_def demo_client_def c_str_def
        correlation_bytes_def)
  have "mqttImpl demo_rpc_env = mosquitto_impl demo_mosq_lib" "mPendingRpc demo_client = []"
    "mNextRpcId demo_client = 0" "length demo_requests \<le> 2 ^ 31"
    "answered (mosq_sent (mMqttImpl demo_client)) = {#}"
    by (simp_all add: demo_rpc_env_def demo_env_def demo_client_def demo_requests_def mosq_sent_def
        answered_def)
  with rpc_requests_answered [OF this(1-3) run this(4) lost] lost req lists show ?thesis
    by (simp add: t_def s_def demo_requests_def Let_def del: abandoned.simps)
qed

text \<open>
  C36: whatever a remote request contains, it queues nothing or one message for a known network, and
  that message is one the mode and the request allow: without a value a read, of at least one
  register and at most 2000 coils or bits or 125 registers; with a value a write, only in read-write
  mode and only of coils or holding registers, and within the same limits if the request names a
  converter (the code sets no limit for a write of plain registers). Its command id is negative and
  an \<open>int\<close>, so that it is told from the commands of the configuration.
\<close>

theorem rpc_requests_authorised:
  assumes "handleRpcRequest env payload t c s = (res, s')"
    and "INT_MIN \<le> mNextRpcId s" and "mNextRpcId s \<le> 0" and "mqttImpl env = mosquitto_impl lib"
  shows "mModbusClients s' = mModbusClients s \<or>
    (\<exists>doc net item. rpc_document env payload = Inr doc \<and> hasNetwork net (mModbusClients s) \<and>
       rpc_allowed (mRpcMode s) doc item \<and>
       mModbusClients s' = enqueue_first net (MessageItem item) (mModbusClients s))"
proof (cases "t = None \<or> t = Some []")
  case True
  with assms(1) have "s' = s" by (auto simp: handleRpcRequest_def returnC_def)
  then show ?thesis by simp
next
  case False
  then obtain u where u: "t = Some u" "u \<noteq> []" by auto
  show ?thesis
    using assms(1) [unfolded u(1)] u(2)
  proof (cases rule: request_cases)
    case (refused e)
    with mosq.error_answers [OF assms(4)] show ?thesis by (fastforce simp: answers_def)
  next
    case (accepted rq)
    let ?id = "next_rpc_id (mNextRpcId s)"
    have "?id < 0" "INT_MIN \<le> ?id"
      using assms(2,3) by (auto simp: next_rpc_id_def INT_MIN_def)
    moreover obtain doc where doc: "rpc_document env payload = Inr doc" "allowed_by s doc rq"
      using check_allowed [OF accepted(1)] by blast
    ultimately have "rpc_allowed (mRpcMode s) doc (rpc_item ?id tm rq)" for tm
      by (cases "rqIsWrite rq")
        (auto simp: allowed_by_def rpc_item_def new_register_values_def new_msg_def isRpc_def
          rpc_count_ok_iff)
    moreover obtain tm where "mModbusClients s' =
        enqueue_first (rqNetwork rq) (MessageItem (rpc_item ?id tm rq)) (mModbusClients s)"
      using accepted(2) accept_result [of env u c rq s] by auto
    ultimately show ?thesis using doc by (auto simp: allowed_by_def)
  qed simp
qed

theorem rpc_requests_authorised_witness:
  "let s' = snd (handleRpcRequest demo_rpc_env ''{}'' (Some ''reply'') None demo_client)
   in map (length \<circ> mToModbusQueue) (mModbusClients s') = [1] \<and>
      (\<exists>doc net item. rpc_document demo_rpc_env ''{}'' = Inr doc \<and>
         hasNetwork net (mModbusClients demo_client) \<and> rpc_allowed READ doc item \<and>
         mModbusClients s' = enqueue_first net (MessageItem item) (mModbusClients demo_client))"
proof -
  define s' where "s' = snd (handleRpcRequest demo_rpc_env ''{}'' (Some ''reply'') None demo_client)"
  have queued: "map (length \<circ> mToModbusQueue) (mModbusClients s') = [1]"
    unfolding s'_def by code_simp
  have run: "handleRpcRequest demo_rpc_env ''{}'' (Some ''reply'') None demo_client =
      (fst (handleRpcRequest demo_rpc_env ''{}'' (Some ''reply'') None demo_client), s')"
    by (simp add: s'_def)
  have "mqttImpl demo_rpc_env = mosquitto_impl demo_mosq_lib" "mNextRpcId demo_client = 0"
    "mRpcMode demo_client = READ"
    "map (length \<circ> mToModbusQueue) (mModbusClients demo_client) = [0]"
    by (simp_all add: demo_rpc_env_def demo_env_def demo_client_def)
  with rpc_requests_authorised [OF run _ _ this(1)] queued show ?thesis
    by (auto simp: s'_def [symmetric] Let_def INT_MIN_def)
qed

end
