(* ===== verification/Converter_Args.thy ===== *)
theory Converter_Args
  imports Mqtt_Value "HOL-Library.List_Lexorder" "HOL-Library.Char_ord"
begin

text \<open>
  \<open>libmodmqttconv/convargs.hpp\<close>, the arguments of a converter, and \<open>conv_name_parser.cpp\<close>, which
  reads \<open>plugin.converter(value, name=value)\<close>. \<open>validateArgName\<close> and \<open>getEscapedChar\<close> return
  their argument and are left out.
\<close>

section \<open>Arguments and their values\<close>

datatype arg_type = ARG_INVALID | ARG_INT | ARG_STRING | ARG_DOUBLE | ARG_BOOL

record converter_arg =
  argName :: string
  argType :: arg_type
  mDefaultValue :: string

definition string_arg :: "string \<Rightarrow> arg_type \<Rightarrow> string \<Rightarrow> converter_arg" where
  "string_arg name ty defvalue = \<lparr>argName = name, argType = ty, mDefaultValue = defvalue\<rparr>"

definition int_arg :: "string \<Rightarrow> arg_type \<Rightarrow> int \<Rightarrow> converter_arg" where
  "int_arg name ty defvalue = string_arg name ty (to_string defvalue)"

text \<open>\<open>false\<close> as a default is promoted to the \<open>int\<close> 0.\<close>

abbreviation flag_arg :: "string \<Rightarrow> converter_arg" where
  "flag_arg name \<equiv> int_arg name ARG_BOOL 0"

record arg_value =
  avName :: string
  avType :: arg_type
  avValue :: string

definition as_str :: "arg_value \<Rightarrow> string" where
  "as_str a = avValue a"

text \<open>\<open>mValue.rfind("0x") == 0\<close>: the last occurrence is the first character.\<close>

definition only_prefixed :: "string \<Rightarrow> string \<Rightarrow> bool" where
  "only_prefixed p s \<longleftrightarrow> prefix p s \<and> \<not> sublist p (drop 1 s)"

text \<open>\<open>ConverterTools::toInt\<close>\<close>

definition conv_toInt :: "nat \<Rightarrow> string \<Rightarrow> cpp_exn + int" where
  "conv_toInt base arg =
     bindE (stoi base arg) (\<lambda>(val, pos).
       if pos \<noteq> length arg
       then Inl (InvalidArgument (arg @ '' has unparsable chars starting from idx='' @
              to_string (int pos) @ '' when converting to int''))
       else Inr val)"

text \<open>The handlers of \<open>std::exception\<close>, which rethrow with the name of the argument.\<close>

definition rethrow_arg :: "arg_value \<Rightarrow> string \<Rightarrow> cpp_exn + 'a \<Rightarrow> cpp_exn + 'a" where
  "rethrow_arg a kind r =
     (case r of
        Inl e \<Rightarrow> Inl (ConvException (''Invalid'' @ avName a @ '' '' @ kind @ '' value:'' @ exn_what e))
      | Inr v \<Rightarrow> Inr v)"

definition arg_as_int :: "arg_value \<Rightarrow> cpp_exn + int" where
  "arg_as_int a =
     rethrow_arg a ''int''
       (conv_toInt (if only_prefixed ''0x'' (avValue a) then 16 else 10) (avValue a))"

text \<open>\<open>what()\<close> of the range error differs from that of the number parser.\<close>

definition arg_as_uint16 :: "arg_value \<Rightarrow> cpp_exn + u16" where
  "arg_as_uint16 a =
     rethrow_arg a ''uint16''
       (bindE (conv_toInt 16 (avValue a)) (\<lambda>ret.
          if ret < 0 \<or> ret > 0xffff then Inl (InvalidArgument ''value out of range'')
          else Inr (of_int ret)))"

definition arg_as_bool :: "arg_value \<Rightarrow> cpp_exn + bool" where
  "arg_as_bool a =
     (if avValue a = ''true'' \<or> avValue a = ''TRUE'' \<or> avValue a = ''1'' then Inr True
      else if avValue a = ''false'' \<or> avValue a = ''FALSE'' \<or> avValue a = ''0'' then Inr False
      else Inl (ConvException (avName a @ '' value cannot be converted to bool'')))"

type_synonym arg_values = "(string, arg_value) omap"

definition new_arg_value :: "converter_arg \<Rightarrow> arg_value" where
  "new_arg_value a = \<lparr>avName = argName a, avType = argType a, avValue = mDefaultValue a\<rparr>"

definition new_ConverterArgValues :: "converter_arg list \<Rightarrow> arg_values" where
  "new_ConverterArgValues args = fold (\<lambda>a m. omap_insert (argName a) (new_arg_value a) m) args []"

definition getArgValue :: "string \<Rightarrow> arg_values \<Rightarrow> cpp_exn + arg_value" where
  "getArgValue name vs =
     (case map_of vs name of
        None \<Rightarrow> Inl (InvalidArgument (''no value for '' @ name))
      | Some a \<Rightarrow> Inr a)"

definition setArgValue :: "string \<Rightarrow> string \<Rightarrow> arg_values \<Rightarrow> cpp_exn + arg_values" where
  "setArgValue name val vs =
     (case map_of vs name of
        None \<Rightarrow> Inl (InvalidArgument (''Wrong parameter name '' @ name))
      | Some a \<Rightarrow> Inr (omap_put name (a\<lparr>avValue := val\<rparr>) vs))"

definition arg_count :: "arg_values \<Rightarrow> int" where
  "arg_count vs = int (length vs)"

section \<open>The parser of arguments\<close>

datatype arg_state = ARG_SCAN | ARGVALUE | ARG_ESCAPE

record arg_parser =
  mUseArgOrder :: bool
  argStates :: "arg_state list"
  mArgName :: string
  mArgValue :: string
  mCurrentPosArg :: "converter_arg list"
  mProcessedArgs :: "string list"
  strDelimiter :: char
  parsedValues :: arg_values

definition new_arg_parser :: "converter_arg list \<Rightarrow> arg_parser" where
  "new_arg_parser args =
     \<lparr>mUseArgOrder = True, argStates = [ARG_SCAN], mArgName = [], mArgValue = [],
      mCurrentPosArg = args, mProcessedArgs = [], strDelimiter = CHR 0x00,
      parsedValues = new_ConverterArgValues args\<rparr>"

text \<open>
  The name an argument is for: its own, or that of the next position. \<open>mArgs.size()\<close> is \<open>n\<close>.
\<close>

definition argument_name :: "nat \<Rightarrow> arg_parser \<Rightarrow> cpp_exn + arg_parser" where
  "argument_name n p =
     (if mArgName p \<noteq> [] then Inr (p\<lparr>mUseArgOrder := False\<rparr>)
      else if \<not> mUseArgOrder p
      then Inl (ConvNameParserException
             (''Cannot use positional argument after named argument '' @ to_string (int n)))
      else
        (case mCurrentPosArg p of
           [] \<Rightarrow> Inl (ConvNameParserException
                    (''Too many arguments provided, need '' @ to_string (int n)))
         | a # as \<Rightarrow> Inr (p\<lparr>mArgName := argName a, mCurrentPosArg := as\<rparr>)))"

definition store_argument :: "arg_parser \<Rightarrow> cpp_exn + arg_parser" where
  "store_argument p =
     (if mArgName p \<in> set (mProcessedArgs p)
      then Inl (ConvNameParserException (mArgName p @ '' already set''))
      else
        bindE (setArgValue (mArgName p) (mArgValue p) (parsedValues p)) (\<lambda>vs.
          Inr (p\<lparr>parsedValues := vs, mProcessedArgs := mProcessedArgs p @ [mArgName p],
                 mArgName := [], mArgValue := []\<rparr>)))"

text \<open>The handler adds \<open>mArgName\<close>, which is still empty where no name was found.\<close>

definition parser_setArgValue :: "nat \<Rightarrow> arg_parser \<Rightarrow> cpp_exn + arg_parser" where
  "parser_setArgValue n p =
     (let failed = (\<lambda>name e. Inl (ConvNameParserException
            (''Error setting argument '' @ name @ '':'' @ exn_what e)))
      in case argument_name n p of
           Inl e \<Rightarrow> failed (mArgName p) e
         | Inr q \<Rightarrow>
             (case store_argument q of Inl e \<Rightarrow> failed (mArgName q) e | Inr r \<Rightarrow> Inr r))"

definition add_char :: "char \<Rightarrow> arg_parser \<Rightarrow> arg_parser" where
  "add_char c p = p\<lparr>mArgValue := mArgValue p @ [c]\<rparr>"

definition push_state :: "arg_state \<Rightarrow> arg_parser \<Rightarrow> arg_parser" where
  "push_state st p = p\<lparr>argStates := st # argStates p\<rparr>"

definition pop_state :: "arg_parser \<Rightarrow> arg_parser" where
  "pop_state p = p\<lparr>argStates := tl (argStates p)\<rparr>"

abbreviation is_quote :: "char \<Rightarrow> bool" where
  "is_quote c \<equiv> c = CHR 0x22 \<or> c = CHR 0x27"

definition scan_equals :: "arg_parser \<Rightarrow> cpp_exn + arg_parser" where
  "scan_equals p =
     (let next = to_string (arg_count (parsedValues p) + 1)
      in if mArgValue p = []
         then Inl (ConvNameParserException (''Missing name for argument '' @ next))
         else if mArgName p \<noteq> []
         then Inl (ConvNameParserException
                (''Name for argument '' @ next @ '' already set to '' @ mArgName p))
         else Inr (p\<lparr>mArgName := mArgValue p, mArgValue := []\<rparr>))"

definition scan_char :: "nat \<Rightarrow> char \<Rightarrow> arg_parser \<Rightarrow> cpp_exn + arg_parser" where
  "scan_char n c p =
     (if c = CHR 0x5C then Inr (push_state ARG_ESCAPE p)
      else if c = CHR ''='' then scan_equals p
      else if c = CHR '','' then
        (if mArgValue p = []
         then Inl (ConvNameParserException
                (''Argument '' @ to_string (arg_count (parsedValues p) + 1) @ '' is empty''))
         else parser_setArgValue n p)
      else if is_quote c then Inr ((push_state ARGVALUE p)\<lparr>strDelimiter := c\<rparr>)
      else if c = CHR '' '' then Inr p
      else Inr (add_char c p))"

definition quoted_char :: "char \<Rightarrow> arg_parser \<Rightarrow> cpp_exn + arg_parser" where
  "quoted_char c p =
     (if c = CHR ''='' \<and> strDelimiter p = CHR 0x00
      then Inl (ConvNameParserException (''Name for argument '' @
             to_string (arg_count (parsedValues p) + 1) @ '' cannot be quoted''))
      else if is_quote c \<and> strDelimiter p = c
      then Inr ((pop_state p)\<lparr>strDelimiter := CHR 0x00\<rparr>)
      else Inr (add_char c p))"

definition parse_char :: "nat \<Rightarrow> char \<Rightarrow> arg_parser \<Rightarrow> cpp_exn + arg_parser" where
  "parse_char n c p =
     (case argStates p of
        ARG_SCAN # _ \<Rightarrow> scan_char n c p
      | ARGVALUE # _ \<Rightarrow> quoted_char c p
      | ARG_ESCAPE # _ \<Rightarrow> Inr (pop_state (add_char c p))
      | [] \<Rightarrow> Inl Undefined)"

fun parse_chars :: "nat \<Rightarrow> string \<Rightarrow> arg_parser \<Rightarrow> cpp_exn + arg_parser" where
  "parse_chars n [] p = Inr p"
| "parse_chars n (c # cs) p = bindE (parse_char n c p) (parse_chars n cs)"

definition parse_end :: "nat \<Rightarrow> arg_parser \<Rightarrow> cpp_exn + arg_values" where
  "parse_end n p =
     (case argStates p of
        ARG_SCAN # _ \<Rightarrow>
          if mArgValue p \<noteq> [] then bindE (parser_setArgValue n p) (\<lambda>p. Inr (parsedValues p))
          else Inr (parsedValues p)
      | ARGVALUE # _ \<Rightarrow>
          Inl (ConvNameParserException (''Argument '' @ to_string (arg_count (parsedValues p)) @
                 '' is an unterminated string''))
      | ARG_ESCAPE # _ \<Rightarrow>
          Inl (ConvNameParserException (''Argument '' @ to_string (arg_count (parsedValues p)) @
                 '' has an invalid escape sequence''))
      | [] \<Rightarrow> Inl Undefined)"

definition parseArgs :: "converter_arg list \<Rightarrow> string \<Rightarrow> cpp_exn + arg_values" where
  "parseArgs args arguments =
     bindE (parse_chars (length args) arguments (new_arg_parser args)) (parse_end (length args))"

section \<open>The parser of converter names\<close>

record converter_spec =
  specPlugin :: string
  specConverter :: string
  specArguments :: string

definition is_conv_name_char :: "char \<Rightarrow> bool" where
  "is_conv_name_char c \<longleftrightarrow> is_digit 10 c \<or> (97 \<le> (of_char c :: nat) \<and> (of_char c :: nat) \<le> 122)"

text \<open>
  The groups of \<open>([a-z0-9]+)\.([a-z0-9]+)\s?\((.*)\)\<close> on the whole string; a dot stands for any
  character but the ends of lines.
\<close>

definition match_converter :: "string \<Rightarrow> (string \<times> string \<times> string) option" where
  "match_converter s =
     (let plugin = takeWhile is_conv_name_char s;
          s = dropWhile is_conv_name_char s;
          name = takeWhile is_conv_name_char (drop 1 s);
          r = dropWhile is_conv_name_char (drop 1 s);
          r = (if r \<noteq> [] \<and> isspace (hd r) then tl r else r);
          body = butlast (drop 1 r)
      in if plugin \<noteq> [] \<and> s \<noteq> [] \<and> hd s = CHR ''.'' \<and> name \<noteq> [] \<and>
            length r \<ge> 2 \<and> hd r = CHR ''('' \<and> last r = CHR '')'' \<and>
            list_all (\<lambda>c. c \<noteq> CHR 0x0A \<and> c \<noteq> CHR 0x0D) body
         then Some (plugin, name, body) else None)"

definition converter_help :: string where
  "converter_help =
     ''Supply converter spec in form: plugin.converter(value1, param=value2, '' @
     [CHR 0xE2, CHR 0x80, CHR 0xA6] @ '')''"

definition parse_converter_name :: "string \<Rightarrow> cpp_exn + converter_spec" where
  "parse_converter_name spec =
     (case match_converter (c_str (trim spec)) of
        None \<Rightarrow> Inl (ConvNameParserException converter_help)
      | Some (p, c, a) \<Rightarrow> Inr \<lparr>specPlugin = p, specConverter = c, specArguments = a\<rparr>)"

section \<open>Well-formed tables of values\<close>

lemma omap_ok_new_values: "omap_ok (new_ConverterArgValues args)"
proof -
  have "omap_ok m \<Longrightarrow> omap_ok (fold (\<lambda>a m. omap_insert (argName a) (new_arg_value a) m) args m)" for m
    by (induction args arbitrary: m) (simp_all add: omap_ok_insert)
  then show ?thesis by (simp add: new_ConverterArgValues_def)
qed

definition value_of :: "arg_values \<Rightarrow> string \<Rightarrow> string option" where
  "value_of vs k = map_option avValue (map_of vs k)"

lemma value_of_new_values:
  "value_of (new_ConverterArgValues args) = map_of (map (\<lambda>a. (argName a, mDefaultValue a)) args)"
proof -
  have "omap_ok m \<Longrightarrow>
      value_of (fold (\<lambda>a m. omap_insert (argName a) (new_arg_value a) m) args m) =
      map_of (map (\<lambda>a. (argName a, mDefaultValue a)) args) ++ value_of m" for m
  proof (induction args arbitrary: m)
    case (Cons a args)
    have "value_of (omap_insert (argName a) (new_arg_value a) m) =
        [argName a \<mapsto> mDefaultValue a] ++ value_of m"
      using Cons.prems
      by (auto simp: fun_eq_iff value_of_def map_of_omap_insert map_add_def new_arg_value_def
          split: option.splits)
    with Cons show ?case by (auto simp: omap_ok_insert map_add_def fun_eq_iff split: option.splits)
  qed simp
  from this [of "[]"] show ?thesis
    by (simp add: new_ConverterArgValues_def value_of_def map_add_def fun_eq_iff)
qed

text \<open>The values after arguments were set, in order.\<close>

definition assign :: "(string \<times> string) list \<Rightarrow> arg_values \<Rightarrow> arg_values" where
  "assign bs vs =
     fold (\<lambda>(k, v) vs. case map_of vs k of
             None \<Rightarrow> vs | Some a \<Rightarrow> omap_put k (a\<lparr>avValue := v\<rparr>) vs) bs vs"

lemma value_of_assign:
  "omap_ok vs \<Longrightarrow> distinct (map fst bs) \<Longrightarrow> fst ` set bs \<subseteq> dom (map_of vs) \<Longrightarrow>
   value_of (assign bs vs) = value_of vs ++ map_of bs"
proof (induction bs arbitrary: vs)
  case (Cons b bs)
  obtain k v where b: "b = (k, v)" by fastforce
  obtain a where a: "map_of vs k = Some a" using Cons.prems b by auto
  let ?vs = "omap_put k (a\<lparr>avValue := v\<rparr>) vs"
  have "value_of (assign bs ?vs) = value_of ?vs ++ map_of bs"
    using Cons.prems b by (intro Cons.IH) (auto simp: map_of_omap_put)
  moreover have "value_of ?vs = (value_of vs)(k \<mapsto> v)"
    using Cons.prems by (simp add: value_of_def map_of_omap_put fun_eq_iff)
  moreover have "k \<notin> dom (map_of bs)" using Cons.prems b by (auto simp: dom_map_of_conv_image_fst)
  ultimately show ?case
    using a b by (auto simp: assign_def fun_eq_iff map_add_def split: option.splits)
qed (simp add: assign_def)

section \<open>What a text of arguments means\<close>

text \<open>
  How a text spells a value: blanks outside quotes do not count, a backslash takes the next
  character as it is, and everything between two equal quotes counts.
\<close>

definition arg_special :: "char \<Rightarrow> bool" where
  "arg_special c \<longleftrightarrow> c = CHR 0x5C \<or> c = CHR ''='' \<or> c = CHR '','' \<or> is_quote c \<or> c = CHR '' ''"

inductive spells :: "string \<Rightarrow> string \<Rightarrow> bool" where
  spells_end: "spells [] []"
| spells_plain: "\<not> arg_special c \<Longrightarrow> spells s v \<Longrightarrow> spells (c # s) (c # v)"
| spells_blank: "spells s v \<Longrightarrow> spells (CHR '' '' # s) v"
| spells_escape: "spells s v \<Longrightarrow> spells (CHR 0x5C # c # s) (c # v)"
| spells_quoted: "is_quote q \<Longrightarrow> q \<notin> set t \<Longrightarrow> spells s v \<Longrightarrow> spells (q # t @ q # s) (t @ v)"

datatype arg_item =
    Positional string string
  | Named string string string string

text \<open>The text of an argument; a named one has the texts of its name and of its value.\<close>

fun item_text :: "arg_item \<Rightarrow> string" where
  "item_text (Positional t v) = t"
| "item_text (Named nt name t v) = nt @ CHR ''='' # t"

fun arg_item_ok :: "arg_item \<Rightarrow> bool" where
  "arg_item_ok (Positional t v) = (spells t v \<and> v \<noteq> [])"
| "arg_item_ok (Named nt name t v) = (spells nt name \<and> name \<noteq> [] \<and> spells t v \<and> v \<noteq> [])"

text \<open>The values the arguments give to the declared names; positions end at the first name.\<close>

fun bindings :: "converter_arg list \<Rightarrow> arg_item list \<Rightarrow> (string \<times> string) list option" where
  "bindings as [] = Some []"
| "bindings [] (Positional t v # is) = None"
| "bindings (a # as) (Positional t v # is) = map_option ((#) (argName a, v)) (bindings as is)"
| "bindings as (Named nt name t v # is) = map_option ((#) (name, v)) (bindings [] is)"

definition at_start :: "arg_parser \<Rightarrow> bool" where
  "at_start p \<longleftrightarrow> argStates p = [ARG_SCAN] \<and> strDelimiter p = CHR 0x00 \<and> mArgName p = [] \<and>
     mArgValue p = []"

definition positions :: "arg_parser \<Rightarrow> converter_arg list" where
  "positions p = (if mUseArgOrder p then mCurrentPosArg p else [])"

lemmas char_step_defs =
  parse_char_def scan_char_def quoted_char_def add_char_def push_state_def pop_state_def

lemma parse_chars_append:
  "parse_chars n (s @ t) p = bindE (parse_chars n s p) (parse_chars n t)"
proof (induction s arbitrary: p)
  case (Cons c s)
  then show ?case by (cases "parse_char n c p") simp_all
qed simp

lemma parse_quoted:
  "q \<notin> set t \<Longrightarrow> is_quote q \<Longrightarrow> argStates p = ARGVALUE # st \<Longrightarrow> strDelimiter p = q \<Longrightarrow>
   parse_chars n (t @ q # r) p =
   parse_chars n r (p\<lparr>argStates := st, mArgValue := mArgValue p @ t, strDelimiter := CHR 0x00\<rparr>)"
  by (induction t arbitrary: p) (auto simp: char_step_defs)

lemma parse_spelled:
  "spells s v \<Longrightarrow> argStates p = [ARG_SCAN] \<Longrightarrow> strDelimiter p = CHR 0x00 \<Longrightarrow>
   parse_chars n s p = Inr (p\<lparr>mArgValue := mArgValue p @ v\<rparr>)"
proof (induction arbitrary: p rule: spells.induct)
  case (spells_quoted q t s v)
  let ?p = "p\<lparr>argStates := [ARGVALUE, ARG_SCAN], strDelimiter := q\<rparr>"
  have "parse_chars n (q # t @ q # s) p = parse_chars n (t @ q # s) ?p"
    using spells_quoted.hyps(1) spells_quoted.prems by (auto simp: char_step_defs)
  also have "\<dots> = parse_chars n s (p\<lparr>argStates := [ARG_SCAN], mArgValue := mArgValue p @ t,
      strDelimiter := CHR 0x00\<rparr>)"
    using spells_quoted.hyps by (subst parse_quoted [where st = "[ARG_SCAN]"]) auto
  finally show ?case using spells_quoted.IH spells_quoted.prems by simp
qed (auto simp: char_step_defs arg_special_def)

lemma parse_named:
  assumes "at_start p" and "spells nt name" and "name \<noteq> []" and "spells t v"
  shows "parse_chars n (nt @ CHR ''='' # t) p = Inr (p\<lparr>mArgName := name, mArgValue := v\<rparr>)"
proof -
  let ?p = "p\<lparr>mArgValue := name\<rparr>"
  have "parse_chars n nt p = Inr ?p"
    using parse_spelled [OF assms(2)] assms(1) by (simp add: at_start_def)
  moreover have "parse_char n (CHR ''='') ?p = Inr (p\<lparr>mArgName := name, mArgValue := []\<rparr>)"
    using assms(1,3) by (simp add: char_step_defs scan_equals_def at_start_def)
  ultimately show ?thesis
    using parse_spelled [OF assms(4)] assms(1) by (simp add: parse_chars_append at_start_def)
qed

text \<open>The parser after an argument was stored.\<close>

definition stored :: "string \<Rightarrow> string \<Rightarrow> arg_parser \<Rightarrow> arg_parser" where
  "stored k v p =
     p\<lparr>mProcessedArgs := mProcessedArgs p @ [k], parsedValues := assign [(k, v)] (parsedValues p)\<rparr>"

fun after_item :: "arg_item \<Rightarrow> arg_parser \<Rightarrow> arg_parser" where
  "after_item (Positional t v) p =
     stored (argName (hd (mCurrentPosArg p))) v (p\<lparr>mCurrentPosArg := tl (mCurrentPosArg p)\<rparr>)"
| "after_item (Named nt name t v) p = stored name v (p\<lparr>mUseArgOrder := False\<rparr>)"

lemma store_argument_ok:
  assumes "k \<notin> set (mProcessedArgs p)" and "k \<in> dom (map_of (parsedValues p))" and "at_start p"
  shows "store_argument (p\<lparr>mArgName := k, mArgValue := v\<rparr>) = Inr (stored k v p)"
  using assms
  by (cases p) (auto simp: store_argument_def setArgValue_def stored_def assign_def at_start_def)

lemma parse_item:
  assumes p: "at_start p" and ok: "arg_item_ok i" and b: "bindings (positions p) [i] = Some [(k, v)]"
    and k: "k \<noteq> []" "k \<notin> set (mProcessedArgs p)" "k \<in> dom (map_of (parsedValues p))"
  obtains q where "parse_chars n (item_text i) p = Inr q" "argStates q = [ARG_SCAN]"
    "mArgValue q \<noteq> []" "parser_setArgValue n q = Inr (after_item i p)"
proof (cases i)
  case (Positional t w)
  then obtain a as where a: "mUseArgOrder p" "mCurrentPosArg p = a # as" "argName a = k" "w = v"
    using b by (auto simp: positions_def split: if_splits elim!: bindings.elims)
  let ?p = "p\<lparr>mCurrentPosArg := as\<rparr>"
  have "store_argument (?p\<lparr>mArgName := k, mArgValue := v\<rparr>) = Inr (stored k v ?p)"
    using k p by (intro store_argument_ok) (simp_all add: at_start_def)
  moreover have "argument_name n (p\<lparr>mArgValue := v\<rparr>) = Inr (?p\<lparr>mArgName := k, mArgValue := v\<rparr>)"
    using a p by (cases p) (simp add: argument_name_def at_start_def)
  ultimately have "parser_setArgValue n (p\<lparr>mArgValue := v\<rparr>) = Inr (after_item i p)"
    using a Positional by (simp add: parser_setArgValue_def)
  moreover have "parse_chars n (item_text i) p = Inr (p\<lparr>mArgValue := v\<rparr>)"
    using parse_spelled [of t v p n] p ok a Positional by (simp add: at_start_def)
  ultimately show ?thesis using that p ok a Positional by (simp add: at_start_def)
next
  case (Named nt name t w)
  then have w: "name = k" "w = v" using b by auto
  let ?p = "p\<lparr>mUseArgOrder := False\<rparr>"
  have "store_argument (?p\<lparr>mArgName := k, mArgValue := v\<rparr>) = Inr (stored k v ?p)"
    using k p by (intro store_argument_ok) (simp_all add: at_start_def)
  moreover have "argument_name n (p\<lparr>mArgName := k, mArgValue := v\<rparr>) =
      Inr (?p\<lparr>mArgName := k, mArgValue := v\<rparr>)"
    using k by (cases p) (simp add: argument_name_def)
  ultimately have "parser_setArgValue n (p\<lparr>mArgName := k, mArgValue := v\<rparr>) = Inr (after_item i p)"
    using w Named by (simp add: parser_setArgValue_def)
  moreover have "parse_chars n (item_text i) p = Inr (p\<lparr>mArgName := k, mArgValue := v\<rparr>)"
    using parse_named [OF p] ok w Named by simp
  ultimately show ?thesis using that p ok w Named by (simp add: at_start_def)
qed

lemma at_start_after_item: "at_start p \<Longrightarrow> at_start (after_item i p)"
  by (cases i) (simp_all add: at_start_def stored_def)

lemma bindings_Cons:
  "bindings (positions p) (i # is) = Some bs \<longleftrightarrow>
   (\<exists>k v bs'. bs = (k, v) # bs' \<and> bindings (positions p) [i] = Some [(k, v)] \<and>
      bindings (positions (after_item i p)) is = Some bs' \<and>
      mProcessedArgs (after_item i p) = mProcessedArgs p @ [k] \<and>
      parsedValues (after_item i p) = assign [(k, v)] (parsedValues p))"
proof (cases i)
  case (Positional t w)
  then show ?thesis
    by (cases "mUseArgOrder p"; cases "mCurrentPosArg p") (auto simp: positions_def stored_def)
next
  case (Named nt name t w)
  then show ?thesis by (cases "positions p") (auto simp: positions_def stored_def)
qed

lemma dom_assign_one: "omap_ok vs \<Longrightarrow> dom (map_of (assign [(k, v)] vs)) = dom (map_of vs)"
  by (auto simp: assign_def map_of_omap_put split: option.splits)

lemma omap_ok_assign_one: "omap_ok vs \<Longrightarrow> omap_ok (assign [(k, v)] vs)"
  by (auto simp: assign_def split: option.splits)

lemma parse_items:
  assumes "is \<noteq> []" and "at_start p" and "omap_ok (parsedValues p)" and "list_all arg_item_ok is"
    and "bindings (positions p) is = Some bs" and "distinct (mProcessedArgs p @ map fst bs)"
    and "list_all (\<lambda>(k, _). k \<noteq> [] \<and> k \<in> dom (map_of (parsedValues p))) bs"
  shows "bindE (parse_chars n (join_with (CHR '','') (map item_text is)) p) (parse_end n) =
    Inr (assign bs (parsedValues p))"
  using assms
proof (induction "is" arbitrary: p bs)
  case (Cons i "is")
  let ?q = "after_item i p"
  obtain k v bs' where bs: "bs = (k, v) # bs'" and one: "bindings (positions p) [i] = Some [(k, v)]"
    and rest: "bindings (positions ?q) is = Some bs'"
    and q: "mProcessedArgs ?q = mProcessedArgs p @ [k]"
      "parsedValues ?q = assign [(k, v)] (parsedValues p)"
    using bindings_Cons [THEN iffD1, OF Cons.prems(5)] by blast
  obtain r where r: "parse_chars n (item_text i) p = Inr r" "argStates r = [ARG_SCAN]"
    "mArgValue r \<noteq> []" "parser_setArgValue n r = Inr ?q"
    by (rule parse_item [OF Cons.prems(2) _ one]) (use Cons.prems bs in auto)
  have all: "assign bs (parsedValues p) = assign bs' (parsedValues ?q)"
    using bs q by (simp add: assign_def)
  show ?case
  proof (cases "is")
    case Nil
    then show ?thesis using r all rest by (simp add: parse_end_def assign_def)
  next
    case (Cons i' is')
    have "parse_char n (CHR '','') r = Inr ?q" using r by (simp add: parse_char_def scan_char_def)
    then have "parse_chars n (join_with (CHR '','') (map item_text (i # is))) p =
        parse_chars n (join_with (CHR '','') (map item_text is)) ?q"
      using r Cons by (simp add: parse_chars_append)
    moreover have "bindE (parse_chars n (join_with (CHR '','') (map item_text is)) ?q) (parse_end n) =
        Inr (assign bs' (parsedValues ?q))"
      using Cons.prems Cons bs q rest
      by (intro Cons.IH) (auto simp: at_start_after_item omap_ok_assign_one dom_assign_one)
    ultimately show ?thesis using all by simp
  qed
qed simp

section \<open>Results\<close>

text \<open>
  C37: arguments are read back whatever way they are written: if the texts of a list of arguments
  spell non-empty values, positions come before names, and no declared name is given twice, then
  parsing them gives every named argument its value and every other argument its default.
\<close>

theorem converter_arguments_read_back:
  assumes "is \<noteq> []" and "list_all arg_item_ok is" and "bindings args is = Some bs"
    and "distinct (map fst bs)" and "list_all (\<lambda>(k, _). k \<noteq> [] \<and> k \<in> argName ` set args) bs"
  shows "\<exists>vs. parseArgs args (join_with (CHR '','') (map item_text is)) = Inr vs \<and>
    value_of vs = map_of (map (\<lambda>a. (argName a, mDefaultValue a)) args) ++ map_of bs"
proof -
  let ?p = "new_arg_parser args" and ?vs = "new_ConverterArgValues args"
  have p: "at_start ?p" "positions ?p = args" "parsedValues ?p = ?vs" "mProcessedArgs ?p = []"
    by (simp_all add: at_start_def positions_def new_arg_parser_def)
  have "dom (value_of ?vs) = argName ` set args"
    unfolding value_of_new_values by (simp add: dom_map_of_conv_image_fst image_image)
  then have dom: "dom (map_of ?vs) = argName ` set args"
    by (auto simp: value_of_def dom_def)
  have "bindE (parse_chars (length args) (join_with (CHR '','') (map item_text is)) ?p)
      (parse_end (length args)) = Inr (assign bs (parsedValues ?p))"
    using assms p dom by (intro parse_items) (auto simp: omap_ok_new_values)
  moreover have "value_of (assign bs ?vs) = value_of ?vs ++ map_of bs"
    using assms(4,5) dom by (intro value_of_assign) (auto simp: omap_ok_new_values list_all_iff)
  ultimately show ?thesis using p by (simp add: parseArgs_def value_of_new_values)
qed

definition demo_args :: "converter_arg list" where
  "demo_args = [string_arg ''map'' ARG_STRING [], flag_arg ''swap_bytes'']"

theorem converter_arguments_read_back_witness:
  "\<exists>vs. parseArgs demo_args ([CHR 0x27] @ ''a=b, c'' @ [CHR 0x27] @ '',swap_bytes = 1'') = Inr vs \<and>
     value_of vs ''map'' = Some ''a=b, c'' \<and> value_of vs ''swap_bytes'' = Some ''1''"
proof -
  let ?is = "[Positional ([CHR 0x27] @ ''a=b, c'' @ [CHR 0x27]) ''a=b, c'',
      Named ''swap_bytes '' ''swap_bytes'' '' 1'' ''1'']"
  have q: "spells ([CHR 0x27] @ ''a=b, c'' @ [CHR 0x27]) ''a=b, c''"
    using spells_quoted [of "CHR 0x27" "''a=b, c''" "[]" "[]"] spells_end by simp
  have n: "spells ''swap_bytes '' ''swap_bytes''" "spells '' 1'' ''1''"
    by (intro spells.intros; simp add: arg_special_def)+
  have "list_all arg_item_ok ?is" using q n by simp
  moreover have "bindings demo_args ?is = Some [(''map'', ''a=b, c''), (''swap_bytes'', ''1'')]"
    by (simp add: demo_args_def string_arg_def)
  moreover have "distinct (map fst [(''map'', ''a=b, c''), (''swap_bytes'', ''1'')])"
    "list_all (\<lambda>(k, _). k \<noteq> [] \<and> k \<in> argName ` set demo_args)
      [(''map'', ''a=b, c''), (''swap_bytes'', ''1'')]"
    by (simp_all add: demo_args_def string_arg_def int_arg_def)
  ultimately obtain vs where
    "parseArgs demo_args (join_with (CHR '','') (map item_text ?is)) = Inr vs"
    "value_of vs = map_of (map (\<lambda>a. (argName a, mDefaultValue a)) demo_args) ++
      map_of [(''map'', ''a=b, c''), (''swap_bytes'', ''1'')]"
    using converter_arguments_read_back [of ?is demo_args] by blast
  then show ?thesis by (intro exI [of _ vs]) simp
qed

end
