(* ===== verification/Standard_Converters.thy ===== *)
theory Standard_Converters
  imports Converter_Args
begin

text \<open>
  \<open>libmodmqttconv/convtools.hpp\<close> and the converters of \<open>stdconv\<close> on integers, bits and strings:
  \<open>int8.hpp\<close>, \<open>int16.hpp\<close>, \<open>int32.hpp\<close>, \<open>uint32.hpp\<close>, \<open>bits.hpp\<close>, \<open>string.hpp\<close> and the argument
  helpers of \<open>argtools.hpp\<close>. The host is little-endian and its \<open>char\<close> is signed.
\<close>

unbundle bit_operations_syntax

named_theorems conv_simps \<open>rules for conversions between registers and integers\<close>

section \<open>Classes of converters\<close>

text \<open>
  What \<open>getConverter\<close> returns: the declared arguments, the converter after \<open>setArgValues\<close>, and the
  converter whose \<open>setArgValues\<close> was never called. A read of a member that has no value then is
  undefined behaviour.
\<close>

record converter_class =
  classArgs :: "converter_arg list"
  classSetArgs :: "arg_values \<Rightarrow> cpp_exn + data_converter"
  classFresh :: data_converter

definition unset_converter :: data_converter where
  "unset_converter = \<lparr>toMqtt = (\<lambda>_. Inl Undefined), toModbus = (\<lambda>_ _. Inl Undefined)\<rparr>"

text \<open>\<open>data.getValue(i)\<close> reads past the end of a shorter vector.\<close>

definition getValue :: "u16 list \<Rightarrow> nat \<Rightarrow> cpp_exn + u16" where
  "getValue data i = (if i < length data then Inr (data ! i) else Inl Undefined)"

section \<open>Bytes and registers\<close>

definition setByteOrder :: "bool \<Rightarrow> u16 \<Rightarrow> u16" where
  "setByteOrder swap v =
     (if \<not> swap then v else push_bit 8 (v AND 0x00ff) OR drop_bit 8 (v AND 0xff00))"

text \<open>\<open>htons\<close>, and what \<open>adaptToNetworkByteOrder\<close> and \<open>swapByteOrder\<close> do to every register\<close>

definition adaptToNetworkByteOrder :: "u16 list \<Rightarrow> u16 list" where
  "adaptToNetworkByteOrder registers = map (setByteOrder True) registers"

definition registersToInt32 :: "u16 list \<Rightarrow> bool \<Rightarrow> bool \<Rightarrow> cpp_exn + int" where
  "registersToInt32 data lowFirst swapBytes =
     (let (high, low) = (if lowFirst \<and> length data > 1 then (1, 0) else (0, 1))
      in bindE (getValue data high) (\<lambda>h.
           if length data > 1
           then bindE (getValue data low) (\<lambda>l.
             Inr (to_int32 (uint (setByteOrder swapBytes h) * 2 ^ 16 + uint (setByteOrder swapBytes l))))
           else Inr (uint (setByteOrder swapBytes h))))"

text \<open>\<open>>>\<close> of a signed integer keeps the sign.\<close>

definition int32ToRegisters :: "int \<Rightarrow> bool \<Rightarrow> bool \<Rightarrow> int \<Rightarrow> u16 list" where
  "int32ToRegisters val lowFirst swapBytes registerCount =
     (let l = setByteOrder swapBytes (of_int val);
          h = setByteOrder swapBytes (of_int (val div 2 ^ 16))
      in if registerCount = 2 then (if \<not> lowFirst then [h, l] else [l, h]) else [l])"

section \<open>Arguments that used to be words\<close>

text \<open>A flag; the words of older versions are still understood, with a warning.\<close>

definition legacy_flag :: "string list \<Rightarrow> string list \<Rightarrow> arg_value \<Rightarrow> cpp_exn + bool" where
  "legacy_flag falses trues val =
     (case arg_as_bool val of
        Inr b \<Rightarrow> Inr b
      | Inl e \<Rightarrow>
          if as_str val \<in> set falses then Inr False
          else if as_str val \<in> set trues then Inr True
          else Inl e)"

definition getSwapBytes :: "arg_values \<Rightarrow> cpp_exn + bool" where
  "getSwapBytes vs = bindE (getArgValue ''swap_bytes'' vs) (legacy_flag [[]] [''swap_bytes''])"

definition getLowFirst :: "arg_values \<Rightarrow> cpp_exn + bool" where
  "getLowFirst vs =
     bindE (getArgValue ''low_first'' vs) (legacy_flag [[], ''high_first''] [''low_first''])"

definition getFirst :: "arg_values \<Rightarrow> cpp_exn + bool" where
  "getFirst vs = bindE (getArgValue ''first'' vs) (legacy_flag [[]] [''first''])"

section \<open>Integers\<close>

definition out_of_range :: "int \<Rightarrow> cpp_exn" where
  "out_of_range val = ConvException (''Conversion failed, value '' @ to_string val @ '' out of range'')"

definition INT16_MIN :: int where "INT16_MIN = - 32768"
definition INT16_MAX :: int where "INT16_MAX = 32767"

definition int16_converter :: "bool \<Rightarrow> data_converter" where
  "int16_converter mSwapBytes =
     \<lparr>toMqtt = (\<lambda>data. bindE (getValue data 0) (\<lambda>val.
        Inr (IntValue (sint (setByteOrder mSwapBytes val))))),
      toModbus = (\<lambda>x registerCount. bindE (getInt x) (\<lambda>val.
        if val < INT16_MIN \<or> val > INT16_MAX then Inl (out_of_range val)
        else Inr (replicate (nat registerCount) (setByteOrder mSwapBytes (of_int val)))))\<rparr>"

definition uint16_converter :: "bool \<Rightarrow> data_converter" where
  "uint16_converter mSwapBytes =
     \<lparr>toMqtt = (\<lambda>data. bindE (getValue data 0) (\<lambda>val.
        Inr (IntValue (uint (setByteOrder mSwapBytes val))))),
      toModbus = (\<lambda>x registerCount. bindE (getInt x) (\<lambda>val.
        if val < 0 \<or> val > UINT16_MAX then Inl (out_of_range val)
        else Inr (replicate (nat registerCount) (setByteOrder mSwapBytes (of_int val)))))\<rparr>"

definition int32_converter :: "bool \<Rightarrow> bool \<Rightarrow> data_converter" where
  "int32_converter mLowFirst mSwapBytes =
     \<lparr>toMqtt = (\<lambda>data. bindE (registersToInt32 data mLowFirst mSwapBytes) (\<lambda>v. Inr (IntValue v))),
      toModbus = (\<lambda>x registerCount. bindE (getInt x) (\<lambda>v.
        Inr (int32ToRegisters v mLowFirst mSwapBytes registerCount)))\<rparr>"

text \<open>\<open>mHighByte\<close> and \<open>mLowByte\<close> are the positions of the registers.\<close>

definition uint32_converter :: "nat \<Rightarrow> nat \<Rightarrow> data_converter" where
  "uint32_converter mHighByte mLowByte =
     \<lparr>toMqtt = (\<lambda>data.
        let (high, low) = (if length data > 1 then (mHighByte, mLowByte) else (0, 0))
        in bindE (getValue data high) (\<lambda>h.
             if length data > 1
             then bindE (getValue data low) (\<lambda>l.
               Inr (Int64Value (uint (push_bit 16 (ucast h) + ucast l :: 32 word))))
             else Inr (Int64Value (uint h)))),
      toModbus = (\<lambda>x registerCount. bindE (getInt64 x) (\<lambda>v.
        let val = of_int v :: 32 word;
            l = ucast val;
            h = ucast (drop_bit 16 val)
        in Inr (if registerCount = 2 then (if mHighByte = 0 then [h, l] else [l, h]) else [l])))\<rparr>"

definition int8_converter :: "bool \<Rightarrow> data_converter" where
  "int8_converter mFirst = base_converter
     \<lparr>toMqtt := (\<lambda>data. bindE (getValue data 0) (\<lambda>val.
        Inr (IntValue (sint (ucast (if mFirst then drop_bit 8 val else val) :: 8 word)))))\<rparr>"

definition uint8_converter :: "bool \<Rightarrow> data_converter" where
  "uint8_converter mFirst = base_converter
     \<lparr>toMqtt := (\<lambda>data. bindE (getValue data 0) (\<lambda>val.
        Inr (IntValue (uint (ucast (if mFirst then drop_bit 8 val else val) :: 8 word)))))\<rparr>"

section \<open>Bits\<close>

definition bitmask_converter :: "u16 \<Rightarrow> data_converter" where
  "bitmask_converter mMask = base_converter
     \<lparr>toMqtt := (\<lambda>data. bindE (getValue data 0) (\<lambda>val. Inr (IntValue (uint (val AND mMask)))))\<rparr>"

text \<open>The number 0 passes the check of the arguments and gives a shift by a negative number.\<close>

definition bit_converter :: "nat \<Rightarrow> data_converter" where
  "bit_converter bitNumber = base_converter
     \<lparr>toMqtt := (\<lambda>data. bindE (getValue data 0) (\<lambda>val.
        if bitNumber = 0 then Inl Undefined
        else Inr (IntValue (uint (drop_bit (bitNumber - 1) val AND 1)))))\<rparr>"

definition bit_setArgValues :: "arg_values \<Rightarrow> cpp_exn + data_converter" where
  "bit_setArgValues vs =
     bindE (bindE (getArgValue ''bit'' vs) arg_as_int) (\<lambda>number.
       if 16 < number \<or> number < 0
       then Inl (ConvException ''Please provide a valid bit number [1-16]'')
       else Inr (bit_converter (nat number)))"

section \<open>Strings\<close>

text \<open>The bytes \<open>getBinaryPtr\<close> points at\<close>

definition le_bytes :: "nat \<Rightarrow> int \<Rightarrow> string" where
  "le_bytes n v = map (\<lambda>i. char_of (v div 256 ^ i mod 256)) [0..<n]"

fun getBinary :: "mqtt_value \<Rightarrow> string" where
  "getBinary (BinaryValue s) = s"
| "getBinary (IntValue v) = le_bytes 4 v"
| "getBinary (Int64Value v) = le_bytes 8 v"
| "getBinary (DoubleValue d p) = le_bytes 8 (uint d)"

text \<open>The bytes of a register in memory, and \<open>(uint16_t)*strPtr\<close>, which extends the sign\<close>

definition register_bytes :: "u16 \<Rightarrow> string" where
  "register_bytes r = [char_of (uint r mod 256), char_of (uint r div 256)]"

definition char_register :: "char \<Rightarrow> u16" where
  "char_register c = signed (of_int (of_char c) :: 8 word)"

definition string_toMqtt :: "u16 list \<Rightarrow> cpp_exn + mqtt_value" where
  "string_toMqtt data =
     (let bytes = concat (map register_bytes (adaptToNetworkByteOrder data))
      in Inr (BinaryValue (takeWhile (\<lambda>c. c \<noteq> CHR 0x00) bytes)))"

fun string_registers :: "nat \<Rightarrow> string \<Rightarrow> u16 list" where
  "string_registers 0 s = []"
| "string_registers (Suc n) [] = 0 # string_registers n []"
| "string_registers (Suc n) [a] = push_bit 8 (char_register a) # string_registers n []"
| "string_registers (Suc n) (a # b # s) =
     (push_bit 8 (char_register a) + char_register b) # string_registers n s"

text \<open>A negative size makes the constructor of the vector throw \<open>std::length_error\<close>.\<close>

definition string_toModbus :: "mqtt_value \<Rightarrow> int \<Rightarrow> cpp_exn + u16 list" where
  "string_toModbus x registerCount =
     (if registerCount < 0 then Inl (LogicError ''cannot create std::vector larger than max_size()'')
      else Inr (adaptToNetworkByteOrder (string_registers (nat registerCount) (getBinary x))))"

definition string_converter :: data_converter where
  "string_converter = \<lparr>toMqtt = string_toMqtt, toModbus = string_toModbus\<rparr>"

section \<open>Their classes\<close>

definition flag_class :: "string \<Rightarrow> (arg_values \<Rightarrow> cpp_exn + bool) \<Rightarrow> (bool \<Rightarrow> data_converter)
    \<Rightarrow> data_converter \<Rightarrow> converter_class" where
  "flag_class name get conv fresh =
     \<lparr>classArgs = [flag_arg name],
      classSetArgs = (\<lambda>vs. bindE (get vs) (\<lambda>b. Inr (conv b))),
      classFresh = fresh\<rparr>"

definition int16_class :: converter_class where
  "int16_class = flag_class ''swap_bytes'' getSwapBytes int16_converter unset_converter"

definition uint16_class :: converter_class where
  "uint16_class = flag_class ''swap_bytes'' getSwapBytes uint16_converter unset_converter"

definition int8_class :: converter_class where
  "int8_class = flag_class ''first'' getFirst int8_converter (int8_converter False)"

definition uint8_class :: converter_class where
  "uint8_class = flag_class ''first'' getFirst uint8_converter (uint8_converter False)"

definition int32_class :: converter_class where
  "int32_class =
     \<lparr>classArgs = [flag_arg ''low_first'', flag_arg ''swap_bytes''],
      classSetArgs = (\<lambda>vs. bindE (getSwapBytes vs) (\<lambda>sw. bindE (getLowFirst vs) (\<lambda>lf.
        Inr (int32_converter lf sw)))),
      classFresh = unset_converter\<rparr>"

definition uint32_class :: converter_class where
  "uint32_class =
     flag_class ''low_first'' getLowFirst
       (\<lambda>low_first. if low_first then uint32_converter 1 0 else uint32_converter 0 1)
       (uint32_converter 0 1)"

definition unset_read_only :: data_converter where
  "unset_read_only = base_converter\<lparr>toMqtt := toMqtt unset_converter\<rparr>"

definition bitmask_class :: converter_class where
  "bitmask_class =
     \<lparr>classArgs = [int_arg ''mask'' ARG_INT 0xffff],
      classSetArgs = (\<lambda>vs. bindE (bindE (getArgValue ''mask'' vs) arg_as_uint16) (\<lambda>mMask.
        Inr (bitmask_converter mMask))),
      classFresh = unset_read_only\<rparr>"

definition bit_class :: converter_class where
  "bit_class =
     \<lparr>classArgs = [int_arg ''bit'' ARG_INT (- 1)], classSetArgs = bit_setArgValues,
      classFresh = unset_read_only\<rparr>"

definition string_class :: converter_class where
  "string_class =
     \<lparr>classArgs = [], classSetArgs = (\<lambda>_. Inr string_converter), classFresh = string_converter\<rparr>"

section \<open>Bytes\<close>

lemma setByteOrder_masks:
  "setByteOrder True v =
     push_bit 8 (v AND mask 8) OR drop_bit 8 (v AND push_bit 8 (mask 8))"
  by (simp add: setByteOrder_def mask_eq_exp_minus_1)

lemma setByteOrder_bit:
  "bit (setByteOrder True v) i \<longleftrightarrow> i < 16 \<and> bit v (if i < 8 then i + 8 else i - 8)"
  by (auto simp: setByteOrder_masks bit_simps add.commute)

lemma setByteOrder_twice [conv_simps]: "setByteOrder s (setByteOrder s v) = v"
proof -
  have "setByteOrder True (setByteOrder True v) = v"
    by (rule bit_word_eqI) (auto simp: setByteOrder_bit)
  then show ?thesis by (cases s) (simp_all add: setByteOrder_def)
qed

section \<open>Numbers as text\<close>

lemma nat_string_hd_zero: "hd (nat_string n) = CHR ''0'' \<Longrightarrow> n = 0"
proof (induction n rule: nat_string.induct)
  case (1 n)
  show ?case
  proof (cases "n < 10")
    case True
    then have "digit_char n = CHR ''0''" using 1 by (simp add: nat_string.simps [of n])
    then have "(of_char (digit_char n) :: nat) = of_char (CHR ''0'')" by simp
    then show ?thesis using True by (simp add: of_char_digit_char)
  next
    case False
    then have "hd (nat_string (n div 10)) = CHR ''0''"
      using "1.prems" by (simp add: nat_string.simps [of n])
    then show ?thesis using "1.IH" False by simp
  qed
qed

lemma split_base_nat_string:
  "n \<noteq> 0 \<Longrightarrow> split_base 0 (nat_string n) = (10, 0, nat_string n)"
  using nat_string_hd_zero [of n]
  by (cases "nat_string n") (auto simp: split_base_def has_hex_prefix_def split: list.splits)

lemma strtol_zero: "strtol 0 ''0'' = Some (0, 1)"
  by code_simp

lemma strtol_0_nat_string:
  assumes "n \<noteq> 0"
  shows "strtol 0 (nat_string n) = Some (int n, length (nat_string n))"
proof -
  obtain c cs where c: "nat_string n = c # cs" by (cases "nat_string n") auto
  then have d: "is_digit 10 c" using nat_string_hd_digit [of n] by simp
  have "takeWhile (is_digit 10) (nat_string n) = nat_string n"
    using takeWhile_digits [OF nat_string_digits, of "[]" n] by simp
  then show ?thesis
    using digit_not_special [OF d] c split_base_nat_string [OF assms] digits_value_nat_string [of n]
    by (simp add: strtol_def split_sign_def del: digits_value_nat_string)
qed

lemma strtol_0_to_string: "strtol 0 (to_string v) = Some (v, length (to_string v))"
proof -
  consider "v = 0" | "v > 0" | "v < 0" by linarith
  then show ?thesis
  proof cases
    case 1
    have "to_string 0 = ''0''" by code_simp
    then show ?thesis using 1 strtol_zero by simp
  next
    case 2
    then show ?thesis using strtol_0_nat_string [of "nat v"] by (simp add: to_string_def)
  next
    case 3
    let ?n = "nat (- v)"
    have "\<not> isspace (CHR ''-'')" by (simp add: isspace_def)
    moreover have "takeWhile (is_digit 10) (nat_string ?n) = nat_string ?n"
      using takeWhile_digits [OF nat_string_digits, of "[]" ?n] by simp
    ultimately show ?thesis
      using 3 split_base_nat_string [of ?n]
      by (simp add: to_string_def strtol_def split_sign_def Let_def del: takeWhile_eq_all_conv)
  qed
qed

lemma getInt_text [conv_simps]: "in_int v \<Longrightarrow> getInt (BinaryValue (to_string v)) = Inr v"
  using strtol_0_to_string [of v]
  by (simp add: strtol_all_def c_str_to_string to_int32_id in_int_def INT_MIN_def INT_MAX_def
      LONG_MIN_def LONG_MAX_def)

lemma getInt64_text [conv_simps]:
  "LONG_MIN \<le> v \<Longrightarrow> v \<le> LONG_MAX \<Longrightarrow> getInt64 (BinaryValue (to_string v)) = Inr v"
  using strtol_to_string [of "[]" v] by (simp add: strtol_all_def c_str_to_string)

section \<open>Lossless conversions\<close>

text \<open>
  A converter is lossless on \<open>n\<close> registers if the value it makes of them gives them back, both as
  the value itself and as the text that is published for it.
\<close>

definition lossless :: "data_converter \<Rightarrow> nat \<Rightarrow> bool" where
  "lossless conv n \<longleftrightarrow>
     (\<forall>data format. length data = n \<longrightarrow>
        (\<exists>v. toMqtt conv data = Inr v \<and> toModbus conv v (int n) = Inr data \<and>
             toModbus conv (BinaryValue (getString format v)) (int n) = Inr data))"

lemma length_one: "length xs = Suc 0 \<longleftrightarrow> (\<exists>a. xs = [a])"
  by (auto simp: length_Suc_conv)

lemma length_two: "length xs = 2 \<longleftrightarrow> (\<exists>a b. xs = [a, b])"
  by (auto simp: length_Suc_conv numeral_2_eq_2)

lemma uint16_bounds: "0 \<le> uint (r :: u16)" "uint (r :: u16) < 65536"
  using uint_bounded [of r] by simp_all

lemma uint16_in_int: "in_int (uint (r :: u16))"
  using uint16_bounds [of r] unfolding in_int_def INT_MIN_def INT_MAX_def by linarith

lemma sint16_bounds: "- (2 ^ 15) \<le> sint (r :: u16)" "sint (r :: u16) < 2 ^ 15"
  using sint_greater_eq [of r] sint_less [of r] by simp_all

lemma lossless_int16: "lossless (int16_converter s) 1"
proof -
  have "in_int (sint r)" for r :: u16
    using sint16_bounds [of r] by (simp add: in_int_def INT_MIN_def INT_MAX_def)
  moreover have "\<not> (sint r < INT16_MIN \<or> INT16_MAX < sint r)" for r :: u16
    using sint16_bounds [of r] by (simp add: INT16_MIN_def INT16_MAX_def)
  ultimately show ?thesis
    by (auto simp: lossless_def length_one int16_converter_def getValue_def conv_simps
        simp del: getInt.simps(1))
qed

lemma lossless_uint16: "lossless (uint16_converter s) 1"
proof -
  have "\<not> (uint r < 0 \<or> UINT16_MAX < uint r)" for r :: u16
    using uint16_bounds [of r] by (simp add: UINT16_MAX_def)
  with uint16_in_int show ?thesis
    by (auto simp: lossless_def length_one uint16_converter_def getValue_def conv_simps
        simp del: getInt.simps(1))
qed

text \<open>Two halves of a 32-bit number\<close>

lemma int32_halves [conv_simps]:
  "of_int (to_int32 (uint (h :: u16) * 65536 + uint (l :: u16))) = l"
  "of_int (to_int32 (uint (h :: u16) * 65536 + uint (l :: u16)) div 65536) = h"
proof -
  let ?v = "uint h * 65536 + uint l"
  have b: "0 \<le> uint h" "uint h < 65536" "0 \<le> uint l" "uint l < 65536"
    using uint16_bounds by blast+
  have "to_int32 ?v = ?v \<or> to_int32 ?v = ?v - 4294967296"
  proof (cases "uint h < 32768")
    case True
    then have "to_int32 ?v = ?v" using b by (simp add: to_int32_def)
    then show ?thesis by simp
  next
    case False
    have "(?v + 2147483648) mod 4294967296 = (?v - 2147483648) mod 4294967296"
      using mod_add_self2 [of "?v - 2147483648" 4294967296] by (simp add: add.commute)
    also have "\<dots> = ?v - 2147483648"
      using False b by (intro mod_pos_pos_trivial) linarith+
    finally show ?thesis by (simp add: to_int32_def)
  qed
  then obtain k where k: "to_int32 ?v = uint l + (uint h + k * 65536) * 65536" "k = 0 \<or> k = -1"
    by auto
  have low: "(uint l + x * 65536) mod 65536 = uint l" "(uint l + x * 65536) div 65536 = x" for x
    using b by simp_all
  have of_mod: "of_int x = (of_int (x mod 65536) :: u16)" for x :: int
    by (simp add: word_of_int_eq_iff take_bit_eq_mod)
  show "of_int (to_int32 ?v) = l" unfolding k(1) of_mod [of "uint l + _"] low(1) by simp
  have "(uint h + k * 65536) mod 65536 = uint h" using b by simp
  then show "of_int (to_int32 ?v div 65536) = h"
    unfolding k(1) low(2) of_mod [of "uint h + _"] by simp
qed

lemma lossless_int32: "lossless (int32_converter lf s) 1" "lossless (int32_converter lf s) 2"
proof -
  show "lossless (int32_converter lf s) 1"
    using uint16_in_int
    by (auto simp: lossless_def length_one int32_converter_def registersToInt32_def
        int32ToRegisters_def getValue_def conv_simps simp del: getInt.simps(1))
  have "in_int (to_int32 v)" for v using to_int32_bounds [of v] by (simp add: in_int_def)
  then show "lossless (int32_converter lf s) 2"
    by (cases lf) (auto simp: lossless_def length_two int32_converter_def registersToInt32_def
        int32ToRegisters_def getValue_def conv_simps simp del: getInt.simps(1))
qed

lemma uint32_halves [conv_simps]:
  "ucast (push_bit 16 (ucast (h :: u16)) + ucast (l :: u16) :: 32 word) = l"
  "ucast (drop_bit 16 (push_bit 16 (ucast (h :: u16)) + ucast (l :: u16) :: 32 word)) = h"
proof -
  have eq: "push_bit 16 (ucast h) + ucast l = (push_bit 16 (ucast h) OR ucast l :: 32 word)"
    by (rule disjunctive_add) (auto simp: bit_simps dest: bit_imp_le_length)
  show "ucast (push_bit 16 (ucast h) + ucast l :: 32 word) = l"
    unfolding eq by (rule bit_word_eqI) (auto simp: bit_simps)
  show "ucast (drop_bit 16 (push_bit 16 (ucast h) + ucast l :: 32 word)) = h"
    unfolding eq by (rule bit_word_eqI) (auto simp: bit_simps dest: bit_imp_le_length)
qed

lemma lossless_uint32:
  "lossless (uint32_converter 0 1) 1" "lossless (uint32_converter 1 0) 1"
  "lossless (uint32_converter 0 1) 2" "lossless (uint32_converter 1 0) 2"
proof -
  have long: "LONG_MIN \<le> uint w" "uint w \<le> LONG_MAX" for w :: "32 word"
    using uint_bounded [of w] order_trans [OF _ uint_ge_0 [of w]]
    unfolding LONG_MIN_def LONG_MAX_def by simp_all
  have short: "LONG_MIN \<le> uint r" "uint r \<le> LONG_MAX" for r :: u16
    using uint16_bounds [of r] order_trans [OF _ uint16_bounds(1) [of r]]
    unfolding LONG_MIN_def LONG_MAX_def by simp_all
  have one: "ucast (of_int (uint r) :: 32 word) = r" for r :: u16
    by (rule bit_word_eqI) (simp add: bit_simps)
  show "lossless (uint32_converter 0 1) 1" "lossless (uint32_converter 1 0) 1"
    using short one
    by (auto simp: lossless_def length_one uint32_converter_def getValue_def conv_simps
        simp del: getInt64.simps(1))
  show "lossless (uint32_converter 0 1) 2" "lossless (uint32_converter 1 0) 2"
    using long
    by (auto simp: lossless_def length_two uint32_converter_def getValue_def conv_simps
        simp del: getInt64.simps(1))
qed

section \<open>Strings that are written\<close>

definition ascii :: "char \<Rightarrow> bool" where
  "ascii c \<longleftrightarrow> 0 < (of_char c :: nat) \<and> (of_char c :: nat) < 128"

fun swap_pairs :: "string \<Rightarrow> string" where
  "swap_pairs (a # b # s) = b # a # swap_pairs s"
| "swap_pairs s = s"

lemma of_char_int: "(of_char c :: int) = int (of_char c)"
  by (simp add: of_nat_of_char)

lemma ascii_bounds: "ascii c \<Longrightarrow> 0 < (of_char c :: int) \<and> (of_char c :: int) < 128"
  by (simp add: ascii_def of_char_int)

lemma char_register_ascii:
  assumes "ascii c"
  shows "uint (char_register c) = of_char c"
proof -
  have n: "0 < (of_char c :: int)" "(of_char c :: int) < 128"
    using ascii_bounds [OF assms] by simp_all
  then have "sint (of_int (of_char c) :: 8 word) = of_char c"
    by (simp add: int_word_sint)
  moreover have "char_register c = of_int (sint (of_int (of_char c) :: 8 word))"
    by (simp only: char_register_def of_int_sint)
  ultimately have "char_register c = of_int (of_char c)" by simp
  moreover have "uint (of_int x :: u16) = x" if "0 < x" "x < 128" for x :: int
    using that by (simp add: unsigned_of_int take_bit_eq_mod)
  ultimately show ?thesis using n by simp
qed

lemma uint_char_pair:
  assumes "ascii a" and "ascii b"
  shows "uint (push_bit 8 (char_register a) + char_register b) = of_char a * 256 + of_char b"
proof -
  have n: "0 < (of_char a :: int)" "(of_char a :: int) < 128" "0 < (of_char b :: int)"
    "(of_char b :: int) < 128"
    using ascii_bounds assms by auto
  then show ?thesis
    using char_register_ascii assms
    by (simp add: uint_word_ariths push_bit_eq_mult mod_pos_pos_trivial)
qed

lemma register_bytes_pair:
  assumes "ascii a" and "ascii b"
  shows "register_bytes (push_bit 8 (char_register a) + char_register b) = [b, a]"
proof -
  have n: "0 < (of_char a :: int)" "0 < (of_char b :: int)" "(of_char b :: int) < 128"
    using ascii_bounds assms by auto
  then have "(of_char a * 256 + of_char b :: int) mod 256 = of_char b"
    "(of_char a * 256 + of_char b :: int) div 256 = of_char a"
    by simp_all
  then show ?thesis
    unfolding register_bytes_def uint_char_pair [OF assms] by (simp only: char_of_char)
qed

lemma ascii_nonzero: "ascii c \<Longrightarrow> c \<noteq> CHR 0x00"
  by (auto simp: ascii_def)

lemma string_registers_bytes:
  "list_all ascii s \<Longrightarrow> length s = 2 * n \<Longrightarrow>
   concat (map register_bytes (string_registers n s)) = swap_pairs s"
proof (induction n s rule: string_registers.induct)
  case (4 n a b s)
  then show ?case by (simp add: register_bytes_pair)
qed auto

lemma swap_pairs_ascii: "list_all ascii s \<Longrightarrow> list_all ascii (swap_pairs s)"
  by (induction s rule: swap_pairs.induct) auto

lemma adaptToNetworkByteOrder_twice:
  "adaptToNetworkByteOrder (adaptToNetworkByteOrder rs) = rs"
  by (simp add: adaptToNetworkByteOrder_def setByteOrder_twice comp_def)

section \<open>Results\<close>

text \<open>
  C38: the integer converters lose nothing. What \<open>std.int16\<close>, \<open>std.uint16\<close>, \<open>std.int32\<close> and
  \<open>std.uint32\<close> make of any registers gives the same registers back when it is written, with every
  setting of their options, and so does the text that is published for it.
\<close>

theorem integer_converters_lossless:
  "lossless (int16_converter s) 1 \<and> lossless (uint16_converter s) 1 \<and>
   lossless (int32_converter lf s) 1 \<and> lossless (int32_converter lf s) 2 \<and>
   lossless (uint32_converter 0 1) 1 \<and> lossless (uint32_converter 0 1) 2 \<and>
   lossless (uint32_converter 1 0) 1 \<and> lossless (uint32_converter 1 0) 2"
  using lossless_int16 lossless_uint16 lossless_int32 lossless_uint32 by blast

text \<open>
  C40: a string that was written by \<open>std.string\<close> is read back by it with the two characters of
  every register exchanged: reading takes the high byte of a register first, writing puts the first
  character into the low byte.
\<close>

theorem written_string_reads_swapped:
  assumes "list_all ascii s" and "length s = 2 * n"
  shows "\<exists>rs. toModbus string_converter (BinaryValue s) (int n) = Inr rs \<and>
    toMqtt string_converter rs = Inr (BinaryValue (swap_pairs s))"
proof -
  have "\<forall>c \<in> set (swap_pairs s). c \<noteq> CHR 0x00"
    using swap_pairs_ascii [OF assms(1)] ascii_nonzero by (auto simp: list_all_iff)
  then have "takeWhile (\<lambda>c. c \<noteq> CHR 0x00) (swap_pairs s) = swap_pairs s" by simp
  then show ?thesis
    using string_registers_bytes [OF assms]
    by (simp add: string_converter_def string_toModbus_def string_toMqtt_def
        adaptToNetworkByteOrder_twice Let_def del: takeWhile_eq_all_conv)
qed

theorem written_string_reads_swapped_witness:
  "\<exists>rs. toModbus string_converter (BinaryValue ''ABCD'') 2 = Inr rs \<and>
     toMqtt string_converter rs = Inr (BinaryValue ''BADC'')"
  using written_string_reads_swapped [of "''ABCD''" 2] by (simp add: ascii_def)

text \<open>The default of \<open>std.bitmask\<close> is a decimal text that is read as a hexadecimal number.\<close>

lemma default_mask_refused:
  "\<exists>e. classSetArgs bitmask_class (new_ConverterArgValues (classArgs bitmask_class)) =
     Inl (ConvException e)"
proof -
  have "digit_char 6 = CHR ''6''" "digit_char 5 = CHR ''5''" "digit_char 3 = CHR ''3''"
    by code_simp+
  then have "to_string 65535 = ''65535''"
    by (simp add: to_string_def nat_string.simps)
  moreover have "stoi 16 ''65535'' = Inr (415029, 5)"
    by (simp add: stoi_def strtol_def isspace_def split_sign_def split_base_def has_hex_prefix_def
        is_digit_def digit_val_def digits_value_def in_int_def INT_MIN_def INT_MAX_def)
  ultimately show ?thesis
    by (simp add: bitmask_class_def new_ConverterArgValues_def omap_insert_def int_arg_def
        string_arg_def getArgValue_def new_arg_value_def arg_as_uint16_def conv_toInt_def
        rethrow_arg_def)
qed

end
