(* ===== verification/Map_Converter.thy ===== *)
theory Map_Converter
  imports Standard_Converters
begin

text \<open>
  \<open>stdconv/map.hpp\<close> and \<open>map.cpp\<close>: the converter \<open>std.map\<close>, which replaces register values by
  numbers or strings, and the parser of its argument, such as \<open>{1:"on",2:7}\<close>.
\<close>

section \<open>Mappings\<close>

text \<open>The string variant is a copy made with \<open>strcpy\<close>.\<close>

datatype map_variant = MapInt int | MapStr string

record map_entry =
  mapRegister :: u16
  mapVariant :: map_variant

definition findRegValue :: "u16 \<Rightarrow> map_entry list \<Rightarrow> map_entry option" where
  "findRegValue r ms = find (\<lambda>m. mapRegister m = r) ms"

fun findVariant ::
  "(double_bits \<Rightarrow> int \<Rightarrow> string) \<Rightarrow> mqtt_value \<Rightarrow> map_entry list \<Rightarrow> cpp_exn + map_entry option" where
  "findVariant format x [] = Inr None"
| "findVariant format x (m # ms) =
     (case mapVariant m of
        MapInt v \<Rightarrow>
          bindE (getInt x) (\<lambda>val. if v = val then Inr (Some m) else findVariant format x ms)
      | MapStr s \<Rightarrow>
          if s = getString format x then Inr (Some m) else findVariant format x ms)"

definition map_toMqtt :: "map_entry list \<Rightarrow> u16 list \<Rightarrow> cpp_exn + mqtt_value" where
  "map_toMqtt mMappings data =
     (case data of
        [r] \<Rightarrow>
          (case findRegValue r mMappings of
             None \<Rightarrow> Inr (IntValue (uint r))
           | Some m \<Rightarrow>
               (case mapVariant m of
                  MapInt v \<Rightarrow> Inr (IntValue v)
                | MapStr s \<Rightarrow> Inr (fromString s)))
      | _ \<Rightarrow> Inl (ConvException ''Cannot map multiple registers''))"

definition map_toModbus ::
  "(double_bits \<Rightarrow> int \<Rightarrow> string) \<Rightarrow> map_entry list \<Rightarrow> mqtt_value \<Rightarrow> int \<Rightarrow> cpp_exn + u16 list" where
  "map_toModbus format mMappings x registerCount =
     (if registerCount \<noteq> 1 then Inl (ConvException ''Cannot map multiple registers'')
      else
        bindE (findVariant format x mMappings) (\<lambda>it.
          case it of
            None \<Rightarrow> toModbus (int16_converter False) x registerCount
          | Some m \<Rightarrow> Inr [mapRegister m]))"

definition map_converter ::
  "(double_bits \<Rightarrow> int \<Rightarrow> string) \<Rightarrow> map_entry list \<Rightarrow> data_converter" where
  "map_converter format ms = \<lparr>toMqtt = map_toMqtt ms, toModbus = map_toModbus format ms\<rparr>"

section \<open>The parser\<close>

datatype map_state = MAP_SCAN | MAP_KEY | MAP_ESCAPE | MAP_VALUE
datatype map_value_type = VT_NONE | VT_INT | VT_STRING

record map_parser =
  mapStates :: "map_state list"
  mKey :: string
  mValueType :: map_value_type
  mapValue :: string
  mappings :: "map_entry list"

definition new_map_parser :: map_parser where
  "new_map_parser =
     \<lparr>mapStates = [MAP_SCAN], mKey = [], mValueType = VT_NONE, mapValue = [], mappings = []\<rparr>"

definition push_map :: "map_state \<Rightarrow> map_parser \<Rightarrow> map_parser" where
  "push_map st p = p\<lparr>mapStates := st # mapStates p\<rparr>"

definition pop_map :: "map_parser \<Rightarrow> map_parser" where
  "pop_map p = p\<lparr>mapStates := tl (mapStates p)\<rparr>"

definition add_value :: "char \<Rightarrow> map_parser \<Rightarrow> map_parser" where
  "add_value c p = p\<lparr>mapValue := mapValue p @ [c]\<rparr>"

definition add_key :: "char \<Rightarrow> map_parser \<Rightarrow> map_parser" where
  "add_key c p = p\<lparr>mKey := mKey p @ [c]\<rparr>"

definition atoi :: "string \<Rightarrow> cpp_exn + int" where
  "atoi s =
     (case strtol 10 (c_str s) of
        None \<Rightarrow> Inr 0
      | Some (v, _) \<Rightarrow> if in_int v then Inr v else Inl Undefined)"

definition parsed_variant :: "map_parser \<Rightarrow> cpp_exn + map_variant" where
  "parsed_variant p =
     (if mValueType p = VT_INT then bindE (atoi (mapValue p)) (\<lambda>v. Inr (MapInt v))
      else Inr (MapStr (c_str (mapValue p))))"

definition addMapping :: "map_parser \<Rightarrow> cpp_exn + map_parser" where
  "addMapping p =
     (if mKey p = []
      then Inl (ConvException ''Internal parser error: register value cannot be empty'')
      else
        bindE (getUInt16 (fromString (mKey p))) (\<lambda>regVal.
          if findRegValue regVal (mappings p) \<noteq> None
          then Inl (ConvException (''Register value '' @ mKey p @ '' already mapped''))
          else
            bindE (parsed_variant p) (\<lambda>v.
              if list_ex (\<lambda>m. mapVariant m = v) (mappings p)
              then Inl (ConvException (''Mqtt value '' @ mapValue p @ '' already mapped''))
              else Inr (pop_map (p\<lparr>mappings := mappings p @ [\<lparr>mapRegister = regVal, mapVariant = v\<rparr>],
                     mValueType := VT_NONE, mKey := [], mapValue := []\<rparr>)))))"

fun map_state_code :: "map_state \<Rightarrow> int" where
  "map_state_code MAP_SCAN = 0"
| "map_state_code MAP_KEY = 1"
| "map_state_code MAP_ESCAPE = 2"
| "map_state_code MAP_VALUE = 3"

definition addEscapedChar :: "char \<Rightarrow> map_parser \<Rightarrow> cpp_exn + map_parser" where
  "addEscapedChar c p =
     (let p = pop_map p in
      case mapStates p of
        [] \<Rightarrow> Inl Undefined
      | MAP_KEY # _ \<Rightarrow> Inr (add_key c p)
      | MAP_VALUE # _ \<Rightarrow> Inr (add_value c p)
      | st # _ \<Rightarrow> Inl (ConvException (''Internal parser error: invalid state '' @
             to_string (map_state_code st) @ '' when adding escaped char '' @ [c])))"

abbreviation key_error :: "string \<Rightarrow> cpp_exn + map_parser" where
  "key_error what \<equiv> Inl (ConvException (what @ '' in map key is not allowed, must be an uint16_value''))"

text \<open>
  \<open>'}'\<close> in a string value: the case of \<open>STRING\<close> has no \<open>break\<close> and runs into the error.
\<close>

definition scan_map :: "char \<Rightarrow> map_parser \<Rightarrow> cpp_exn + map_parser" where
  "scan_map c p =
     (if c = CHR ''{'' \<or> c = CHR '' '' \<or> c = CHR '','' then Inr p
      else if c = CHR ''}'' then (if mValueType p = VT_INT then addMapping p else Inr p)
      else if c = CHR 0x5C then key_error [CHR 0x5C]
      else if c = CHR 0x22 then
        (if mKey p = [] then Inr (push_map MAP_KEY p)
         else Inr ((push_map MAP_VALUE p)\<lparr>mValueType := VT_STRING\<rparr>))
      else if c = CHR '':'' then
        (if mKey p = []
         then Inl (ConvException (''Key '' @ to_string (int (length (mappings p)) + 1) @ '' is empty''))
         else Inr p)
      else if mKey p = [] then
        (if is_digit 10 c then Inr (add_key c (push_map MAP_KEY p))
         else Inl (ConvException (''string key should start with '' @ [CHR 0x22])))
      else
        Inr (add_value c (push_map MAP_VALUE
          (if mValueType p = VT_NONE \<and> is_digit 10 c then p\<lparr>mValueType := VT_INT\<rparr> else p))))"

definition key_map :: "char \<Rightarrow> map_parser \<Rightarrow> cpp_exn + map_parser" where
  "key_map c p =
     (if c = CHR ''{'' \<or> c = CHR ''}'' \<or> c = CHR 0x5C \<or> c = CHR 0x22 \<or> c = CHR '','' then key_error [c]
      else if c = CHR '' '' \<or> c = CHR '':'' then Inr (pop_map p)
      else if \<not> is_digit 10 c \<and> c \<noteq> CHR ''x''
      then Inl (ConvException (''Invalid char '' @ to_string (sint (char_register c)) @ '' in int key''))
      else Inr (add_key c p))"

definition value_map :: "char \<Rightarrow> map_parser \<Rightarrow> cpp_exn + map_parser" where
  "value_map c p =
     (if c = CHR ''{'' \<or> c = CHR '':'' then Inr (add_value c p)
      else if c = CHR ''}'' then
        (if mValueType p = VT_INT then addMapping p
         else Inl (ConvException ''Internal parser error: unknown value type on closing brace''))
      else if c = CHR 0x5C then Inr (push_map MAP_ESCAPE p)
      else if c = CHR 0x22 then
        (case mValueType p of
           VT_NONE \<Rightarrow> Inr (p\<lparr>mValueType := VT_STRING\<rparr>)
         | VT_STRING \<Rightarrow> addMapping p
         | VT_INT \<Rightarrow> Inl (ConvException ([CHR 0x22] @ '' in int value is not allowed'')))
      else if c = CHR '' '' then
        (case mValueType p of
           VT_INT \<Rightarrow> Inr (pop_map p)
         | VT_STRING \<Rightarrow> Inr (add_value c p)
         | VT_NONE \<Rightarrow> Inr p)
      else if c = CHR '','' then
        (if mValueType p = VT_INT then addMapping p else Inr (add_value c p))
      else
        Inr (add_value c
          (if mValueType p = VT_NONE \<and> is_digit 10 c then p\<lparr>mValueType := VT_INT\<rparr> else p)))"

definition map_char :: "char \<Rightarrow> map_parser \<Rightarrow> cpp_exn + map_parser" where
  "map_char c p =
     (case mapStates p of
        [] \<Rightarrow> Inl Undefined
      | MAP_SCAN # _ \<Rightarrow> scan_map c p
      | MAP_KEY # _ \<Rightarrow> key_map c p
      | MAP_VALUE # _ \<Rightarrow> value_map c p
      | MAP_ESCAPE # _ \<Rightarrow> addEscapedChar c p)"

fun map_chars :: "string \<Rightarrow> map_parser \<Rightarrow> cpp_exn + map_parser" where
  "map_chars [] p = Inr p"
| "map_chars (c # cs) p = bindE (map_char c p) (map_chars cs)"

definition parseMap :: "string \<Rightarrow> cpp_exn + map_entry list" where
  "parseMap data = bindE (map_chars data new_map_parser) (\<lambda>p. Inr (mappings p))"

definition map_class :: "(double_bits \<Rightarrow> int \<Rightarrow> string) \<Rightarrow> converter_class" where
  "map_class format =
     \<lparr>classArgs = [string_arg ''map'' ARG_STRING []],
      classSetArgs = (\<lambda>vs. bindE (getArgValue ''map'' vs) (\<lambda>val.
        bindE (parseMap (as_str val)) (\<lambda>ms. Inr (map_converter format ms)))),
      classFresh = map_converter format []\<rparr>"

section \<open>What the parser builds\<close>

fun variant_ok :: "map_variant \<Rightarrow> bool" where
  "variant_ok (MapInt v) = in_int v"
| "variant_ok (MapStr s) = (c_str s = s)"

text \<open>No register and no value is mapped twice.\<close>

definition entries_ok :: "map_entry list \<Rightarrow> bool" where
  "entries_ok ms \<longleftrightarrow> distinct (map mapRegister ms) \<and> distinct (map mapVariant ms) \<and>
     list_all (\<lambda>m. variant_ok (mapVariant m)) ms"

lemma c_str_idem [simp]: "c_str (c_str s) = c_str s"
  by (auto simp: c_str_def dest: set_takeWhileD)

lemma parsed_variant_ok: "parsed_variant p = Inr v \<Longrightarrow> variant_ok v"
  by (auto simp: parsed_variant_def atoi_def fault_simps in_int_def INT_MIN_def INT_MAX_def
      split: if_splits option.splits)

lemma find_None_map: "find P xs = None \<longleftrightarrow> (\<forall>x \<in> set xs. \<not> P x)"
  by (induction xs) auto

lemma addMapping_entries:
  "addMapping p = Inr q \<Longrightarrow> entries_ok (mappings p) \<Longrightarrow> entries_ok (mappings q)"
  by (auto simp: addMapping_def fault_simps entries_ok_def pop_map_def findRegValue_def find_None_map
      list_ex_iff parsed_variant_ok split: if_splits)

lemmas map_stack_defs = push_map_def pop_map_def add_value_def add_key_def

text \<open>A character is stored elsewhere or completes a mapping.\<close>

definition keeps_mappings :: "map_parser \<Rightarrow> cpp_exn + map_parser \<Rightarrow> bool" where
  "keeps_mappings p r \<longleftrightarrow> (\<forall>q. r = Inr q \<longrightarrow> mappings q = mappings p \<or> addMapping p = Inr q)"

lemma keeps_mappings_simps [simp]:
  "keeps_mappings p (Inl e)" "keeps_mappings p (addMapping p)"
  "keeps_mappings p (Inr q) \<longleftrightarrow> mappings q = mappings p \<or> addMapping p = Inr q"
  by (simp_all add: keeps_mappings_def)

lemma mappings_stack [simp]:
  "mappings (push_map st p) = mappings p" "mappings (pop_map p) = mappings p"
  "mappings (add_value c p) = mappings p" "mappings (add_key c p) = mappings p"
  by (simp_all add: map_stack_defs)

lemma map_char_mappings: "keeps_mappings p (map_char c p)"
proof -
  have "keeps_mappings p (scan_map c p)" "keeps_mappings p (key_map c p)"
    "keeps_mappings p (value_map c p)"
    by (simp_all add: scan_map_def key_map_def value_map_def split: map_value_type.split)
  moreover have "keeps_mappings p (addEscapedChar c p)"
    by (simp add: addEscapedChar_def Let_def split: list.split map_state.split)
  ultimately show ?thesis by (simp add: map_char_def split: list.split map_state.split)
qed

lemma map_chars_entries:
  "map_chars cs p = Inr q \<Longrightarrow> entries_ok (mappings p) \<Longrightarrow> entries_ok (mappings q)"
proof (induction cs arbitrary: p)
  case (Cons c cs)
  then obtain r where r: "map_char c p = Inr r" "map_chars cs r = Inr q"
    by (auto simp: fault_simps)
  have "entries_ok (mappings r)"
    using map_char_mappings [of p c] addMapping_entries [of p r] Cons.prems(2) r(1) by auto
  then show ?case using Cons.IH r by blast
qed simp

lemma parseMap_entries: "parseMap data = Inr ms \<Longrightarrow> entries_ok ms"
  using map_chars_entries [of data new_map_parser]
  by (auto simp: parseMap_def fault_simps new_map_parser_def entries_ok_def)

section \<open>Both directions\<close>

lemma findRegValue_mem:
  "distinct (map mapRegister ms) \<Longrightarrow> m \<in> set ms \<Longrightarrow> findRegValue (mapRegister m) ms = Some m"
  by (induction ms) (auto simp: findRegValue_def image_iff)

text \<open>All values are numbers, or all are strings.\<close>

definition homogeneous :: "map_entry list \<Rightarrow> bool" where
  "homogeneous ms \<longleftrightarrow>
     list_all (\<lambda>m. case mapVariant m of MapInt _ \<Rightarrow> True | MapStr _ \<Rightarrow> False) ms \<or>
     list_all (\<lambda>m. case mapVariant m of MapInt _ \<Rightarrow> False | MapStr _ \<Rightarrow> True) ms"

lemma findVariant_int:
  assumes "list_all (\<lambda>m. case mapVariant m of MapInt _ \<Rightarrow> True | MapStr _ \<Rightarrow> False) ms"
    and "getInt x = Inr v"
  shows "findVariant format x ms = Inr (find (\<lambda>m. mapVariant m = MapInt v) ms)"
  using assms by (induction ms) (auto split: map_variant.splits)

lemma findVariant_str:
  assumes "list_all (\<lambda>m. case mapVariant m of MapInt _ \<Rightarrow> False | MapStr _ \<Rightarrow> True) ms"
  shows "findVariant format x ms = Inr (find (\<lambda>m. mapVariant m = MapStr (getString format x)) ms)"
  using assms by (induction ms) (auto split: map_variant.splits)

lemma find_variant_mem:
  "distinct (map mapVariant ms) \<Longrightarrow> m \<in> set ms \<Longrightarrow> find (\<lambda>n. mapVariant n = mapVariant m) ms = Some m"
  by (induction ms) (auto simp: image_iff)

text \<open>The MQTT value of an entry, and its text.\<close>

fun variant_value :: "map_variant \<Rightarrow> mqtt_value" where
  "variant_value (MapInt v) = IntValue v"
| "variant_value (MapStr s) = BinaryValue s"

fun variant_print :: "map_variant \<Rightarrow> string" where
  "variant_print (MapInt v) = to_string v"
| "variant_print (MapStr s) = s"

lemma mapped_to_mqtt:
  assumes "entries_ok ms" and "m \<in> set ms"
  shows "map_toMqtt ms [mapRegister m] = Inr (variant_value (mapVariant m))"
    and "getString format (variant_value (mapVariant m)) = variant_print (mapVariant m)"
proof -
  have "variant_ok (mapVariant m)" using assms by (auto simp: entries_ok_def list_all_iff)
  then show "map_toMqtt ms [mapRegister m] = Inr (variant_value (mapVariant m))"
    "getString format (variant_value (mapVariant m)) = variant_print (mapVariant m)"
    using assms findRegValue_mem [of ms m]
    by (cases "mapVariant m"; simp add: map_toMqtt_def entries_ok_def fromString_def)+
qed

lemma mapped_to_modbus:
  assumes ok: "entries_ok ms" and hom: "homogeneous ms" and m: "m \<in> set ms"
    and v: "v = variant_value (mapVariant m) \<or> v = BinaryValue (variant_print (mapVariant m))"
  shows "map_toModbus format ms v 1 = Inr [mapRegister m]"
proof (cases "mapVariant m")
  case (MapInt i)
  then have all: "list_all (\<lambda>m. case mapVariant m of MapInt _ \<Rightarrow> True | MapStr _ \<Rightarrow> False) ms"
    using hom m by (auto simp: homogeneous_def list_all_iff split: map_variant.splits)
  have "in_int i" using ok m MapInt by (auto simp: entries_ok_def list_all_iff)
  then have "getInt v = Inr i" using v MapInt getInt_text by (auto simp del: getInt.simps(1))
  then show ?thesis
    using find_variant_mem [of ms m] ok m MapInt findVariant_int [OF all, of v i format]
    by (simp add: map_toModbus_def entries_ok_def)
next
  case (MapStr s)
  then have all: "list_all (\<lambda>m. case mapVariant m of MapInt _ \<Rightarrow> False | MapStr _ \<Rightarrow> True) ms"
    using hom m by (auto simp: homogeneous_def list_all_iff split: map_variant.splits)
  have "v = BinaryValue s" using v MapStr by auto
  then show ?thesis
    using find_variant_mem [of ms m] ok m MapStr findVariant_str [OF all, of format "BinaryValue s"]
    by (simp add: map_toModbus_def entries_ok_def)
qed

lemma unmapped_to_mqtt:
  "r \<notin> mapRegister ` set ms \<Longrightarrow> map_toMqtt ms [r] = Inr (IntValue (uint r))"
  using find_None_iff [of "\<lambda>m. mapRegister m = r" ms]
  by (auto simp: map_toMqtt_def findRegValue_def)

section \<open>Writing a map\<close>

definition map_special :: "char \<Rightarrow> bool" where
  "map_special c \<longleftrightarrow> c = CHR 0x22 \<or> c = CHR 0x5C \<or> c = CHR ''}''"

definition map_escaped :: "string \<Rightarrow> string" where
  "map_escaped s = concat (map (\<lambda>c. if map_special c then [CHR 0x5C, c] else [c]) s)"

fun variant_text :: "map_variant \<Rightarrow> string" where
  "variant_text (MapInt v) = to_string v"
| "variant_text (MapStr s) = CHR 0x22 # map_escaped s @ [CHR 0x22]"

definition entry_text :: "map_entry \<Rightarrow> string" where
  "entry_text m = to_string (uint (mapRegister m)) @ CHR '':'' # variant_text (mapVariant m)"

fun entries_text :: "map_entry list \<Rightarrow> string" where
  "entries_text [] = ''}''"
| "entries_text [m] = entry_text m @ ''}''"
| "entries_text (m # ms) = entry_text m @ CHR '','' # entries_text ms"

definition map_text :: "map_entry list \<Rightarrow> string" where
  "map_text ms = CHR ''{'' # entries_text ms"

definition at_scan :: "map_parser \<Rightarrow> bool" where
  "at_scan p \<longleftrightarrow> mapStates p = [MAP_SCAN] \<and> mKey p = [] \<and> mValueType p = VT_NONE \<and> mapValue p = []"

lemma map_chars_append: "map_chars (s @ t) p = bindE (map_chars s p) (map_chars t)"
proof (induction s arbitrary: p)
  case (Cons c s)
  then show ?case by (cases "map_char c p") simp_all
qed simp

lemma digit_not_special_map:
  "is_digit 10 c \<Longrightarrow> c \<notin> {CHR ''{'', CHR ''}'', CHR 0x5C, CHR 0x22, CHR '' '', CHR '','', CHR '':''}"
  by (auto simp: is_digit_code)

lemma key_digits:
  "list_all (is_digit 10) ds \<Longrightarrow> mapStates p = MAP_KEY # st \<Longrightarrow>
   map_chars ds p = Inr (p\<lparr>mKey := mKey p @ ds\<rparr>)"
proof (induction ds arbitrary: p)
  case (Cons d ds)
  then have "map_char d p = Inr (add_key d p)"
    using digit_not_special_map [of d] by (simp add: map_char_def key_map_def)
  then show ?case using Cons by (simp add: add_key_def)
qed simp

lemma parse_key:
  assumes "at_scan p"
  shows "map_chars (nat_string n @ CHR '':'' # t) p = map_chars t (p\<lparr>mKey := nat_string n\<rparr>)"
proof -
  obtain d ds where d: "nat_string n = d # ds" "is_digit 10 d" "list_all (is_digit 10) ds"
    using nat_string_digits [of n] by (cases "nat_string n") auto
  let ?p = "add_key d (push_map MAP_KEY p)"
  have "map_char d p = Inr ?p"
    using assms d digit_not_special_map [of d] by (simp add: map_char_def scan_map_def at_scan_def)
  moreover have "map_chars ds ?p = Inr (?p\<lparr>mKey := nat_string n\<rparr>)"
    using key_digits [OF d(3), of ?p] assms d by (simp add: map_stack_defs at_scan_def)
  moreover have "map_char (CHR '':'') (?p\<lparr>mKey := nat_string n\<rparr>) = Inr (p\<lparr>mKey := nat_string n\<rparr>)"
    using assms by (cases p) (simp add: map_char_def key_map_def map_stack_defs at_scan_def)
  ultimately show ?thesis by (simp add: d(1) map_chars_append)
qed

lemma parse_escaped:
  "mapStates p = MAP_VALUE # st \<Longrightarrow> mValueType p = VT_STRING \<Longrightarrow>
   map_chars (map_escaped s) p = Inr (p\<lparr>mapValue := mapValue p @ s\<rparr>)"
proof (induction s arbitrary: p)
  case (Cons c s)
  have "map_chars (if map_special c then [CHR 0x5C, c] else [c]) p = Inr (add_value c p)"
    using Cons.prems
    by (cases p) (auto simp: map_special_def map_char_def value_map_def addEscapedChar_def map_stack_defs)
  moreover have "map_chars (map_escaped s) (add_value c p) =
      Inr ((add_value c p)\<lparr>mapValue := mapValue (add_value c p) @ s\<rparr>)"
    using Cons.prems by (intro Cons.IH) (simp_all add: add_value_def)
  ultimately show ?case by (simp add: map_escaped_def map_chars_append add_value_def)
qed (simp add: map_escaped_def)

lemma value_digits:
  "list_all (is_digit 10) ds \<Longrightarrow> mapStates p = MAP_VALUE # st \<Longrightarrow> ds \<noteq> [] \<Longrightarrow>
   mValueType p \<noteq> VT_STRING \<Longrightarrow>
   map_chars ds p = Inr (p\<lparr>mapValue := mapValue p @ ds, mValueType := VT_INT\<rparr>)"
proof (induction ds arbitrary: p)
  case (Cons d ds)
  let ?p = "p\<lparr>mapValue := mapValue p @ [d], mValueType := VT_INT\<rparr>"
  have "map_char d p = Inr ?p"
    using Cons.prems digit_not_special_map [of d]
    by (cases p; cases "mValueType p") (simp_all add: map_char_def value_map_def add_value_def)
  then show ?case
    using Cons by (cases "ds = []") simp_all
qed simp

lemma parse_number:
  assumes "mapStates p = [MAP_SCAN]" and "mKey p \<noteq> []" and "mValueType p = VT_NONE" and "mapValue p = []"
  shows "map_chars (to_string v) p =
    Inr (p\<lparr>mapStates := [MAP_VALUE, MAP_SCAN], mapValue := to_string v, mValueType := VT_INT\<rparr>)"
proof (cases "v < 0")
  case True
  let ?p = "add_value (CHR ''-'') (push_map MAP_VALUE p)"
  have "\<not> is_digit 10 (CHR ''-'')" by code_simp
  then have "map_char (CHR ''-'') p = Inr ?p"
    using assms by (simp add: map_char_def scan_map_def)
  moreover have "map_chars (nat_string (nat (- v))) ?p =
      Inr (?p\<lparr>mapValue := mapValue ?p @ nat_string (nat (- v)), mValueType := VT_INT\<rparr>)"
    using assms nat_string_digits [of "nat (- v)"]
    by (intro value_digits [where st = "[MAP_SCAN]"]) (simp_all add: map_stack_defs)
  ultimately show ?thesis using True assms by (cases p) (simp add: to_string_def map_stack_defs)
next
  case False
  obtain d ds where d: "nat_string (nat v) = d # ds" "is_digit 10 d" "list_all (is_digit 10) ds"
    using nat_string_digits [of "nat v"] by (cases "nat_string (nat v)") auto
  let ?p = "p\<lparr>mapStates := [MAP_VALUE, MAP_SCAN], mapValue := [d], mValueType := VT_INT\<rparr>"
  have "map_char d p = Inr ?p"
    using assms d digit_not_special_map [of d]
    by (cases p) (simp add: map_char_def scan_map_def map_stack_defs)
  moreover have "map_chars ds ?p = Inr (?p\<lparr>mapValue := d # ds, mValueType := VT_INT\<rparr>)"
    using value_digits [OF d(3), of ?p "[MAP_SCAN]"] by (cases "ds = []") simp_all
  ultimately show ?thesis using False d by (simp add: to_string_def)
qed

lemma key_value: "getUInt16 (fromString (to_string (uint (r :: u16)))) = Inr r"
proof -
  have "getInt (BinaryValue (to_string (uint r))) = Inr (uint r)"
    by (intro getInt_text uint16_in_int)
  then show ?thesis
    using uint16_bounds [of r]
    by (simp add: getUInt16_def fromString_def c_str_to_string UINT16_MAX_def del: getInt.simps(1))
qed

lemma atoi_to_string: "in_int v \<Longrightarrow> atoi (to_string v) = Inr v"
  using strtol_to_string [of "[]" v] by (simp add: atoi_def c_str_to_string)

text \<open>A parser that has read a whole entry stores it.\<close>

lemma store_entry:
  assumes "at_scan p" and "mapRegister m \<notin> mapRegister ` set (mappings p)"
    and "mapVariant m \<notin> mapVariant ` set (mappings p)"
    and "parsed_variant q = Inr (mapVariant m)" and "mKey q = to_string (uint (mapRegister m))"
    and "mappings q = mappings p" and "mapStates q = [MAP_VALUE, MAP_SCAN]"
  shows "addMapping q = Inr (p\<lparr>mappings := mappings p @ [m]\<rparr>)"
proof -
  have "findRegValue (mapRegister m) (mappings q) = None"
    using assms(2,6) by (auto simp: findRegValue_def find_None_map image_iff)
  moreover have "\<not> list_ex (\<lambda>n. mapVariant n = mapVariant m) (mappings q)"
    using assms(3,6) by (force simp: list_ex_iff image_iff)
  ultimately show ?thesis
    using assms key_value [of "mapRegister m"]
    by (cases p; cases q; cases m) (simp add: addMapping_def pop_map_def at_scan_def)
qed

lemma parse_entry:
  assumes p: "at_scan p" and fresh: "mapRegister m \<notin> mapRegister ` set (mappings p)"
      "mapVariant m \<notin> mapVariant ` set (mappings p)"
    and ok: "variant_ok (mapVariant m)" and sep: "c = CHR '','' \<or> c = CHR ''}''"
  shows "map_chars (entry_text m @ c # t) p = map_chars t (p\<lparr>mappings := mappings p @ [m]\<rparr>)"
proof -
  let ?k = "to_string (uint (mapRegister m))"
  let ?q = "p\<lparr>mKey := ?k\<rparr>" and ?new = "p\<lparr>mappings := mappings p @ [m]\<rparr>"
  have k: "?k = nat_string (nat (uint (mapRegister m)))" by (simp add: to_string_def)
  have key: "map_chars (entry_text m @ c # t) p = map_chars (variant_text (mapVariant m) @ c # t) ?q"
    using parse_key [OF p, of "nat (uint (mapRegister m))"] by (simp add: entry_text_def k)
  show ?thesis
  proof (cases "mapVariant m")
    case (MapInt v)
    let ?r = "?q\<lparr>mapStates := [MAP_VALUE, MAP_SCAN], mapValue := to_string v, mValueType := VT_INT\<rparr>"
    have "map_chars (to_string v) ?q = Inr ?r"
      using p by (intro parse_number) (simp_all add: at_scan_def)
    moreover have "addMapping ?r = Inr ?new"
      using ok MapInt by (intro store_entry [OF p fresh]) (simp_all add: parsed_variant_def atoi_to_string)
    then have "map_char c ?r = Inr ?new"
      using sep by (auto simp: map_char_def value_map_def)
    ultimately show ?thesis using key MapInt by (simp add: map_chars_append)
  next
    case (MapStr s)
    let ?o = "?q\<lparr>mapStates := [MAP_VALUE, MAP_SCAN], mValueType := VT_STRING\<rparr>"
    let ?r = "?o\<lparr>mapValue := s\<rparr>"
    have opened: "map_char (CHR 0x22) ?q = Inr ?o"
      using p by (cases p) (simp add: map_char_def scan_map_def push_map_def at_scan_def)
    have body: "map_chars (map_escaped s) ?o = Inr ?r"
      using parse_escaped [of ?o "[MAP_SCAN]" s] p by (simp add: at_scan_def)
    have "addMapping ?r = Inr ?new"
      using ok MapStr by (intro store_entry [OF p fresh]) (simp_all add: parsed_variant_def)
    then have closed: "map_char (CHR 0x22) ?r = Inr ?new" by (simp add: map_char_def value_map_def)
    have "map_char c ?new = Inr ?new"
      using p sep by (auto simp: map_char_def scan_map_def at_scan_def)
    then show ?thesis using key MapStr opened body closed by (simp add: map_chars_append)
  qed
qed

lemma parse_entries:
  "at_scan p \<Longrightarrow> entries_ok (mappings p @ ms) \<Longrightarrow>
   map_chars (entries_text ms) p = Inr (p\<lparr>mappings := mappings p @ ms\<rparr>)"
proof (induction ms arbitrary: p rule: entries_text.induct)
  case 1
  then show ?case by (simp add: map_char_def scan_map_def at_scan_def)
next
  case (2 m)
  then show ?case by (auto simp: parse_entry entries_ok_def)
next
  case (3 m m' ms)
  let ?p = "p\<lparr>mappings := mappings p @ [m]\<rparr>"
  have "map_chars (entries_text (m # m' # ms)) p = map_chars (entries_text (m' # ms)) ?p"
    using 3 by (auto simp: parse_entry entries_ok_def)
  also have "\<dots> = Inr (?p\<lparr>mappings := mappings ?p @ m' # ms\<rparr>)"
    using 3 by (intro "3.IH") (simp_all add: at_scan_def)
  finally show ?case by simp
qed

lemma parseMap_text: "entries_ok ms \<Longrightarrow> parseMap (map_text ms) = Inr ms"
proof -
  assume "entries_ok ms"
  then have "map_chars (entries_text ms) new_map_parser = Inr (new_map_parser\<lparr>mappings := ms\<rparr>)"
    using parse_entries [of new_map_parser ms] by (simp add: at_scan_def new_map_parser_def)
  moreover have "map_char (CHR ''{'') new_map_parser = Inr new_map_parser"
    by (simp add: map_char_def scan_map_def new_map_parser_def)
  ultimately show ?thesis by (simp add: parseMap_def map_text_def)
qed

section \<open>Results\<close>

text \<open>
  C39: every list of entries that maps no register value and no MQTT value twice, with numbers in the
  range of an \<open>int\<close> and strings without the character 0, can be written as an argument of \<open>std.map\<close>, and the parser reads exactly these entries back. A mapped register value is
  then published as the number or string of its entry, every other one as itself. If moreover the
  values of the map are all numbers or all strings, writing the value of an entry, or the text that
  is published for it, gives its register value back.
\<close>

theorem map_converter_both_ways:
  assumes "entries_ok ms" and "m \<in> set ms"
  shows "parseMap (map_text ms) = Inr ms \<and>
    (let conv = map_converter format ms; v = variant_value (mapVariant m)
     in toMqtt conv [mapRegister m] = Inr v \<and> getString format v = variant_print (mapVariant m) \<and>
        (\<forall>r. r \<notin> mapRegister ` set ms \<longrightarrow> toMqtt conv [r] = Inr (IntValue (uint r))) \<and>
        (homogeneous ms \<longrightarrow>
           toModbus conv v 1 = Inr [mapRegister m] \<and>
           toModbus conv (BinaryValue (variant_print (mapVariant m))) 1 = Inr [mapRegister m]))"
  using parseMap_text [OF assms(1)] mapped_to_mqtt [OF assms]
    mapped_to_modbus [OF assms(1) _ assms(2)] unmapped_to_mqtt [of _ ms]
  by (simp add: map_converter_def Let_def)

definition demo_map :: "map_entry list" where
  "demo_map = [\<lparr>mapRegister = 1, mapVariant = MapStr ''a}b''\<rparr>, \<lparr>mapRegister = 7, mapVariant = MapStr ''on''\<rparr>]"

theorem map_converter_both_ways_witness:
  "parseMap (map_text demo_map) = Inr demo_map \<and>
   toMqtt (map_converter (\<lambda>_ _. []) demo_map) [1] = Inr (BinaryValue ''a}b'') \<and>
   toMqtt (map_converter (\<lambda>_ _. []) demo_map) [2] = Inr (IntValue 2) \<and>
   toModbus (map_converter (\<lambda>_ _. []) demo_map) (BinaryValue ''a}b'') 1 = Inr [1]"
proof -
  have "entries_ok demo_map" "homogeneous demo_map"
    by (simp_all add: entries_ok_def homogeneous_def demo_map_def c_str_def)
  moreover have "\<lparr>mapRegister = 1, mapVariant = MapStr ''a}b''\<rparr> \<in> set demo_map"
    "2 \<notin> mapRegister ` set demo_map"
    by (simp_all add: demo_map_def)
  ultimately show ?thesis
    using map_converter_both_ways [of demo_map "\<lparr>mapRegister = 1, mapVariant = MapStr ''a}b''\<rparr>" "\<lambda>_ _. []"]
    by (auto simp: Let_def)
qed

text \<open>
  Where it does not work: a blank after a number lets the next entry run into it, a closing brace
  in a string is an error, a key in quotes is an error, an unfinished entry is dropped, and a string
  cannot be written if a number is mapped before it.
\<close>

lemma blank_joins_entries:
  "parseMap ''{1:2 ,3:4}'' = Inr [\<lparr>mapRegister = 1, mapVariant = MapInt 23\<rparr>]"
  by code_simp

lemma brace_in_string_refused:
  "parseMap (''{1:'' @ [CHR 0x22] @ ''a}'' @ [CHR 0x22] @ ''}'') =
     Inl (ConvException ''Internal parser error: unknown value type on closing brace'')"
  by code_simp

lemma unfinished_entry_dropped: "parseMap ''{1:2,3:4'' = Inr [\<lparr>mapRegister = 1, mapVariant = MapInt 2\<rparr>]"
  by code_simp

lemma string_after_number_refused:
  "toModbus (map_converter format [\<lparr>mapRegister = 1, mapVariant = MapInt 5\<rparr>,
      \<lparr>mapRegister = 2, mapVariant = MapStr ''on''\<rparr>]) (BinaryValue ''on'') 1 =
   Inl (ConvException ''Cannot convert on to int'')"
proof -
  have "getInt (BinaryValue ''on'') = Inl (ConvException ''Cannot convert on to int'')" by code_simp
  then show ?thesis by (simp add: map_converter_def map_toModbus_def del: getInt.simps)
qed

end
