(* ===== verification/Gateway_Objects.thy ===== *)
theory Gateway_Objects
  imports Mqtt_Client Standard_Converters
begin

text \<open>
  The part of \<open>modmqtt.cpp\<close> that reads one MQTT object of the configuration: the names of registers,
  the trees of data nodes with the polls they ask for, the commands and the converters. The polls
  are collected in \<open>pSpecsOut\<close>, one specification for each network. The checks of debug builds in
  the constructor of \<open>MsgRegisterPoll\<close> are left out.
\<close>

section \<open>Register names\<close>

fun split_on :: "char \<Rightarrow> string \<Rightarrow> string list" where
  "split_on sep [] = [[]]"
| "split_on sep (c # s) =
     (if c = sep then [] # split_on sep s
      else (case split_on sep s of [] \<Rightarrow> [[c]] | p # ps \<Rightarrow> (c # p) # ps))"

definition is_letter :: "char \<Rightarrow> bool" where
  "is_letter c \<longleftrightarrow> (let n = of_char c :: nat in 65 \<le> n \<and> n \<le> 90 \<or> 97 \<le> n \<and> n \<le> 122)"

definition is_network_part :: "string \<Rightarrow> bool" where
  "is_network_part s \<longleftrightarrow>
     length s \<ge> 2 \<and> is_letter (hd s) \<and> list_all (\<lambda>c. is_letter c \<or> is_digit 10 c) (tl s)"

definition is_slave_part :: "string \<Rightarrow> bool" where
  "is_slave_part s \<longleftrightarrow> s \<noteq> [] \<and> list_all (is_digit 10) s"

definition is_register_part :: "string \<Rightarrow> bool" where
  "is_register_part s \<longleftrightarrow>
     (let r = (if prefix ''0x'' s \<or> prefix ''0X'' s then drop 2 s else s)
      in r \<noteq> [] \<and> list_all (is_digit 16) r)"

text \<open>
  The groups of \<open>^([a-zA-Z][a-zA-Z0-9]+\.)?([0-9]+\.)?((0[xX])?[0-9a-fA-F]+)$\<close> without the dots,
  empty where a group did not take part.
\<close>

definition match_register :: "string \<Rightarrow> (string \<times> string \<times> string) option" where
  "match_register s =
     (case split_on (CHR ''.'') s of
        [r] \<Rightarrow> if is_register_part r then Some ([], [], r) else None
      | [a, r] \<Rightarrow>
          if \<not> is_register_part r then None
          else if is_network_part a then Some (a, [], r)
          else if is_slave_part a then Some ([], a, r)
          else None
      | [a, b, r] \<Rightarrow>
          if is_register_part r \<and> is_network_part a \<and> is_slave_part b then Some (a, b, r) else None
      | _ \<Rightarrow> None)"

record register_name =
  rnNetworkName :: string
  rnSlaveId :: int
  rnRegisterNumber :: int

text \<open>A decimal number counts from 1; \<open>std::stoi\<close> reads what it can and ignores the rest.\<close>

definition register_number :: "int option \<Rightarrow> string \<Rightarrow> cpp_exn + int" where
  "register_number mark s =
     bindE (stoi 0 s) (\<lambda>(n, _).
       if length s > 1 \<and> (s ! 1 = CHR ''x'' \<or> s ! 1 = CHR ''X'') then Inr n
       else if n = 0 then Inl (config_exn mark ''Use hex address for 0-based register number'')
       else Inr (n - 1))"

definition new_RegisterConfigName ::
  "'n yaml_lib \<Rightarrow> 'n \<Rightarrow> string \<Rightarrow> int \<Rightarrow> cpp_exn + register_name" where
  "new_RegisterConfigName lib data default_network default_slave =
     (let mark = markLine lib (child lib data ''register'') in
      bindE (readRequiredString lib data ''register'') (\<lambda>str.
      case match_register (c_str (trim str)) of
        None \<Rightarrow> Inl (config_exn mark ''Invalid register specification'')
      | Some (network, slave, reg) \<Rightarrow>
          bindE (if network \<noteq> [] then Inr network
                 else if default_network \<noteq> [] then Inr default_network
                 else Inl (config_exn mark ''Unknown network in register specification'')) (\<lambda>net.
          bindE (if slave \<noteq> [] then bindE (stoi 10 slave) (\<lambda>(n, _). Inr n)
                 else if default_slave \<noteq> -1 then Inr default_slave
                 else Inl (config_exn mark ''Unknown slave id in register specification'')) (\<lambda>slaveId.
          bindE (register_number mark reg) (\<lambda>n.
            Inr \<lparr>rnNetworkName = net, rnSlaveId = slaveId, rnRegisterNumber = n\<rparr>)))))"

section \<open>Enumerations\<close>

definition parseRegisterType :: "'n yaml_lib \<Rightarrow> 'n \<Rightarrow> cpp_exn + register_type" where
  "parseRegisterType lib data =
     bindE (readOptionalInto lib (as_string lib) data ''register_type'' ''holding'') (\<lambda>rtype.
       if rtype = ''coil'' then Inr COIL
       else if rtype = ''input'' then Inr INPUT
       else if rtype = ''holding'' then Inr HOLDING
       else if rtype = ''bit'' then Inr BIT
       else Inl (config_exn (markLine lib data) (''Unknown register type '' @ rtype)))"

definition parsePublishMode :: "'n yaml_lib \<Rightarrow> 'n \<Rightarrow> publish_mode \<Rightarrow> cpp_exn + publish_mode" where
  "parsePublishMode lib data pDefault =
     bindE (readOptionalValue lib (as_string lib) data ''publish_mode'') (\<lambda>v.
       case v of
         None \<Rightarrow> Inr pDefault
       | Some pmode \<Rightarrow>
           if pmode = ''on_change'' then Inr ON_CHANGE
           else if pmode = ''every_poll'' then Inr EVERY_POLL
           else if pmode = ''once'' then Inr ONCE
           else Inl (config_exn (markLine lib data) (''Invalid publish mode '' @ [CHR 0x27] @ pmode @
                  [CHR 0x27] @ '', valid values are: on_change, every_poll'')))"

definition parsePayloadType :: "'n yaml_lib \<Rightarrow> 'n \<Rightarrow> cpp_exn + payload_type" where
  "parsePayloadType lib data =
     bindE (readOptionalInto lib (as_string lib) data ''payload_type'' ''string'') (\<lambda>ptype.
       if ptype = ''string'' then Inr STRING
       else Inl (config_exn (markLine lib data) (''Unknown payload type '' @ ptype)))"

section \<open>Converters\<close>

text \<open>\<open>ConverterPlugin\<close>; \<open>None\<close> is the null pointer.\<close>

record converter_plugin =
  pluginName :: string
  pluginConverter :: "string \<Rightarrow> converter_class option"

definition hasConverterPlugin :: "string \<Rightarrow> converter_plugin list \<Rightarrow> bool" where
  "hasConverterPlugin name plugins \<longleftrightarrow> list_ex (\<lambda>p. pluginName p = name) plugins"

definition createConverterInstance ::
  "converter_plugin list \<Rightarrow> string \<Rightarrow> string \<Rightarrow> converter_class option" where
  "createConverterInstance plugins plugin converter =
     (case find (\<lambda>p. pluginName p = plugin) plugins of
        None \<Rightarrow> None
      | Some p \<Rightarrow> pluginConverter p converter)"

definition createConverterFromString ::
  "converter_plugin list \<Rightarrow> string \<Rightarrow> cpp_exn + data_converter" where
  "createConverterFromString plugins pSpec =
     bindE (parse_converter_name pSpec) (\<lambda>parsed.
       case createConverterInstance plugins (specPlugin parsed) (specConverter parsed) of
         None \<Rightarrow> Inl (ConvNameParserException (''Converter '' @ specPlugin parsed @ ''.'' @
                    specConverter parsed @ '' not found''))
       | Some conv \<Rightarrow>
           if specArguments parsed \<noteq> ''()''
           then bindE (parseArgs (classArgs conv) (specArguments parsed)) (classSetArgs conv)
           else Inr (classFresh conv))"

text \<open>\<open>std::exception\<close> is caught; undefined behaviour is not an exception.\<close>

definition createConverter ::
  "'n yaml_lib \<Rightarrow> (string \<Rightarrow> cpp_exn + data_converter) \<Rightarrow> 'n \<Rightarrow> cpp_exn + data_converter" where
  "createConverter lib create node =
     (if \<not> IsScalar lib node then Inl (config_exn (markLine lib node) ''converter must be a string'')
      else
        bindE (readRequiredNode lib (as_string lib) node) (\<lambda>line.
          case create line of
            Inl Undefined \<Rightarrow> Inl Undefined
          | Inl e \<Rightarrow> Inl (config_exn (markLine lib node) (exn_what e))
          | Inr conv \<Rightarrow> Inr conv))"

definition readConverter ::
  "'n yaml_lib \<Rightarrow> (string \<Rightarrow> cpp_exn + data_converter) \<Rightarrow> 'n \<Rightarrow> cpp_exn + data_converter option" where
  "readConverter lib create node =
     (if IsDefined lib (child lib node ''converter'')
      then bindE (createConverter lib create (child lib node ''converter'')) (\<lambda>conv. Inr (Some conv))
      else Inr None)"

section \<open>Poll specifications\<close>

fun update_spec :: "string \<Rightarrow> msg_register_poll \<Rightarrow> poll_spec list \<Rightarrow> poll_spec list option" where
  "update_spec net poll [] = None"
| "update_spec net poll (s # ss) =
     (if specNetworkName s = net then Some (spec_merge s poll # ss)
      else map_option ((#) s) (update_spec net poll ss))"

definition add_poll :: "string \<Rightarrow> msg_register_poll \<Rightarrow> poll_spec list \<Rightarrow> poll_spec list" where
  "add_poll net poll specs =
     (case update_spec net poll specs of
        Some specs \<Rightarrow> specs
      | None \<Rightarrow> spec_merge (empty_spec net) poll # specs)"

definition updateSpecification ::
  "'n yaml_lib \<Rightarrow> 'n \<Rightarrow> int \<Rightarrow> int \<Rightarrow> string \<Rightarrow> int \<Rightarrow> publish_mode \<Rightarrow> poll_spec list
    \<Rightarrow> cpp_exn + (reg_ident \<times> poll_spec list)" where
  "updateSpecification lib data pRegisterCount pCurrentRefresh pDefaultNetwork pDefaultSlaveId
       pCurrentMode specs =
     bindE (new_RegisterConfigName lib data pDefaultNetwork pDefaultSlaveId) (\<lambda>rname.
     bindE (parseRegisterType lib data) (\<lambda>ty.
       let poll = (new_register_poll (rnSlaveId rname) (rnRegisterNumber rname) ty pRegisterCount)
             \<lparr>mRefreshMsec := pCurrentRefresh, mPublishMode := pCurrentMode\<rparr>
       in Inr (\<lparr>idNetworkName = rnNetworkName rname, idSlaveId = rnSlaveId rname,
                idRegisterNumber = mRegister poll, idRegisterType = mRegisterType poll\<rparr>,
               add_poll (rnNetworkName rname) poll specs)))"

section \<open>Data nodes\<close>

text \<open>
  A node before its register is known. \<open>null_ident\<close> stands for the null pointer \<open>mIdent\<close>; the
  network of a register that was read is never empty.
\<close>

definition null_ident :: reg_ident where
  "null_ident =
     \<lparr>idNetworkName = [], idSlaveId = 0, idRegisterNumber = 0, idRegisterType = HOLDING\<rparr>"

definition new_node :: "string \<Rightarrow> data_converter option \<Rightarrow> data_node" where
  "new_node name conv = DataNode name [] False null_ident new_value (map_option toMqtt conv)"

definition setScalarNode :: "reg_ident \<Rightarrow> data_node \<Rightarrow> data_node" where
  "setScalarNode i n =
     (case n of DataNode name ns forced _ v conv \<Rightarrow> DataNode name ns forced i v conv)"

text \<open>The nodes of \<open>count\<close> registers from the first one. The end is an \<open>int\<close>.\<close>

definition register_nodes :: "reg_ident \<Rightarrow> int \<Rightarrow> data_node \<Rightarrow> cpp_exn + data_node" where
  "register_nodes first n node =
     (let end_idx = idRegisterNumber first + n in
      if n = 1 then Inr (setScalarNode first node)
      else if \<not> in_int end_idx then Inl Undefined
      else Inr (fold (\<lambda>i node. addChildDataNode
                        (setScalarNode (first\<lparr>idRegisterNumber := i\<rparr>) (new_node [] None)) False node)
                  [idRegisterNumber first..end_idx - 1] node))"

text \<open>The shortest refresh of the object so far, and the specifications so far.\<close>

type_synonym parse_state = "int \<times> poll_spec list"

text \<open>
  The list of \<open>registers\<close>. Whether all children are named is asked of the parent itself, so the
  error is never raised.
\<close>

fun parse_children ::
  "'n yaml_lib \<Rightarrow> ('n \<Rightarrow> parse_state \<Rightarrow> cpp_exn + (data_node \<times> parse_state)) \<Rightarrow> bool \<Rightarrow> 'n list
    \<Rightarrow> data_node \<Rightarrow> parse_state \<Rightarrow> cpp_exn + (data_node \<times> parse_state)" where
  "parse_children lib parse unnamed [] node st = Inr (node, st)"
| "parse_children lib parse unnamed (y # ys) node st =
     bindE (parse y st) (\<lambda>(childNode, st).
       if isUnnamed node \<noteq> unnamed
       then Inl (config_exn (markLine lib y) ''All list elements must be named or unnamed'')
       else parse_children lib parse unnamed ys (addChildDataNode childNode True node) st)"

definition parse_registers ::
  "'n yaml_lib \<Rightarrow> 'n \<Rightarrow> string \<Rightarrow> int \<Rightarrow> int \<Rightarrow> publish_mode \<Rightarrow> data_node \<Rightarrow> parse_state
    \<Rightarrow> cpp_exn + (data_node \<times> parse_state)" where
  "parse_registers lib pNode net slave refresh pMode node st =
     bindE (readOptionalInto lib (as_int lib) pNode ''count'' 1) (\<lambda>count.
     bindE (updateSpecification lib pNode count refresh net slave pMode (snd st)) (\<lambda>(first, specs).
     bindE (register_nodes first count node) (\<lambda>node.
       Inr (node, (fst st, specs)))))"

definition parse_node_body ::
  "'n yaml_lib \<Rightarrow> ('n \<Rightarrow> parse_state \<Rightarrow> cpp_exn + (data_node \<times> parse_state)) \<Rightarrow> 'n \<Rightarrow> string \<Rightarrow> int
    \<Rightarrow> int \<Rightarrow> publish_mode \<Rightarrow> data_node \<Rightarrow> parse_state \<Rightarrow> cpp_exn + (data_node \<times> parse_state)" where
  "parse_node_body lib parse pNode net slave refresh pMode node st =
     (let yRegisters = child lib pNode ''registers'' in
      if IsDefined lib yRegisters then
        (if \<not> IsSequence lib yRegisters
         then Inl (config_exn (markLine lib yRegisters)
                ([CHR 0x27] @ ''registers'' @ [CHR 0x27] @ '' must be a list''))
         else parse_children lib parse (isUnnamed node) (elements lib yRegisters) node st)
      else parse_registers lib pNode net slave refresh pMode node st)"

text \<open>
  \<open>parseObjectDataNode\<close> recurses into the elements of \<open>registers\<close>. The first argument bounds the
  nesting; the height of the node plus one is enough for a finite document.
\<close>

fun parseObjectDataNode ::
  "nat \<Rightarrow> 'n yaml_lib \<Rightarrow> (string \<Rightarrow> cpp_exn + data_converter) \<Rightarrow> string \<Rightarrow> int \<Rightarrow> publish_mode
    \<Rightarrow> int \<Rightarrow> 'n \<Rightarrow> parse_state \<Rightarrow> cpp_exn + (data_node \<times> parse_state)" where
  "parseObjectDataNode 0 lib create net slave pMode pRefresh pNode st = Inl Undefined"
| "parseObjectDataNode (Suc depth) lib create net slave pMode pRefresh pNode (every, specs) =
     bindE (readOptionalInto lib (as_string lib) pNode ''name'' []) (\<lambda>name.
     bindE (readOptionalValue lib (as_msec lib) pNode ''refresh'') (\<lambda>r.
     let refresh = (case r of None \<Rightarrow> pRefresh | Some t \<Rightarrow> t);
         every = (case r of None \<Rightarrow> every | Some t \<Rightarrow> if t < every then t else every)
     in bindE (readConverter lib create pNode) (\<lambda>conv.
          parse_node_body lib (parseObjectDataNode depth lib create net slave pMode refresh)
            pNode net slave refresh pMode (new_node name conv) (every, specs))))"

abbreviation parseDataNode ::
  "'n yaml_lib \<Rightarrow> (string \<Rightarrow> cpp_exn + data_converter) \<Rightarrow> string \<Rightarrow> int \<Rightarrow> publish_mode
    \<Rightarrow> int \<Rightarrow> 'n \<Rightarrow> parse_state \<Rightarrow> cpp_exn + (data_node \<times> parse_state)" where
  "parseDataNode lib create net slave pMode pRefresh pNode st \<equiv>
     parseObjectDataNode (Suc (nodeHeight lib pNode)) lib create net slave pMode pRefresh pNode st"

section \<open>Objects\<close>

text \<open>\<open>find\<close> and \<open>replace\<close> of the first occurrence\<close>

fun replace_first :: "string \<Rightarrow> string \<Rightarrow> string \<Rightarrow> string option" where
  "replace_first pat new [] = (if pat = [] then Some new else None)"
| "replace_first pat new (c # s) =
     (if prefix pat (c # s) then Some (new @ drop (length pat) (c # s))
      else map_option ((#) c) (replace_first pat new s))"

text \<open>A placeholder that occurs is replaced by its value, or is an error where it has none.\<close>

definition fill_placeholder :: "string \<Rightarrow> (string \<Rightarrow> cpp_exn + string) \<Rightarrow> string \<Rightarrow> cpp_exn + string" where
  "fill_placeholder pat val topic =
     (case replace_first pat [] topic of
        None \<Rightarrow> Inr topic
      | Some _ \<Rightarrow>
          bindE (val topic) (\<lambda>v. Inr (case replace_first pat v topic of None \<Rightarrow> topic | Some t \<Rightarrow> t)))"

definition fillTopic ::
  "int option \<Rightarrow> string \<Rightarrow> int \<Rightarrow> string \<Rightarrow> string \<Rightarrow> cpp_exn + string" where
  "fillTopic mark net slave slaveName topic =
     (let no_network = (\<lambda>t. Inl (config_exn mark (''default network name must be set for topic '' @ t)))
      in bindE (fill_placeholder ''${network}''
                  (\<lambda>t. if net = [] then no_network t else Inr net) topic) (\<lambda>topic.
         bindE (fill_placeholder ''${slave_address}''
                  (\<lambda>t. if slave = -1
                       then Inl (config_exn mark (''default slave address must be set for topic '' @ t))
                       else Inr (to_string slave)) topic) (\<lambda>topic.
         fill_placeholder ''${slave_name}''
           (\<lambda>t. if slave = -1
                then Inl (config_exn mark
                       (''cannot find slave name, default slave address must be set for topic'' @ t))
                else if net = [] then no_network t
                else if slaveName = []
                then Inl (config_exn mark (''missing name for slave id='' @ to_string slave @
                       '' needed for placeholder in topic '' @ t))
                else Inr slaveName) topic)))"

fun parse_state_list ::
  "'n yaml_lib \<Rightarrow> ('n \<Rightarrow> parse_state \<Rightarrow> cpp_exn + (data_node \<times> parse_state)) \<Rightarrow> bool option \<Rightarrow> 'n list
    \<Rightarrow> node_list \<Rightarrow> parse_state \<Rightarrow> cpp_exn + (node_list \<times> parse_state)" where
  "parse_state_list lib parse unnamed [] l st = Inr (l, st)"
| "parse_state_list lib parse unnamed (y # ys) l st =
     bindE (parse y st) (\<lambda>(node, st).
       let first = (case unnamed of None \<Rightarrow> isUnnamed node | Some u \<Rightarrow> u)
       in if isUnnamed node \<noteq> first
          then Inl (config_exn (markLine lib y) ''All list elements must be named or unnamed'')
          else parse_state_list lib parse (Some first) ys (addDataNode node first l) st)"

definition empty_nodes :: node_list where
  "empty_nodes = \<lparr>lNodes = [], lForceList = False\<rparr>"

definition parse_state_map :: "data_node \<Rightarrow> node_list" where
  "parse_state_map node =
     (if \<not> hasConverter node \<and> isUnnamed node \<and> \<not> isScalar node
      then fold (\<lambda>n l. addDataNode n True l) (childNodes node) empty_nodes
      else addDataNode node False empty_nodes)"

definition parseState ::
  "'n yaml_lib \<Rightarrow> ('n \<Rightarrow> parse_state \<Rightarrow> cpp_exn + (data_node \<times> parse_state)) \<Rightarrow> 'n \<Rightarrow> parse_state
    \<Rightarrow> cpp_exn + (node_list \<times> parse_state)" where
  "parseState lib parse yState st =
     (if \<not> IsDefined lib yState then Inr (empty_nodes, st)
      else if IsMap lib yState
      then bindE (parse yState st) (\<lambda>(node, st). Inr (parse_state_map node, st))
      else if IsSequence lib yState
      then parse_state_list lib parse None (elements lib yState) empty_nodes st
      else Inl (config_exn (markLine lib yState) ''state must be a list or a single register data''))"

text \<open>The availability node, where there is one; the error names the line of \<open>state\<close>.\<close>

definition parseAvailability ::
  "'n yaml_lib \<Rightarrow> ('n \<Rightarrow> parse_state \<Rightarrow> cpp_exn + (data_node \<times> parse_state)) \<Rightarrow> 'n \<Rightarrow> 'n
    \<Rightarrow> mqtt_object \<Rightarrow> poll_spec list \<Rightarrow> cpp_exn + (mqtt_object \<times> poll_spec list)" where
  "parseAvailability lib parse yState yAvail obj specs =
     (if \<not> IsDefined lib yAvail then Inr (obj, specs)
      else
        bindE (readOptionalValue lib (as_string lib) yAvail ''available_value'') (\<lambda>v.
        let obj = (case v of None \<Rightarrow> obj | Some s \<Rightarrow> obj\<lparr>mAvailableValue := fromString s\<rparr>)
        in if \<not> IsMap lib yAvail
           then Inl (config_exn (markLine lib yState)
                  ''availability must be a single register or a list with converter'')
           else
             bindE (parse yAvail (0, specs)) (\<lambda>(node, st).
               if \<not> isScalar node \<and> \<not> hasConverter node
               then Inl (config_exn (markLine lib yAvail)
                      ''multiple registers availability must use a converter'')
               else Inr (obj\<lparr>mAvailability := addDataNode node False (mAvailability obj)\<rparr>, snd st))))"

definition parseObject ::
  "'n yaml_lib \<Rightarrow> (string \<Rightarrow> cpp_exn + data_converter) \<Rightarrow> 'n \<Rightarrow> string \<Rightarrow> int \<Rightarrow> string \<Rightarrow> int
    \<Rightarrow> publish_mode \<Rightarrow> poll_spec list \<Rightarrow> cpp_exn + (mqtt_object \<times> poll_spec list)" where
  "parseObject lib create pData net slave slaveName refresh defaultMode specs =
     bindE (readRequiredString lib pData ''topic'') (\<lambda>topic.
     bindE (fillTopic (markLine lib (child lib pData ''topic'')) net slave slaveName topic) (\<lambda>topic.
     bindE (readOptionalInto lib (as_bool lib) pData ''retain'' True) (\<lambda>retain.
     bindE (parsePublishMode lib pData defaultMode) (\<lambda>pmode.
     let yState = child lib pData ''state'';
         parse = parseDataNode lib create net slave pmode refresh
     in bindE (parseState lib parse yState (refresh, specs)) (\<lambda>(state, every, specs).
          parseAvailability lib parse yState (child lib pData ''availability'')
            ((new_MqttObject topic pmode every)\<lparr>mRetain := retain, mState := state\<rparr>) specs)))))"

section \<open>Commands\<close>

definition parseObjectCommand ::
  "'n yaml_lib \<Rightarrow> (string \<Rightarrow> cpp_exn + data_converter) \<Rightarrow> string \<Rightarrow> int \<Rightarrow> string \<Rightarrow> int \<Rightarrow> 'n
    \<Rightarrow> cpp_exn + mqtt_command" where
  "parseObjectCommand lib create pTopicPrefix nextCommandId default_network default_slave node =
     bindE (readRequiredString lib node ''name'') (\<lambda>name.
     bindE (new_RegisterConfigName lib node default_network default_slave) (\<lambda>rname.
     bindE (parseRegisterType lib node) (\<lambda>rType.
     bindE (parsePayloadType lib node) (\<lambda>pType.
     bindE (readOptionalInto lib (as_int lib) node ''count'' 1) (\<lambda>count.
     bindE (readOptionalInto lib (as_decoded lib decode_write_mode) node ''write_mode'' AUTO)
       (\<lambda>writeMode.
     bindE (readConverter lib create node) (\<lambda>conv.
       Inr \<lparr>mRegister = rnRegisterNumber rname, mCount = count, mRegisterType = rType,
            mSlaveId = rnSlaveId rname, mCommandId = nextCommandId,
            cmdTopic = pTopicPrefix @ ''/'' @ name, cmdPayloadType = pType,
            cmdNetworkName = rnNetworkName rname, cmdWriteMode = writeMode, cmdConverter = conv\<rparr>)))))))"

text \<open>\<open>mMqtt->addCommand\<close> keeps the command that has the topic already.\<close>

type_synonym command_map = "(string, mqtt_command) omap"

definition parseOneCommand ::
  "'n yaml_lib \<Rightarrow> (string \<Rightarrow> cpp_exn + data_converter) \<Rightarrow> string \<Rightarrow> string \<Rightarrow> int \<Rightarrow> 'n
    \<Rightarrow> int \<times> command_map \<Rightarrow> cpp_exn + (int \<times> command_map)" where
  "parseOneCommand lib create prefx net slave node st =
     bindE (parseObjectCommand lib create prefx (fst st) net slave node) (\<lambda>cmd.
       Inr (fst st + 1, omap_insert (cmdTopic cmd) cmd (snd st)))"

definition parseObjectCommands ::
  "'n yaml_lib \<Rightarrow> (string \<Rightarrow> cpp_exn + data_converter) \<Rightarrow> string \<Rightarrow> string \<Rightarrow> int \<Rightarrow> 'n
    \<Rightarrow> int \<times> command_map \<Rightarrow> cpp_exn + (int \<times> command_map)" where
  "parseObjectCommands lib create prefx net slave commands st =
     (if \<not> IsDefined lib commands then Inr st
      else if IsMap lib commands then parseOneCommand lib create prefx net slave commands st
      else if IsSequence lib commands
      then foldE (parseOneCommand lib create prefx net slave) (elements lib commands) st
      else Inr st)"

end
