(* ===== verification/Gateway_Init.thy ===== *)
theory Gateway_Init
  imports Gateway_Objects
begin

text \<open>
  \<open>ModMqtt::init\<close> of \<open>modmqtt.cpp\<close>: the configuration is read section by section, the Modbus clients
  are started, the polls of the objects are merged into the poll groups of the networks and sent to
  the Modbus threads, and the MQTT client learns which objects belong to which poll and command. The
  file system, the loader of plugins and yaml-cpp are parameters.
\<close>

section \<open>The server section\<close>

record init_env =
  pathExists :: "string \<Rightarrow> bool"
  pathIsFile :: "string \<Rightarrow> bool"
  loadPlugin :: "string \<Rightarrow> cpp_exn + converter_plugin"

text \<open>\<open>Log::parse_severity\<close>; the severities are numbers from 0, \<open>none\<close>, to 6, \<open>trace\<close>.\<close>

definition severity_of_name :: "string \<Rightarrow> cpp_exn + int" where
  "severity_of_name val =
     (if val = ''off'' then Inr 0
      else if val = ''critical'' then Inr 1
      else if val = ''error'' then Inr 2
      else if val = ''warning'' then Inr 3
      else if val = ''info'' then Inr 4
      else if val = ''debug'' then Inr 5
      else if val = ''trace'' then Inr 6
      else Inl (InvalidArgument (''unknown log level '' @ [CHR 0x27] @ val @ [CHR 0x27] @
             '', valid values: none,critical,error,warning,info,debug,trace'')))"

definition parse_severity :: "string \<Rightarrow> cpp_exn + int" where
  "parse_severity val =
     (case stoi 10 val of
        Inr (lvlnum, pos) \<Rightarrow>
          if pos = length val \<and> 0 \<le> lvlnum \<and> lvlnum \<le> 6 then Inr lvlnum
          else if pos = length val then severity_of_name val
          else Inl (InvalidArgument (''unknown log level '' @ [CHR 0x27] @ val @ [CHR 0x27] @
                 '', valid values: none,critical,error,warning,info,debug,trace''))
      | Inl (InvalidArgument _) \<Rightarrow> severity_of_name val
      | Inl e \<Rightarrow> Inl e)"

text \<open>\<open>catch (const std::exception&)\<close> that rethrows as a \<open>ConfigurationException\<close>\<close>

definition rethrow_config :: "int option \<Rightarrow> cpp_exn + 'a \<Rightarrow> cpp_exn + 'a" where
  "rethrow_config mark r =
     (case r of
        Inl Undefined \<Rightarrow> Inl Undefined
      | Inl e \<Rightarrow> Inl (config_exn mark (exn_what e))
      | Inr x \<Rightarrow> Inr x)"

definition readLogLevel :: "'n yaml_lib \<Rightarrow> bool \<Rightarrow> 'n \<Rightarrow> cpp_exn + int option" where
  "readLogLevel lib overrideLogLevel server =
     (let log_level = child lib server ''log_level'' in
      if \<not> overrideLogLevel \<or> \<not> IsDefined lib log_level then Inr None
      else if \<not> IsScalar lib log_level
      then Inl (config_exn (markLine lib log_level) ''Log level must be an int or string'')
      else rethrow_config (markLine lib log_level)
             (bindE (as_string lib log_level) (\<lambda>s. bindE (parse_severity s) (\<lambda>l. Inr (Some l)))))"

text \<open>\<open>std::filesystem::path::append\<close>\<close>

definition path_append :: "string \<Rightarrow> string \<Rightarrow> string" where
  "path_append base name =
     (if name \<noteq> [] \<and> hd name = CHR ''/'' then name
      else if base = [] \<or> last base = CHR ''/'' then base @ name
      else base @ ''/'' @ name)"

definition initConverterPlugin :: "init_env \<Rightarrow> string list \<Rightarrow> string \<Rightarrow> cpp_exn + converter_plugin" where
  "initConverterPlugin fs mConverterPaths name =
     (case find (pathExists fs) (name # map (\<lambda>p. path_append p name) mConverterPaths) of
        Some final_path \<Rightarrow> loadPlugin fs final_path
      | None \<Rightarrow> Inl (ConvPluginNotFoundException (''Converter plugin '' @ name @ '' not found'')))"

definition readConverterPaths :: "'n yaml_lib \<Rightarrow> 'n \<Rightarrow> cpp_exn + string list" where
  "readConverterPaths lib conv_paths =
     (let read = (\<lambda>n paths. bindE (readRequiredNode lib (as_string lib) n) (\<lambda>p. Inr (paths @ [p])))
      in if \<not> IsDefined lib conv_paths then Inr []
         else if IsSequence lib conv_paths then foldE read (elements lib conv_paths) []
         else if IsScalar lib conv_paths then read conv_paths []
         else Inr [])"

definition addConverterPlugin ::
  "'n yaml_lib \<Rightarrow> init_env \<Rightarrow> 'n \<Rightarrow> string list \<Rightarrow> 'n \<Rightarrow> converter_plugin list
    \<Rightarrow> cpp_exn + converter_plugin list" where
  "addConverterPlugin lib fs config paths path_node plugins =
     (if \<not> IsScalar lib path_node
      then Inl (config_exn (markLine lib path_node) ''Converter plugin path must be a string'')
      else
        bindE (as_string lib path_node) (\<lambda>path.
          rethrow_config (markLine lib config)
            (bindE (initConverterPlugin fs paths path) (\<lambda>plugin.
               if hasConverterPlugin (pluginName plugin) plugins
               then Inl (config_exn (markLine lib config)
                      (''Converter plugin '' @ pluginName plugin @ '' already loaded''))
               else Inr (plugins @ [plugin])))))"

definition initServer ::
  "'n yaml_lib \<Rightarrow> init_env \<Rightarrow> bool \<Rightarrow> 'n \<Rightarrow> cpp_exn + (int option \<times> converter_plugin list)" where
  "initServer lib fs overrideLogLevel config =
     (let server = child lib config ''modmqttd'';
          conv_plugins = child lib server ''converter_plugins''
      in if \<not> IsDefined lib server then Inr (None, [])
         else
           bindE (readLogLevel lib overrideLogLevel server) (\<lambda>level.
           bindE (readConverterPaths lib (child lib server ''converter_search_path'')) (\<lambda>paths.
             if \<not> IsDefined lib conv_plugins then Inr (level, [])
             else if \<not> IsSequence lib conv_plugins
             then Inl (config_exn (markLine lib conv_plugins)
                    ''modmqttd.converter_plugins must be a list'')
             else
               bindE (foldE (addConverterPlugin lib fs config paths) (elements lib conv_plugins) [])
                 (\<lambda>plugins. Inr (level, plugins)))))"

section \<open>The broker\<close>

definition readRpcMode :: "'n yaml_lib \<Rightarrow> 'n \<Rightarrow> cpp_exn + rpc_mode" where
  "readRpcMode lib mqtt =
     (let rpc = child lib mqtt ''rpc'' in
      if \<not> IsDefined lib rpc then Inr DISABLED
      else
        bindE (readOptionalInto lib (as_string lib) rpc ''mode'' ''disabled'') (\<lambda>modeStr.
          if modeStr = ''disabled'' then Inr DISABLED
          else if modeStr = ''read'' then Inr READ
          else if modeStr = ''readwrite'' then Inr READ_WRITE
          else Inl (config_exn (markLine lib (child lib rpc ''mode''))
                 (''Unknown rpc mode: '' @ modeStr))))"

definition initBroker ::
  "'m mqtt_env \<Rightarrow> 'n yaml_lib \<Rightarrow> init_env \<Rightarrow> 'n \<Rightarrow> ('m, unit) client_op" where
  "initBroker env lib fs config =
     (let mqtt = child lib config ''mqtt''; broker = child lib mqtt ''broker'' in
      if \<not> IsDefined lib mqtt
      then liftC (Inl (config_exn (markLine lib config) ''mqtt section is missing''))
      else
        bindC (liftC (readRequiredString lib mqtt ''client_id'')) (\<lambda>clientId.
        thenC (setClientId env clientId)
        (bindC (liftC (readRpcMode lib mqtt)) (\<lambda>rpcMode.
         thenC (modifyC (\<lambda>s. s\<lparr>mRpcMode := rpcMode\<rparr>))
         (if \<not> IsDefined lib broker
          then liftC (Inl (config_exn (markLine lib config) ''no broker configuration in mqtt section''))
          else
            bindC (liftC (new_MqttBrokerConfig lib (pathIsFile fs) broker)) (\<lambda>brokerConfig.
              setBrokerConfig (brokerConfig\<lparr>mProtocolV5 := (rpcMode \<noteq> DISABLED)\<rparr>)))))))"

section \<open>Networks and slaves\<close>

definition readPollGroup ::
  "'n yaml_lib \<Rightarrow> string \<Rightarrow> int \<Rightarrow> 'n \<Rightarrow> msg_register_poll list \<Rightarrow> cpp_exn + msg_register_poll list" where
  "readPollGroup lib network default_slave yGroup polls =
     bindE (new_RegisterConfigName lib yGroup network default_slave) (\<lambda>reg.
     bindE (readRequiredValue lib (as_int lib) yGroup ''count'') (\<lambda>count.
     bindE (parseRegisterType lib yGroup) (\<lambda>ty.
       Inr (polls @ [new_register_poll (rnSlaveId reg) (rnRegisterNumber reg) ty count]))))"

definition readModbusPollGroups ::
  "'n yaml_lib \<Rightarrow> string \<Rightarrow> int \<Rightarrow> 'n \<Rightarrow> cpp_exn + msg_register_poll list" where
  "readModbusPollGroups lib network default_slave groups =
     (if \<not> IsDefined lib groups then Inr []
      else if \<not> IsSequence lib groups
      then Inl (config_exn (markLine lib groups) ''modbus network poll_groups must be a list'')
      else foldE (readPollGroup lib network default_slave) (elements lib groups) [])"

type_synonym slave_names = "(string, (int, string) omap) omap"

text \<open>What is built for one network: its client, its specification and the names of all slaves.\<close>

record network_init =
  niClient :: modbus_client
  niSpec :: poll_spec
  niNames :: slave_names

text \<open>\<open>ModbusClient::start\<close> starts the thread and sends it the configuration.\<close>

definition start_client :: "network_config \<Rightarrow> modbus_client" where
  "start_client cfg =
     \<lparr>clNetworkName = ncName cfg, mToModbusQueue = [NetworkConfigItem cfg], mFromModbusQueue = []\<rparr>"

definition client_enqueue :: "modbus_item \<Rightarrow> modbus_client \<Rightarrow> modbus_client" where
  "client_enqueue item c = c\<lparr>mToModbusQueue := mToModbusQueue c @ [item]\<rparr>"

definition initSlaveAddress ::
  "'n yaml_lib \<Rightarrow> 'n \<Rightarrow> int \<Rightarrow> network_init \<Rightarrow> cpp_exn + network_init" where
  "initSlaveAddress lib ySlave addr ni =
     (let net = clNetworkName (niClient ni) in
      bindE (new_ModbusSlaveConfig lib addr ySlave) (\<lambda>slave_config.
      bindE (readModbusPollGroups lib net (scAddress slave_config) (child lib ySlave ''poll_groups''))
        (\<lambda>polls.
        Inr \<lparr>niClient = client_enqueue (SlaveConfigItem slave_config) (niClient ni),
             niSpec = spec_merge_list (niSpec ni) polls,
             niNames =
               (if mSlaveName slave_config \<noteq> []
                then omap_modify [] (omap_put (scAddress slave_config) (mSlaveName slave_config)) net
                       (niNames ni)
                else niNames ni)\<rparr>)))"

definition initSlaveRange ::
  "'n yaml_lib \<Rightarrow> 'n \<Rightarrow> int \<times> int \<Rightarrow> network_init \<Rightarrow> cpp_exn + network_init" where
  "initSlaveRange lib ySlave addr_range ni =
     (let (first, second) = addr_range in
      if first < 0 \<or> second > 256 \<or> first > second
      then Inl (config_exn (markLine lib (child lib ySlave ''address''))
             (''Invalid slave address range '' @ to_string first @ ''-'' @ to_string second))
      else foldE (initSlaveAddress lib ySlave) [first..second] ni)"

definition initSlave :: "'n yaml_lib \<Rightarrow> 'n \<Rightarrow> network_init \<Rightarrow> cpp_exn + network_init" where
  "initSlave lib ySlave ni =
     bindE (readRequiredValue lib (as_ranges lib) ySlave ''address'') (\<lambda>slave_addresses.
       foldE (initSlaveRange lib ySlave) slave_addresses ni)"

record modbus_init =
  miClients :: "modbus_client list"
  mPollSpecification :: "poll_spec list"
  mSlaveNames :: slave_names

definition initNetwork :: "'n yaml_lib \<Rightarrow> 'n \<Rightarrow> modbus_init \<Rightarrow> cpp_exn + modbus_init" where
  "initNetwork lib network mi =
     (let slaves = child lib network ''slaves''; old_groups = child lib network ''poll_groups'' in
      bindE (new_ModbusNetworkConfig lib network) (\<lambda>cfg.
      let ni = \<lparr>niClient = start_client cfg, niSpec = empty_spec (ncName cfg), niNames = mSlaveNames mi\<rparr>
      in bindE (if \<not> IsDefined lib slaves then Inr ni
                else if \<not> IsSequence lib slaves
                then Inl (config_exn (markLine lib slaves) ''slaves content must be a list'')
                else foldE (initSlave lib) (elements lib slaves) ni) (\<lambda>ni.
         bindE (if \<not> IsDefined lib old_groups then Inr []
                else readModbusPollGroups lib (ncName cfg) (- 1) old_groups) (\<lambda>polls.
           Inr \<lparr>miClients = miClients mi @ [niClient ni],
                mPollSpecification = mPollSpecification mi @ [spec_merge_list (niSpec ni) polls],
                mSlaveNames = niNames ni\<rparr>))))"

definition initModbusClients :: "'n yaml_lib \<Rightarrow> 'n \<Rightarrow> cpp_exn + modbus_init" where
  "initModbusClients lib config =
     (let modbus = child lib config ''modbus''; networks = child lib modbus ''networks'' in
      if \<not> IsDefined lib modbus
      then Inl (config_exn (markLine lib config) ''modbus section is missing'')
      else if \<not> IsDefined lib networks
      then Inl (config_exn (markLine lib modbus) ''modbus.networks section is missing'')
      else if \<not> IsSequence lib networks
      then Inl (config_exn (markLine lib modbus) ''modbus.networks must be a list'')
      else if elements lib networks = []
      then Inl (config_exn (markLine lib networks) ''No modbus networks defined'')
      else foldE (initNetwork lib) (elements lib networks)
             \<lparr>miClients = [], mPollSpecification = [], mSlaveNames = []\<rparr>)"

definition getSlaveName :: "slave_names \<Rightarrow> string \<Rightarrow> int \<Rightarrow> string" where
  "getSlaveName names pNetwork pSlaveId =
     (case map_of names pNetwork of
        None \<Rightarrow> []
      | Some m \<Rightarrow> (case map_of m pSlaveId of None \<Rightarrow> [] | Some name \<Rightarrow> name))"

section \<open>Objects\<close>

text \<open>The objects so far, the specifications they ask for, the commands and their next number.\<close>

record objects_init =
  oiObjects :: "mqtt_object list"
  oiSpecs :: "poll_spec list"
  oiNextCommandId :: int
  oiCommands :: command_map

record object_defaults =
  odRefresh :: int
  odPublishMode :: publish_mode

definition initObject ::
  "'n yaml_lib \<Rightarrow> (string \<Rightarrow> cpp_exn + data_converter) \<Rightarrow> slave_names \<Rightarrow> publish_mode \<Rightarrow> 'n \<Rightarrow> int
    \<Rightarrow> string \<Rightarrow> int \<Rightarrow> int list \<times> objects_init \<Rightarrow> cpp_exn + (int list \<times> objects_init)" where
  "initObject lib create names mode objdata refresh net slave st =
     (let (created, oi) = st in
      if slave \<in> set created
      then Inl (config_exn (markLine lib (child lib objdata ''slave''))
             (''Slave with id='' @ to_string slave @ '' is duplicated in the list''))
      else
        bindE (parseObject lib create objdata net slave (getSlaveName names net slave) refresh mode
                 (oiSpecs oi)) (\<lambda>(object, specs).
          if list_ex (\<lambda>old. mTopic old = mTopic object) (oiObjects oi)
          then Inl (config_exn (markLine lib objdata) (''Topic '' @ mTopic object @
                 '' already defined. Missing network or slave placeholder?''))
          else
            bindE (parseObjectCommands lib create (mTopic object) net slave
                     (child lib objdata ''commands'') (oiNextCommandId oi, oiCommands oi))
              (\<lambda>(nextId, cs).
              Inr (created @ [slave],
                   \<lparr>oiObjects = oiObjects oi @ [object], oiSpecs = specs,
                    oiNextCommandId = nextId, oiCommands = cs\<rparr>))))"

definition initObjectRange ::
  "'n yaml_lib \<Rightarrow> (int \<Rightarrow> int list \<times> objects_init \<Rightarrow> cpp_exn + (int list \<times> objects_init)) \<Rightarrow> 'n
    \<Rightarrow> int \<times> int \<Rightarrow> int list \<times> objects_init \<Rightarrow> cpp_exn + (int list \<times> objects_init)" where
  "initObjectRange lib one objdata slave_range st =
     (let (first, second) = slave_range in
      if first \<noteq> -1 \<and> (first < 0 \<or> second > 256 \<or> first > second)
      then Inl (config_exn (markLine lib (child lib objdata ''slave''))
             (''Invalid slave range '' @ to_string first @ ''-'' @ to_string second))
      else foldE one [first..second] st)"

definition initObjectNetwork ::
  "'n yaml_lib \<Rightarrow> (string \<Rightarrow> cpp_exn + data_converter) \<Rightarrow> modbus_init \<Rightarrow> publish_mode \<Rightarrow> 'n \<Rightarrow> int
    \<Rightarrow> (int \<times> int) list \<Rightarrow> string \<Rightarrow> objects_init \<Rightarrow> cpp_exn + objects_init" where
  "initObjectNetwork lib create mi mode objdata refresh slaves net oi =
     (if net \<noteq> [] \<and> \<not> hasNetwork net (miClients mi)
      then Inl (config_exn (markLine lib (child lib objdata ''network''))
             (''Unknown modbus network '' @ net))
      else
        bindE (foldE (initObjectRange lib
                        (initObject lib create (mSlaveNames mi) mode objdata refresh net) objdata)
                 slaves ([], oi)) (\<lambda>(_, oi). Inr oi))"

definition initConfigObject ::
  "'n yaml_lib \<Rightarrow> (string \<Rightarrow> cpp_exn + data_converter) \<Rightarrow> modbus_init \<Rightarrow> object_defaults \<Rightarrow> 'n
    \<Rightarrow> objects_init \<Rightarrow> cpp_exn + objects_init" where
  "initConfigObject lib create mi defaults objdata oi =
     bindE (readOptionalInto lib (as_msec lib) objdata ''refresh'' (odRefresh defaults)) (\<lambda>refresh.
     bindE (readOptionalInto lib (as_names lib) objdata ''network'' []) (\<lambda>networks.
     bindE (readOptionalInto lib (as_ranges lib) objdata ''slave'' []) (\<lambda>slaves.
       foldE (initObjectNetwork lib create mi (odPublishMode defaults) objdata refresh
                (if slaves = [] then [(- 1, - 1)] else slaves))
         (if networks = [] then [[]] else networks) oi)))"

definition initObjects ::
  "'n yaml_lib \<Rightarrow> (string \<Rightarrow> cpp_exn + data_converter) \<Rightarrow> modbus_init \<Rightarrow> command_map \<Rightarrow> 'n
    \<Rightarrow> cpp_exn + objects_init" where
  "initObjects lib create mi cs config =
     (let mqtt = child lib config ''mqtt''; config_objects = child lib mqtt ''objects'' in
      if \<not> IsDefined lib mqtt
      then Inl (config_exn (markLine lib config) ''mqtt section is missing'')
      else
        bindE (readOptionalInto lib (as_msec lib) mqtt ''refresh'' 5000) (\<lambda>refresh.
        bindE (parsePublishMode lib mqtt ON_CHANGE) (\<lambda>mode.
          if \<not> IsDefined lib config_objects
          then Inl (config_exn (markLine lib mqtt) ''objects section is missing'')
          else if \<not> IsSequence lib config_objects
          then Inl (config_exn (markLine lib mqtt) ''mqtt.objects must be a list'')
          else foldE (initConfigObject lib create mi \<lparr>odRefresh = refresh, odPublishMode = mode\<rparr>)
                 (elements lib config_objects)
                 \<lparr>oiObjects = [], oiSpecs = [], oiNextCommandId = 1, oiCommands = cs\<rparr>)))"

section \<open>Objects of polls and commands\<close>

text \<open>
  \<open>hasRegisterIn\<close> on objects as the parser leaves them: a leaf without a register is a null pointer.
\<close>

fun anyE :: "('a \<Rightarrow> 'e + bool) \<Rightarrow> 'a list \<Rightarrow> 'e + bool" where
  "anyE f [] = Inr False"
| "anyE f (x # xs) = bindE (f x) (\<lambda>b. if b then Inr True else anyE f xs)"

lemma anyE_cong [fundef_cong]: "(\<And>x. x \<in> set xs \<Longrightarrow> f x = g x) \<Longrightarrow> xs = ys \<Longrightarrow> anyE f xs = anyE g ys"
proof (induction xs arbitrary: ys)
  case (Cons x xs)
  then show ?case by (cases "f x") auto
qed simp

fun node_registerIn :: "string \<Rightarrow> 'a modbus_msg_scheme \<Rightarrow> data_node \<Rightarrow> cpp_exn + bool" where
  "node_registerIn net m (DataNode name ns forced i v conv) =
     (if ns = [] then
        (if i = null_ident then Inl Undefined
         else Inr (node_hasRegisterIn net m (DataNode name ns forced i v conv)))
      else anyE (node_registerIn net m) ns)"

definition obj_registerIn :: "string \<Rightarrow> 'a modbus_msg_scheme \<Rightarrow> mqtt_object \<Rightarrow> cpp_exn + bool" where
  "obj_registerIn net m obj =
     bindE (anyE (node_registerIn net m) (lNodes (mState obj))) (\<lambda>b.
       if b then Inr True else anyE (node_registerIn net m) (lNodes (mAvailability obj)))"

definition map_if :: "'k::linorder \<Rightarrow> nat \<Rightarrow> ('k, nat list) omap \<Rightarrow> bool \<Rightarrow> ('k, nat list) omap" where
  "map_if k a m b = (if b then omap_modify [] (\<lambda>as. as @ [a]) k m else m)"

definition spec_polls :: "poll_spec list \<Rightarrow> (string \<times> msg_register_poll) list" where
  "spec_polls specs = concat (map (\<lambda>s. map (Pair (specNetworkName s)) (specRegisters s)) specs)"

definition mapPollObjects ::
  "(string \<times> msg_register_poll) list \<Rightarrow> nat \<times> mqtt_object \<Rightarrow> (reg_ident, nat list) omap
    \<Rightarrow> cpp_exn + (reg_ident, nat list) omap" where
  "mapPollObjects polls e m =
     foldE (\<lambda>(net, poll) m.
        bindE (obj_registerIn net poll (snd e)) (\<lambda>b. Inr (map_if (ident_of net poll) (fst e) m b)))
       polls m"

definition mapCommandObjects ::
  "mqtt_command list \<Rightarrow> nat \<times> mqtt_object \<Rightarrow> (int, nat list) omap \<Rightarrow> cpp_exn + (int, nat list) omap" where
  "mapCommandObjects cs e m =
     foldE (\<lambda>cmd m.
        bindE (obj_registerIn (cmdNetworkName cmd) cmd (snd e)) (\<lambda>b.
          if b \<and> mCommandId cmd \<le> 0 then Inl Undefined
          else Inr (map_if (mCommandId cmd) (fst e) m b)))
       cs m"

definition mapObjects ::
  "(string \<times> msg_register_poll) list \<Rightarrow> mqtt_command list \<Rightarrow> nat \<times> mqtt_object
    \<Rightarrow> (reg_ident, nat list) omap \<times> (int, nat list) omap
    \<Rightarrow> cpp_exn + ((reg_ident, nat list) omap \<times> (int, nat list) omap)" where
  "mapObjects polls cs e ms =
     bindE (mapPollObjects polls e (fst ms)) (\<lambda>pm.
     bindE (mapCommandObjects cs e (snd ms)) (\<lambda>cm. Inr (pm, cm)))"

section \<open>The whole configuration\<close>

text \<open>
  The polls of the objects are merged into the groups of their network; a network no object uses
  keeps its groups, and nothing is sent to its thread.
\<close>

definition mqtt_spec_of :: "poll_spec list \<Rightarrow> poll_spec \<Rightarrow> poll_spec option" where
  "mqtt_spec_of mqtt_specs s = find (\<lambda>q. specNetworkName q = specNetworkName s) mqtt_specs"

definition merge_specs :: "poll_spec list \<Rightarrow> poll_spec \<Rightarrow> poll_spec" where
  "merge_specs mqtt_specs s =
     (case mqtt_spec_of mqtt_specs s of
        None \<Rightarrow> s
      | Some q \<Rightarrow> spec_merge_list s (specRegisters q))"

definition sendSpecification :: "poll_spec list \<Rightarrow> poll_spec \<Rightarrow> ('m, unit) client_op" where
  "sendSpecification mqtt_specs s =
     (if mqtt_spec_of mqtt_specs s = None then returnC ()
      else enqueueC (specNetworkName s)
             (MessageItem (RegisterPollSpecification (merge_specs mqtt_specs s))))"

definition setObjects ::
  "mqtt_object list \<Rightarrow> (reg_ident, nat list) omap \<Rightarrow> (int, nat list) omap \<Rightarrow> ('m, unit) client_op" where
  "setObjects objs pm cm =
     modifyC (\<lambda>s. s\<lparr>objectStore := (\<lambda>a. if a < length objs then objs ! a else objectStore s a),
                    mObjects := pm, mCommandObjects := cm\<rparr>)"

text \<open>The value is what was loaded and read: the plugins and the objects.\<close>

definition gateway_init ::
  "'m mqtt_env \<Rightarrow> 'n yaml_lib \<Rightarrow> init_env \<Rightarrow> bool \<Rightarrow> 'n
    \<Rightarrow> ('m, converter_plugin list \<times> mqtt_object list) client_op" where
  "gateway_init env lib fs overrideLogLevel config =
     bindC (liftC (initServer lib fs overrideLogLevel config)) (\<lambda>(level, plugins).
     thenC (initBroker env lib fs config)
     (bindC (liftC (initModbusClients lib config)) (\<lambda>mi.
      thenC (modifyC (\<lambda>s. s\<lparr>mModbusClients := miClients mi\<rparr>))
     (bindC (getC mCommands) (\<lambda>cs.
      bindC (liftC (initObjects lib (createConverterFromString plugins) mi cs config)) (\<lambda>oi.
      thenC (modifyC (\<lambda>s. s\<lparr>mCommands := oiCommands oi\<rparr>))
     (thenC (forC (sendSpecification (oiSpecs oi)) (mPollSpecification mi))
     (bindC (liftC (foldE (mapObjects
                 (spec_polls (map (merge_specs (oiSpecs oi)) (mPollSpecification mi)))
                 (map snd (oiCommands oi)))
               (enumerate 0 (oiObjects oi)) ([], []))) (\<lambda>(pm, cm).
      thenC (setObjects (oiObjects oi) pm cm) (returnC (plugins, oiObjects oi)))))))))))"

end
