(* ===== verification/Gateway_Coverage.thy ===== *)
theory Gateway_Coverage
  imports Gateway_Init
begin

text \<open>
  What the initialisation establishes between the objects and the polls: the registers of the
  objects are in the groups that are sent to the Modbus threads, and every group that is polled has
  a register of an object.
\<close>

section \<open>Registers of objects\<close>

fun reg_leaves :: "data_node \<Rightarrow> reg_ident set" where
  "reg_leaves (DataNode name ns forced i v conv) =
     (if ns = [] then {i} else \<Union> (set (map reg_leaves ns)))"

definition list_leaves :: "node_list \<Rightarrow> reg_ident set" where
  "list_leaves l = \<Union> (reg_leaves ` set (lNodes l))"

definition obj_leaves :: "mqtt_object \<Rightarrow> reg_ident set" where
  "obj_leaves obj = list_leaves (mState obj) \<union> list_leaves (mAvailability obj)"

definition in_group :: "'a modbus_msg_scheme \<Rightarrow> reg_ident \<Rightarrow> bool" where
  "in_group g i \<longleftrightarrow> mSlaveId g = idSlaveId i \<and> mRegisterType g = idRegisterType i \<and>
     idRegisterNumber i \<in> regs g"

definition polling :: "msg_register_poll \<Rightarrow> bool" where
  "polling g \<longleftrightarrow> mRefreshMsec g \<noteq> INVALID_REFRESH"

section \<open>Groups of one network\<close>

text \<open>A register is polled by some group, and a group that is polled has a register of \<open>L\<close>.\<close>

definition polled :: "msg_register_poll list \<Rightarrow> reg_ident \<Rightarrow> bool" where
  "polled rs i \<longleftrightarrow> (\<exists>g \<in> set rs. polling g \<and> in_group g i)"

definition backed :: "reg_ident set \<Rightarrow> msg_register_poll list \<Rightarrow> bool" where
  "backed L rs \<longleftrightarrow> (\<forall>g \<in> set rs. polling g \<longrightarrow> (\<exists>i \<in> L. in_group g i))"

lemma serves_in_group: "serves h g \<Longrightarrow> polling g \<Longrightarrow> in_group g i \<Longrightarrow> polling h \<and> in_group h i"
  by (auto simp: serves_def contains_def polling_def in_group_def regs_def split: if_splits)

lemma polled_merge:
  assumes "polled (poll # rs) i"
  shows "polled (merge_registers rs poll) i"
proof -
  obtain g where g: "g \<in> set (poll # rs)" "polling g" "in_group g i"
    using assms by (auto simp: polled_def)
  then have "\<exists>r \<in> set (poll # rs). serves r g" using serves_refl by blast
  then obtain h where "h \<in> set (merge_registers rs poll)" "serves h g"
    using merge_registers_serves by blast
  with g serves_in_group show ?thesis unfolding polled_def by blast
qed

lemma in_group_foldl:
  "in_group g i \<Longrightarrow> in_group (foldl merge_poll g rs) i"
proof (induction rs arbitrary: g)
  case (Cons r rs)
  have "in_group (merge_poll g r) i"
    using Cons.prems regs_merge_poll_subset [of g r] by (auto simp: in_group_def)
  then show ?case using Cons.IH by simp
qed simp

lemma backed_merge:
  assumes "backed L rs" and "i \<in> L" and "in_group poll i"
  shows "backed L (merge_registers rs poll)"
  using assms in_group_foldl [OF assms(3)] by (auto simp: backed_def merge_registers_eq)

lemma backed_mono: "backed L rs \<Longrightarrow> L \<subseteq> M \<Longrightarrow> backed M rs"
  by (auto simp: backed_def)

text \<open>Groups of the configuration of a network are not polled by themselves.\<close>

lemma idle_foldl:
  "\<not> polling p \<Longrightarrow> list_all (\<lambda>g. \<not> polling g) gs \<Longrightarrow> \<not> polling (foldl merge_poll p gs)"
  by (induction gs arbitrary: p) (simp_all add: polling_def merge_refresh_def)

lemma idle_merge:
  assumes "\<not> polling poll" and "list_all (\<lambda>g. \<not> polling g) rs"
  shows "list_all (\<lambda>g. \<not> polling g) (merge_registers rs poll)"
proof -
  have "list_all (\<lambda>g. \<not> polling g) (filter P rs)" for P
    using assms(2) by (simp add: list_all_iff)
  then show ?thesis using idle_foldl [OF assms(1)] by (simp add: merge_registers_eq)
qed

lemma merge_list_polled:
  "polled (ps @ specRegisters s) i \<Longrightarrow> polled (specRegisters (spec_merge_list s ps)) i"
proof -
  assume "polled (ps @ specRegisters s) i"
  then obtain g where g: "g \<in> set (ps @ specRegisters s)" "polling g" "in_group g i"
    by (auto simp: polled_def)
  then have "\<exists>r \<in> set (ps @ specRegisters s). serves r g" using serves_refl by blast
  then obtain h where "h \<in> set (specRegisters (spec_merge_list s ps))" "serves h g"
    using spec_merge_list_serves by blast
  with g serves_in_group show ?thesis unfolding polled_def by blast
qed

lemma merge_list_backed:
  "backed L (specRegisters s) \<Longrightarrow> \<forall>p \<in> set ps. \<exists>i \<in> L. in_group p i \<Longrightarrow>
   backed L (specRegisters (spec_merge_list s ps))"
  by (induction ps arbitrary: s) (auto simp: backed_merge)

lemma merge_list_idle:
  "list_all (\<lambda>g. \<not> polling g) ps \<Longrightarrow> list_all (\<lambda>g. \<not> polling g) (specRegisters s) \<Longrightarrow>
   list_all (\<lambda>g. \<not> polling g) (specRegisters (spec_merge_list s ps))"
  by (induction ps arbitrary: s) (simp_all add: idle_merge)

section \<open>Specifications of the objects\<close>

text \<open>
  The specifications collected while the objects with the registers \<open>L\<close> are read. The null pointer
  of a node without registers is not a register.
\<close>

definition specs_ok :: "reg_ident set \<Rightarrow> poll_spec list \<Rightarrow> bool" where
  "specs_ok L specs \<longleftrightarrow>
     distinct (map specNetworkName specs) \<and>
     (\<forall>s \<in> set specs. groups_ok (specRegisters s) \<and> list_all polling (specRegisters s) \<and>
        (\<forall>g \<in> set (specRegisters s). \<exists>i \<in> L. idNetworkName i = specNetworkName s \<and> in_group g i)) \<and>
     (\<forall>i \<in> L. i \<noteq> null_ident \<longrightarrow>
        (\<exists>s \<in> set specs. specNetworkName s = idNetworkName i \<and> polled (specRegisters s) i))"

definition spec_ok :: "reg_ident set \<Rightarrow> poll_spec \<Rightarrow> bool" where
  "spec_ok L s \<longleftrightarrow> groups_ok (specRegisters s) \<and> list_all polling (specRegisters s) \<and>
     (\<forall>g \<in> set (specRegisters s). \<exists>i \<in> L. idNetworkName i = specNetworkName s \<and> in_group g i)"

definition spec_polls_leaf :: "poll_spec list \<Rightarrow> reg_ident \<Rightarrow> bool" where
  "spec_polls_leaf specs i \<longleftrightarrow>
     (\<exists>s \<in> set specs. specNetworkName s = idNetworkName i \<and> polled (specRegisters s) i)"

lemma specs_ok_iff:
  "specs_ok L specs \<longleftrightarrow> distinct (map specNetworkName specs) \<and> (\<forall>s \<in> set specs. spec_ok L s) \<and>
     (\<forall>i \<in> L. i \<noteq> null_ident \<longrightarrow> spec_polls_leaf specs i)"
  by (simp add: specs_ok_def spec_ok_def spec_polls_leaf_def)

lemma spec_ok_mono: "spec_ok L s \<Longrightarrow> L \<subseteq> M \<Longrightarrow> spec_ok M s"
  unfolding spec_ok_def by (meson subsetD)

lemma polling_foldl: "polling p \<Longrightarrow> polling (foldl merge_poll p gs)"
  by (induction gs arbitrary: p) (simp_all add: polling_def merge_refresh_def)

lemma polling_merge:
  "polling poll \<Longrightarrow> list_all polling rs \<Longrightarrow> list_all polling (merge_registers rs poll)"
  by (auto simp: merge_registers_eq polling_foldl list_all_iff)

lemma specNetworkName_merge [simp]: "specNetworkName (spec_merge s p) = specNetworkName s"
  by (simp add: spec_merge_def)

lemma specNetworkName_merge_list [simp]:
  "specNetworkName (spec_merge_list s ps) = specNetworkName s"
  by (induction ps arbitrary: s) simp_all

lemma spec_ok_merge:
  assumes "spec_ok L s" and "range_wf poll" and "polling poll"
    and "i \<in> L" and "idNetworkName i = specNetworkName s" and "in_group poll i"
  shows "spec_ok L (spec_merge s poll)"
proof -
  have "\<exists>i \<in> L. idNetworkName i = specNetworkName s \<and> in_group g i"
    if "g \<in> set (merge_registers (specRegisters s) poll)" for g
  proof (cases "g \<in> set (specRegisters s)")
    case True
    then show ?thesis using assms(1) by (simp add: spec_ok_def)
  next
    case False
    then have "in_group g i"
      using that in_group_foldl [OF assms(6)] by (auto simp: merge_registers_eq)
    then show ?thesis using assms(4,5) by blast
  qed
  then show ?thesis
    using assms by (simp add: spec_ok_def groups_ok_merge_registers polling_merge)
qed

lemma update_spec_Some:
  "update_spec net poll specs = Some specs' \<Longrightarrow>
   \<exists>xs s ys. specs = xs @ s # ys \<and> specNetworkName s = net \<and> specs' = xs @ spec_merge s poll # ys"
proof (induction specs arbitrary: specs')
  case (Cons s specs)
  show ?case
  proof (cases "specNetworkName s = net")
    case True
    then show ?thesis using Cons.prems by (intro exI [of _ "[]"]) auto
  next
    case False
    then obtain t where t: "update_spec net poll specs = Some t" "specs' = s # t"
      using Cons.prems by auto
    obtain xs s' ys where "specs = xs @ s' # ys" "specNetworkName s' = net"
      "t = xs @ spec_merge s' poll # ys"
      using Cons.IH [OF t(1)] by blast
    then show ?thesis using t by (intro exI [of _ "s # xs"]) auto
  qed
qed simp

lemma update_spec_None:
  "update_spec net poll specs = None \<Longrightarrow> net \<notin> specNetworkName ` set specs"
  by (induction specs) (auto split: if_splits)

text \<open>Where a poll ends up: in one specification, the others stay.\<close>

lemma add_poll_cases:
  obtains xs s ys where "specs = xs @ s # ys" "specNetworkName s = net"
    "add_poll net poll specs = xs @ spec_merge s poll # ys"
  | "net \<notin> specNetworkName ` set specs" "add_poll net poll specs = spec_merge (empty_spec net) poll # specs"
proof (cases "update_spec net poll specs")
  case None
  then show ?thesis using that(2) update_spec_None by (simp add: add_poll_def)
next
  case (Some specs')
  then show ?thesis using that(1) update_spec_Some [OF Some] by (auto simp: add_poll_def)
qed

lemma spec_ok_empty: "spec_ok L (empty_spec net)"
  by (simp add: spec_ok_def empty_spec_def)

lemma specNetworkName_empty [simp]: "specNetworkName (empty_spec net) = net"
  by (simp add: empty_spec_def)

lemma add_poll_polls:
  assumes i: "spec_polls_leaf specs i \<or> polling poll \<and> idNetworkName i = net \<and> in_group poll i"
  shows "spec_polls_leaf (add_poll net poll specs) i"
proof -
  have new: "polled (specRegisters (spec_merge s poll)) i"
    if "polled (specRegisters s) i \<or> polling poll \<and> in_group poll i" for s
    using that polled_merge [of poll "specRegisters s" i] by (auto simp: polled_def)
  show "spec_polls_leaf (add_poll net poll specs) i"
  proof (cases rule: add_poll_cases [of specs net poll])
    case (1 xs s ys)
    then show ?thesis using i new [of s] by (auto simp: spec_polls_leaf_def)
  next
    case 2
    then show ?thesis using i new [of "empty_spec net"] by (auto simp: spec_polls_leaf_def)
  qed
qed

lemma specs_ok_add_poll:
  assumes ok: "specs_ok L specs" and poll: "range_wf poll" "polling poll" and sub: "L \<subseteq> M"
    and i: "i \<in> M" "idNetworkName i = net" "in_group poll i"
    and new: "\<forall>j \<in> M - L. idNetworkName j = net \<and> in_group poll j"
  shows "specs_ok M (add_poll net poll specs)"
proof -
  have old: "spec_ok M s" if "s \<in> set specs" for s
    using ok that spec_ok_mono [OF _ sub] by (simp add: specs_ok_iff)
  have leaf: "spec_polls_leaf (add_poll net poll specs) j" if "j \<in> M" "j \<noteq> null_ident" for j
    using that ok new poll(2) by (intro add_poll_polls) (auto simp: specs_ok_iff)
  show ?thesis
  proof (cases rule: add_poll_cases [of specs net poll])
    case (1 xs s ys)
    have "spec_ok M (spec_merge s poll)"
      using old [of s] 1 i by (intro spec_ok_merge [OF _ poll]) auto
    then show ?thesis using 1 ok old leaf by (auto simp: specs_ok_iff)
  next
    case 2
    have "spec_ok M (spec_merge (empty_spec net) poll)"
      using i by (intro spec_ok_merge [OF spec_ok_empty poll]) auto
    then show ?thesis using 2 ok old leaf by (auto simp: specs_ok_iff)
  qed
qed

section \<open>Reading nodes\<close>

text \<open>The nodes of a document, and that the counts in it are positive.\<close>

inductive_set doc_nodes :: "'n yaml_lib \<Rightarrow> 'n \<Rightarrow> 'n set" for lib root where
  node_root: "root \<in> doc_nodes lib root"
| node_child: "n \<in> doc_nodes lib root \<Longrightarrow> child lib n k \<in> doc_nodes lib root"
| node_element: "n \<in> doc_nodes lib root \<Longrightarrow> e \<in> set (elements lib n) \<Longrightarrow> e \<in> doc_nodes lib root"

lemma doc_nodes_trans: "m \<in> doc_nodes lib n \<Longrightarrow> n \<in> doc_nodes lib root \<Longrightarrow> m \<in> doc_nodes lib root"
  by (induction rule: doc_nodes.induct) (auto intro: doc_nodes.intros)

definition counts_positive :: "'n yaml_lib \<Rightarrow> 'n \<Rightarrow> bool" where
  "counts_positive lib y \<longleftrightarrow>
     (\<forall>n \<in> doc_nodes lib y. \<forall>v. asInt lib (child lib n ''count'') = Some v \<longrightarrow> 0 < v)"

lemma counts_positive_node:
  assumes "counts_positive lib y" and "n \<in> doc_nodes lib y"
  shows "counts_positive lib n"
  unfolding counts_positive_def
proof
  fix m assume "m \<in> doc_nodes lib n"
  then have "m \<in> doc_nodes lib y" using assms(2) by (rule doc_nodes_trans)
  then show "\<forall>v. asInt lib (child lib m ''count'') = Some v \<longrightarrow> 0 < v"
    using assms(1) by (simp add: counts_positive_def)
qed

lemma counts_positive_child [intro]: "counts_positive lib y \<Longrightarrow> counts_positive lib (child lib y k)"
  by (erule counts_positive_node) (rule node_child [OF node_root])

lemma counts_positive_element [intro]:
  "counts_positive lib y \<Longrightarrow> e \<in> set (elements lib y) \<Longrightarrow> counts_positive lib e"
  by (erule counts_positive_node) (rule node_element [OF node_root])

lemma as_msec_nonneg: "as_msec lib n = Inr t \<Longrightarrow> 0 \<le> t"
proof -
  assume "as_msec lib n = Inr t"
  then obtain s where s: "decode_msec (markLine lib n) s = Inr t"
    by (auto simp: as_msec_def fault_simps)
  let ?ds = "takeWhile (is_digit 10) (c_str s)"
  have digits: "list_all (is_digit 10) ?ds" by (auto simp: list_all_iff dest: set_takeWhileD)
  obtain v pos where v: "stoi 10 ?ds = Inr (v, pos)" "t = v \<or> t = v * 1000 \<or> t = v * 60000"
    using s by (auto simp: decode_msec_def Let_def fault_simps int_mul_def split: if_splits)
  have "0 \<le> v"
  proof (cases ?ds)
    case Nil
    then show ?thesis using v by (simp add: stoi_def strtol_def split_sign_def split_base_def)
  next
    case (Cons d ds)
    then have "is_digit 10 d" using digits by simp
    from digit_not_special [OF this] show ?thesis
      using v Cons
      by (auto simp: stoi_def strtol_def split_sign_def split_base_def Let_def split: if_splits)
  qed
  then show "0 \<le> t" using v(2) by auto
qed

definition child_leaves :: "data_node \<Rightarrow> reg_ident set" where
  "child_leaves n = \<Union> (reg_leaves ` set (childNodes n))"

lemma leaves_child_leaves:
  "reg_leaves n = (if childNodes n = [] then {ident n} else child_leaves n)"
  by (cases n) (simp add: child_leaves_def)

lemma addChild_sel [simp]:
  "childNodes (addChildDataNode c f n) = childNodes n @ [c]"
  "ident (addChildDataNode c f n) = ident n"
  "nodeConverter (addChildDataNode c f n) = nodeConverter n"
  by (cases n; simp add: addChildDataNode_def)+

lemma child_leaves_add: "child_leaves (addChildDataNode c f n) = child_leaves n \<union> reg_leaves c"
  by (simp add: child_leaves_def Un_commute)

lemma setScalar_sel [simp]:
  "childNodes (setScalarNode i n) = childNodes n" "ident (setScalarNode i n) = i"
  "nodeConverter (setScalarNode i n) = nodeConverter n"
  by (cases n; simp add: setScalarNode_def)+

lemma new_node_sel [simp]:
  "childNodes (new_node name conv) = []" "ident (new_node name conv) = null_ident"
  "nodeConverter (new_node name conv) = map_option toMqtt conv"
  by (simp_all add: new_node_def)

lemma fold_addChild:
  "childNodes (fold (\<lambda>i node. addChildDataNode (f i) b node) xs n) = childNodes n @ map f xs"
  "nodeConverter (fold (\<lambda>i node. addChildDataNode (f i) b node) xs n) = nodeConverter n"
  by (induction xs arbitrary: n) simp_all

lemma register_nodes_leaves:
  assumes "register_nodes first n node = Inr node'" and "0 < n" and "childNodes node = []"
  shows "reg_leaves node' = (\<lambda>k. first\<lparr>idRegisterNumber := k\<rparr>) `
      {idRegisterNumber first..idRegisterNumber first + n - 1}"
proof (cases "n = 1")
  case True
  then show ?thesis using assms by (auto simp: register_nodes_def leaves_child_leaves)
next
  case False
  let ?f = "\<lambda>i. setScalarNode (first\<lparr>idRegisterNumber := i\<rparr>) (new_node [] None)"
  let ?ks = "[idRegisterNumber first..idRegisterNumber first + n - 1]"
  have node': "childNodes node' = map ?f ?ks"
    using assms False
    by (auto simp: register_nodes_def Let_def fold_addChild split: if_splits)
  have leaf: "reg_leaves (?f i) = {first\<lparr>idRegisterNumber := i\<rparr>}" for i
    by (simp add: leaves_child_leaves)
  have "?ks \<noteq> []" using assms(2) False by simp
  then have "childNodes node' \<noteq> []" using node' by simp
  then have "reg_leaves node' = (\<Union>i \<in> set ?ks. reg_leaves (?f i))"
    by (simp only: leaves_child_leaves [of node'] child_leaves_def node' if_False set_map image_image)
  then show ?thesis by (simp only: leaf UNION_singleton_eq_range set_upto)
qed

lemma RegisterConfigName_network:
  assumes "new_RegisterConfigName lib data net slave = Inr r"
  shows "rnNetworkName r \<noteq> []"
proof -
  obtain str where "(case match_register (c_str (trim str)) of
        None \<Rightarrow> Inl (config_exn (markLine lib (child lib data ''register''))
          ''Invalid register specification'')
      | Some (network, sl, reg) \<Rightarrow>
          bindE (if network \<noteq> [] then Inr network
                 else if net \<noteq> [] then Inr net
                 else Inl (config_exn (markLine lib (child lib data ''register''))
                   ''Unknown network in register specification'')) (\<lambda>net.
          bindE (if sl \<noteq> [] then bindE (stoi 10 sl) (\<lambda>(n, _). Inr n)
                 else if slave \<noteq> -1 then Inr slave
                 else Inl (config_exn (markLine lib (child lib data ''register''))
                   ''Unknown slave id in register specification'')) (\<lambda>slaveId.
          bindE (register_number (markLine lib (child lib data ''register'')) reg) (\<lambda>n.
            Inr \<lparr>rnNetworkName = net, rnSlaveId = slaveId, rnRegisterNumber = n\<rparr>)))) = Inr r"
    using assms unfolding new_RegisterConfigName_def Let_def bindE_Inr_iff by (elim exE conjE)
  then show ?thesis
    by (cases "match_register (c_str (trim str))")
      (auto simp: bindE_Inr_iff split: if_split_asm)
qed

lemma new_register_poll_sel [simp]:
  "mSlaveId (new_register_poll s r ty n) = s" "mRegister (new_register_poll s r ty n) = r"
  "mRegisterType (new_register_poll s r ty n) = ty" "mCount (new_register_poll s r ty n) = n"
  by (simp_all add: new_register_poll_def)

lemma updateSpecification_poll:
  assumes "updateSpecification lib data n refresh net slave mode specs = Inr (first, specs')"
  obtains poll where "specs' = add_poll (idNetworkName first) poll specs" "idNetworkName first \<noteq> []"
    "mSlaveId poll = idSlaveId first" "mRegisterType poll = idRegisterType first"
    "mRegister poll = idRegisterNumber first" "mCount poll = n" "mRefreshMsec poll = refresh"
proof -
  obtain rname ty where r: "new_RegisterConfigName lib data net slave = Inr rname"
    and first: "first = \<lparr>idNetworkName = rnNetworkName rname, idSlaveId = rnSlaveId rname,
        idRegisterNumber = rnRegisterNumber rname, idRegisterType = ty\<rparr>"
    and specs': "specs' = add_poll (rnNetworkName rname)
        ((new_register_poll (rnSlaveId rname) (rnRegisterNumber rname) ty n)
          \<lparr>mRefreshMsec := refresh, mPublishMode := mode\<rparr>) specs"
    using assms by (simp add: updateSpecification_def bindE_Inr_iff) blast
  show ?thesis
    by (rule that [of "(new_register_poll (rnSlaveId rname) (rnRegisterNumber rname) ty n)
        \<lparr>mRefreshMsec := refresh, mPublishMode := mode\<rparr>"])
      (simp_all add: first specs' RegisterConfigName_network [OF r])
qed

lemma readOptionalValue_Some:
  "readOptionalValue lib as p k = Inr (Some v) \<Longrightarrow> as (child lib p k) = Inr v"
  by (auto simp: readOptionalValue_def Let_def bindE_Inr_iff split: if_split_asm)

lemma readOptionalInto_Inr:
  "readOptionalInto lib as p k d = Inr v \<Longrightarrow> v = d \<or> as (child lib p k) = Inr v"
  by (auto simp: readOptionalInto_def bindE_Inr_iff dest!: readOptionalValue_Some
      split: option.split_asm)

lemma counts_positiveD:
  "counts_positive lib y \<Longrightarrow> as_int lib (child lib y ''count'') = Inr n \<Longrightarrow> 0 < n"
  by (auto simp: counts_positive_def as_or_throw_def intro: node_root split: option.splits)

text \<open>A node that was read adds its registers to those the specifications are made for.\<close>

definition reads_leaves ::
  "'n yaml_lib \<Rightarrow> ('n \<Rightarrow> parse_state \<Rightarrow> cpp_exn + (data_node \<times> parse_state)) \<Rightarrow> bool" where
  "reads_leaves lib parse \<longleftrightarrow>
     (\<forall>y L st node st'. counts_positive lib y \<longrightarrow> specs_ok L (snd st) \<longrightarrow>
        parse y st = Inr (node, st') \<longrightarrow> specs_ok (L \<union> reg_leaves node) (snd st'))"

lemma reads_leavesD:
  "reads_leaves lib parse \<Longrightarrow> parse y st = Inr (node, st') \<Longrightarrow> specs_ok L (snd st) \<Longrightarrow>
   counts_positive lib y \<Longrightarrow> specs_ok (L \<union> reg_leaves node) (snd st')"
  unfolding reads_leaves_def by blast

lemma specs_ok_null: "specs_ok L specs \<Longrightarrow> specs_ok (insert null_ident L) specs"
  by (auto simp: specs_ok_iff intro: spec_ok_mono)

lemma in_group_first:
  assumes "mSlaveId poll = idSlaveId first" and "mRegisterType poll = idRegisterType first"
    and "mRegister poll = idRegisterNumber first" and "mCount poll = n"
  shows "in_group poll (first\<lparr>idRegisterNumber := k\<rparr>) \<longleftrightarrow>
    k \<in> {idRegisterNumber first..idRegisterNumber first + n - 1}"
  using assms by (simp add: in_group_def regs_def firstRegister_def lastRegister_def)

lemma parse_registers_leaves:
  assumes parse: "parse_registers lib y net slave refresh mode node st = Inr (node', st')"
    and ok: "specs_ok L (snd st)" and counts: "counts_positive lib y"
    and refresh: "0 \<le> refresh" and node: "childNodes node = []"
  shows "specs_ok (L \<union> reg_leaves node') (snd st')"
proof -
  obtain n first specs where
    n: "readOptionalInto lib (as_int lib) y ''count'' 1 = Inr n"
    and upd: "updateSpecification lib y n refresh net slave mode (snd st) = Inr (first, specs)"
    and nodes: "register_nodes first n node = Inr node'" and st': "st' = (fst st, specs)"
    using parse by (simp add: parse_registers_def bindE_Inr_iff split_beta) (metis prod.collapse)
  have pos: "0 < n"
    using readOptionalInto_Inr [OF n] counts_positiveD [OF counts] by auto
  obtain poll where poll: "specs = add_poll (idNetworkName first) poll (snd st)"
    "mSlaveId poll = idSlaveId first" "mRegisterType poll = idRegisterType first"
    "mRegister poll = idRegisterNumber first" "mCount poll = n" "mRefreshMsec poll = refresh"
    using updateSpecification_poll [OF upd] by blast
  note leaf = register_nodes_leaves [OF nodes pos node]
  note grp = in_group_first [OF poll(2-5)]
  have first: "first \<in> reg_leaves node'" using pos by (simp add: leaf image_iff) force
  show ?thesis unfolding st' poll(1) snd_conv
  proof (rule specs_ok_add_poll [OF ok])
    show "range_wf poll" using poll pos by (simp add: range_wf_def)
    show "polling poll" using poll refresh by (simp add: polling_def INVALID_REFRESH_def)
    show "in_group poll first" using grp [of "idRegisterNumber first"] pos by simp
    show "\<forall>j \<in> L \<union> reg_leaves node' - L. idNetworkName j = idNetworkName first \<and> in_group poll j"
    proof
      fix j assume "j \<in> L \<union> reg_leaves node' - L"
      then obtain k where "j = first\<lparr>idRegisterNumber := k\<rparr>"
        "k \<in> {idRegisterNumber first..idRegisterNumber first + n - 1}"
        unfolding leaf by blast
      then show "idNetworkName j = idNetworkName first \<and> in_group poll j" using grp [of k] by simp
    qed
  qed (use first in auto)
qed

lemma parse_children_leaves:
  assumes parse: "reads_leaves lib parse"
  shows "parse_children lib parse u ys node st = Inr (node', st') \<Longrightarrow>
    specs_ok (L \<union> child_leaves node) (snd st) \<Longrightarrow> \<forall>y \<in> set ys. counts_positive lib y \<Longrightarrow>
    specs_ok (L \<union> child_leaves node') (snd st') \<and> ident node' = ident node"
proof (induction ys arbitrary: node st)
  case (Cons y ys)
  from Cons.prems(1) obtain c st1 where c: "parse y st = Inr (c, st1)"
    and rest: "parse_children lib parse u ys (addChildDataNode c True node) st1 = Inr (node', st')"
    by (auto simp: bindE_Inr_iff split: if_splits)
  have "specs_ok (L \<union> child_leaves (addChildDataNode c True node)) (snd st1)"
    using reads_leavesD [OF parse c Cons.prems(2)] Cons.prems(3) by (simp add: child_leaves_add Un_assoc)
  then show ?case using Cons.IH [OF rest] Cons.prems(3) by simp
qed simp

lemma parse_node_body_leaves:
  assumes body: "parse_node_body lib parse y net slave refresh mode (new_node name conv) st = Inr (node, st')"
    and parse: "reads_leaves lib parse" and ok: "specs_ok L (snd st)"
    and counts: "counts_positive lib y" and refresh: "0 \<le> refresh"
  shows "specs_ok (L \<union> reg_leaves node) (snd st')"
proof (cases "IsDefined lib (child lib y ''registers'')")
  case False
  then show ?thesis
    using body parse_registers_leaves [OF _ ok counts refresh] by (simp add: parse_node_body_def Let_def)
next
  case True
  then have children: "parse_children lib parse (isUnnamed (new_node name conv))
      (elements lib (child lib y ''registers'')) (new_node name conv) st = Inr (node, st')"
    using body by (simp add: parse_node_body_def Let_def split: if_split_asm)
  have "specs_ok (L \<union> child_leaves (new_node name conv)) (snd st)"
    using ok by (simp add: child_leaves_def)
  moreover have "\<forall>e \<in> set (elements lib (child lib y ''registers'')). counts_positive lib e"
    using counts by blast
  ultimately have "specs_ok (L \<union> child_leaves node) (snd st')" "ident node = null_ident"
    using parse_children_leaves [OF parse children] by simp_all
  then show ?thesis
    using specs_ok_null [of "L \<union> child_leaves node"]
    by (cases "childNodes node = []") (simp_all add: leaves_child_leaves [of node] child_leaves_def)
qed

lemma parseObjectDataNode_leaves:
  "0 \<le> refresh \<Longrightarrow> reads_leaves lib (parseObjectDataNode depth lib create net slave mode refresh)"
proof (induction depth arbitrary: refresh)
  case (Suc depth)
  show ?case unfolding reads_leaves_def
  proof (intro allI impI)
    fix y L and st :: parse_state and node st'
    assume counts: "counts_positive lib y" and ok: "specs_ok L (snd st)"
      and parse: "parseObjectDataNode (Suc depth) lib create net slave mode refresh y st = Inr (node, st')"
    obtain every specs where st: "st = (every, specs)" by (cases st)
    from parse obtain name r conv every' where
      r: "readOptionalValue lib (as_msec lib) y ''refresh'' = Inr r"
      and body: "parse_node_body lib (parseObjectDataNode depth lib create net slave mode
          (case r of None \<Rightarrow> refresh | Some t \<Rightarrow> t)) y net slave
          (case r of None \<Rightarrow> refresh | Some t \<Rightarrow> t) mode (new_node name conv) (every', specs)
        = Inr (node, st')"
      unfolding st parseObjectDataNode.simps Let_def bindE_Inr_iff by (elim exE conjE)
    have refresh': "0 \<le> (case r of None \<Rightarrow> refresh | Some t \<Rightarrow> t)"
    proof (cases r)
      case (Some t)
      then show ?thesis using r readOptionalValue_Some as_msec_nonneg by fastforce
    qed (use Suc.prems in simp)
    show "specs_ok (L \<union> reg_leaves node) (snd st')"
      using parse_node_body_leaves [OF body Suc.IH [OF refresh'] _ counts refresh'] ok st by simp
  qed
qed (simp add: reads_leaves_def)

section \<open>Nesting of nodes\<close>

text \<open>The elements of \<open>registers\<close> are lower than the node, as in every finite document.\<close>

definition heights_shrink :: "'n yaml_lib \<Rightarrow> bool" where
  "heights_shrink lib \<longleftrightarrow>
     (\<forall>n e. e \<in> set (elements lib (child lib n ''registers'')) \<longrightarrow> nodeHeight lib e < nodeHeight lib n)"

lemma parse_children_cong:
  "(\<And>y st. y \<in> set ys \<Longrightarrow> f y st = g y st) \<Longrightarrow>
   parse_children lib f u ys node st = parse_children lib g u ys node st"
proof (induction ys arbitrary: node st)
  case (Cons y ys)
  have "parse_children lib f u ys = parse_children lib g u ys"
    by (intro ext Cons.IH) (simp add: Cons.prems)
  then show ?case using Cons.prems by (simp cong: if_cong)
qed simp

lemma parse_depth_irrelevant:
  assumes shrink: "heights_shrink lib"
  shows "nodeHeight lib y < d \<Longrightarrow> nodeHeight lib y < d' \<Longrightarrow>
    parseObjectDataNode d lib create net slave mode refresh y st =
    parseObjectDataNode d' lib create net slave mode refresh y st"
proof (induction d arbitrary: d' y refresh st)
  case (Suc d)
  obtain e where d': "d' = Suc e" using Suc.prems(2) by (cases d') simp_all
  have lower: "parseObjectDataNode d lib create net slave mode r x s =
      parseObjectDataNode e lib create net slave mode r x s"
    if "x \<in> set (elements lib (child lib y ''registers''))" for r x s
  proof (rule Suc.IH)
    have "nodeHeight lib x < nodeHeight lib y" using shrink that by (simp add: heights_shrink_def)
    then show "nodeHeight lib x < d" "nodeHeight lib x < e" using Suc.prems d' by simp_all
  qed
  have body: "parse_node_body lib (parseObjectDataNode d lib create net slave mode r) y net slave r mode node s =
      parse_node_body lib (parseObjectDataNode e lib create net slave mode r) y net slave r mode node s"
    for r node s
    using parse_children_cong [of "elements lib (child lib y ''registers'')"
        "parseObjectDataNode d lib create net slave mode r"
        "parseObjectDataNode e lib create net slave mode r", OF lower]
    by (simp add: parse_node_body_def Let_def)
  obtain every specs where st: "st = (every, specs)" by (cases st)
  show ?case unfolding d' st parseObjectDataNode.simps Let_def body ..
qed simp

section \<open>Reading objects\<close>

lemma list_leaves_add: "list_leaves (addDataNode n force l) = list_leaves l \<union> reg_leaves n"
  by (simp add: list_leaves_def addDataNode_def Let_def Un_commute)

lemma list_leaves_empty [simp]: "list_leaves empty_nodes = {}"
  by (simp add: list_leaves_def empty_nodes_def)

lemma list_leaves_fold:
  "list_leaves (fold (\<lambda>n l. addDataNode n True l) ns l) = list_leaves l \<union> \<Union> (reg_leaves ` set ns)"
  by (induction ns arbitrary: l) (simp_all add: list_leaves_add Un_assoc)

lemma parse_state_map_leaves: "list_leaves (parse_state_map node) = reg_leaves node"
  by (simp add: parse_state_map_def list_leaves_fold list_leaves_add isScalar_def
      leaves_child_leaves [of node] child_leaves_def)

lemma parse_state_list_leaves:
  assumes parse: "reads_leaves lib parse"
  shows "parse_state_list lib parse u ys l st = Inr (l', st') \<Longrightarrow>
    specs_ok (L \<union> list_leaves l) (snd st) \<Longrightarrow> \<forall>y \<in> set ys. counts_positive lib y \<Longrightarrow>
    specs_ok (L \<union> list_leaves l') (snd st')"
proof (induction ys arbitrary: u l st)
  case (Cons y ys)
  from Cons.prems(1) obtain n st1 first where n: "parse y st = Inr (n, st1)"
    and rest: "parse_state_list lib parse (Some first) ys (addDataNode n first l) st1 = Inr (l', st')"
    by (auto simp: bindE_Inr_iff Let_def split: if_splits)
  show ?case
    using Cons.IH [OF rest] reads_leavesD [OF parse n Cons.prems(2)] Cons.prems(3)
    by (simp add: list_leaves_add Un_assoc)
qed simp

lemma parseState_leaves:
  assumes state: "parseState lib parse y st = Inr (l, st')"
    and parse: "reads_leaves lib parse" and ok: "specs_ok L (snd st)"
    and counts: "counts_positive lib y"
  shows "specs_ok (L \<union> list_leaves l) (snd st')"
proof (cases "IsDefined lib y \<and> IsMap lib y")
  case True
  then obtain node where node: "parse y st = Inr (node, st')" "l = parse_state_map node"
    using state by (cases "parse y st") (auto simp: parseState_def)
  show ?thesis using reads_leavesD [OF parse node(1) ok counts] node(2) by (simp add: parse_state_map_leaves)
next
  case False
  show ?thesis
  proof (cases "IsDefined lib y \<and> IsSequence lib y")
    case True
    then have "parse_state_list lib parse None (elements lib y) empty_nodes st = Inr (l, st')"
      using state False by (simp add: parseState_def)
    from parse_state_list_leaves [OF parse this] ok counts_positive_element [OF counts]
    show ?thesis by simp
  next
    case no_list: False
    then show ?thesis using state False ok by (auto simp: parseState_def split: if_split_asm)
  qed
qed

text \<open>A new object: its topics are made from one name, and nothing is known of its availability.\<close>

definition parsed_object :: "mqtt_object \<Rightarrow> bool" where
  "parsed_object obj \<longleftrightarrow> mStateTopic obj = mTopic obj @ ''/state'' \<and>
     mAvailabilityTopic obj = mTopic obj @ ''/availability'' \<and> mIsAvailable obj = NotSet"

lemma parseAvailability_leaves:
  assumes avail: "parseAvailability lib parse ys ya obj specs = Inr (obj', specs')"
    and parse: "reads_leaves lib parse" and ok: "specs_ok (L \<union> obj_leaves obj) specs"
    and fresh: "parsed_object obj" and counts: "counts_positive lib ya"
  shows "specs_ok (L \<union> obj_leaves obj') specs' \<and> parsed_object obj'"
proof -
  consider "obj' = obj" "specs' = specs"
    | v node st where "parse ya (0, specs) = Inr (node, st)" "specs' = snd st"
      "obj' = obj\<lparr>mAvailableValue := v, mAvailability := addDataNode node False (mAvailability obj)\<rparr>"
  proof (cases "IsDefined lib ya")
    case False
    then show ?thesis using avail that(1) by (simp add: parseAvailability_def)
  next
    case True
    obtain w where w: "readOptionalValue lib (as_string lib) ya ''available_value'' = Inr w"
      using avail True by (cases "readOptionalValue lib (as_string lib) ya ''available_value''")
        (simp_all add: parseAvailability_def)
    obtain node st where p: "parse ya (0, specs) = Inr (node, st)"
      using avail True w by (cases "parse ya (0, specs)")
        (auto simp: parseAvailability_def Let_def split: if_split_asm)
    show ?thesis
      using avail True w p that(2) [OF p, of "case w of None \<Rightarrow> mAvailableValue obj | Some s \<Rightarrow> fromString s"]
      by (cases obj; cases w) (auto simp: parseAvailability_def Let_def split: if_split_asm)
  qed
  then show ?thesis
  proof cases
    case 1
    then show ?thesis using ok fresh by simp
  next
    case 2
    then show ?thesis
      using fresh reads_leavesD [OF parse 2(1) _ counts, of "L \<union> obj_leaves obj"] ok
      by (simp add: obj_leaves_def list_leaves_add Un_assoc parsed_object_def)
  qed
qed

lemma parseObject_leaves:
  assumes obj: "parseObject lib create y net slave name refresh mode specs = Inr (obj, specs')"
    and ok: "specs_ok L specs" and counts: "counts_positive lib y" and refresh: "0 \<le> refresh"
  shows "specs_ok (L \<union> obj_leaves obj) specs' \<and> parsed_object obj"
proof -
  obtain topic retain pmode x where
    x: "parseState lib (parseDataNode lib create net slave pmode refresh) (child lib y ''state'')
      (refresh, specs) = Inr x"
    and a: "(case x of (state, every, specs1) \<Rightarrow>
       parseAvailability lib (parseDataNode lib create net slave pmode refresh)
        (child lib y ''state'') (child lib y ''availability'')
        ((new_MqttObject topic pmode every)\<lparr>mRetain := retain, mState := state\<rparr>) specs1) = Inr (obj, specs')"
    using obj unfolding parseObject_def Let_def bindE_Inr_iff by (elim exE conjE)
  obtain state every specs1 where x_eq: "x = (state, every, specs1)" by (cases x)
  note state = x [unfolded x_eq] and avail = a [unfolded x_eq prod.case]
  have parse: "reads_leaves lib (parseDataNode lib create net slave pmode refresh)"
    unfolding reads_leaves_def
    by (intro allI impI) (rule reads_leavesD [OF parseObjectDataNode_leaves [OF refresh]])
  have "specs_ok (L \<union> list_leaves state) specs1"
    using parseState_leaves [OF state parse] ok counts by auto
  then show ?thesis
    using parseAvailability_leaves [OF avail parse, of L] counts_positive_child [OF counts]
    by (simp add: obj_leaves_def new_MqttObject_def list_leaves_def parsed_object_def)
qed

text \<open>Every object so far has its registers in the specifications, and topics are not shared.\<close>

definition objects_ok :: "objects_init \<Rightarrow> bool" where
  "objects_ok oi \<longleftrightarrow> specs_ok (\<Union> (obj_leaves ` set (oiObjects oi))) (oiSpecs oi) \<and>
     distinct (map mTopic (oiObjects oi)) \<and> list_all parsed_object (oiObjects oi)"

lemma initObject_ok:
  assumes obj: "initObject lib create names mode y refresh net slave st = Inr st'"
    and ok: "objects_ok (snd st)" and counts: "counts_positive lib y" and refresh: "0 \<le> refresh"
  shows "objects_ok (snd st')"
proof -
  obtain created oi created' oi' where st: "st = (created, oi)" "st' = (created', oi')"
    by (cases st, cases st')
  obtain object specs nextId cs where
    parse: "parseObject lib create y net slave (getSlaveName names net slave) refresh mode (oiSpecs oi)
      = Inr (object, specs)"
    and topic: "\<not> list_ex (\<lambda>old. mTopic old = mTopic object) (oiObjects oi)"
    and oi': "oi' = \<lparr>oiObjects = oiObjects oi @ [object], oiSpecs = specs, oiNextCommandId = nextId,
      oiCommands = cs\<rparr>"
    using obj unfolding initObject_def Let_def st
    by (auto simp: bindE_Inr_iff split: if_split_asm)
  have "distinct (map mTopic (oiObjects oi'))"
    using topic ok by (auto simp: st oi' objects_ok_def list_ex_iff)
  moreover have "specs_ok (\<Union> (obj_leaves ` set (oiObjects oi)) \<union> obj_leaves object) specs"
    "parsed_object object"
    using parseObject_leaves [OF parse _ counts refresh, of "\<Union> (obj_leaves ` set (oiObjects oi))"] ok
    by (simp_all add: st objects_ok_def)
  ultimately show ?thesis using ok by (simp add: objects_ok_def st oi' Un_commute)
qed

lemma initObjectRange_ok:
  assumes "initObjectRange lib (initObject lib create names mode y refresh net) y r st = Inr st'"
    and "objects_ok (snd st)" and "counts_positive lib y" and "0 \<le> refresh"
  shows "objects_ok (snd st')"
proof -
  have "foldE (initObject lib create names mode y refresh net) [fst r..snd r] st = Inr st'"
    using assms(1) by (auto simp: initObjectRange_def split_beta split: if_split_asm)
  then show ?thesis
    by (rule foldE_keeps [where P = "\<lambda>st. objects_ok (snd st)", OF _ assms(2)])
      (rule initObject_ok [OF _ _ assms(3,4)])
qed

lemma initObjectNetwork_ok:
  assumes "initObjectNetwork lib create mi mode y refresh slaves net oi = Inr oi'"
    and "objects_ok oi" and "counts_positive lib y" and "0 \<le> refresh"
  shows "objects_ok oi'"
proof -
  obtain cr where
    "foldE (initObjectRange lib (initObject lib create (mSlaveNames mi) mode y refresh net) y)
       slaves ([], oi) = Inr (cr, oi')"
    using assms(1) by (auto simp: initObjectNetwork_def bindE_Inr_iff split: if_split_asm)
  then have "objects_ok (snd (cr, oi'))"
    by (rule foldE_keeps [where P = "\<lambda>st. objects_ok (snd st)"])
      (simp add: assms(2), rule initObjectRange_ok [OF _ _ assms(3,4)])
  then show ?thesis by simp
qed

lemma initConfigObject_ok:
  assumes obj: "initConfigObject lib create mi defaults y oi = Inr oi'"
    and ok: "objects_ok oi" and counts: "counts_positive lib y" and "0 \<le> odRefresh defaults"
  shows "objects_ok oi'"
proof -
  obtain refresh networks slaves where
    r: "readOptionalInto lib (as_msec lib) y ''refresh'' (odRefresh defaults) = Inr refresh"
    and loop: "foldE (initObjectNetwork lib create mi (odPublishMode defaults) y refresh
        (if slaves = [] then [(- 1, - 1)] else slaves))
       (if networks = [] then [[]] else networks) oi = Inr oi'"
    using obj unfolding initConfigObject_def bindE_Inr_iff by (elim exE conjE)
  have "0 \<le> refresh" using readOptionalInto_Inr [OF r] as_msec_nonneg assms(4) by auto
  from loop ok show ?thesis
    by (rule foldE_keeps) (rule initObjectNetwork_ok [OF _ _ counts \<open>0 \<le> refresh\<close>])
qed

lemma initObjects_ok:
  assumes obj: "initObjects lib create mi cs config = Inr oi" and counts: "counts_positive lib config"
  shows "objects_ok oi"
proof -
  obtain refresh mode where
    r: "readOptionalInto lib (as_msec lib) (child lib config ''mqtt'') ''refresh'' 5000 = Inr refresh"
    and loop: "foldE (initConfigObject lib create mi \<lparr>odRefresh = refresh, odPublishMode = mode\<rparr>)
       (elements lib (child lib (child lib config ''mqtt'') ''objects''))
       \<lparr>oiObjects = [], oiSpecs = [], oiNextCommandId = 1, oiCommands = cs\<rparr> = Inr oi"
    using obj by (simp add: initObjects_def Let_def bindE_Inr_iff split: if_split_asm) blast
  have "0 \<le> refresh" using readOptionalInto_Inr [OF r] as_msec_nonneg by auto
  from loop show ?thesis
  proof (rule foldE_keeps)
    fix y s t
    assume y: "y \<in> set (elements lib (child lib (child lib config ''mqtt'') ''objects''))"
      and s: "objects_ok s" "initConfigObject lib create mi \<lparr>odRefresh = refresh, odPublishMode = mode\<rparr> y s
        = Inr t"
    have "counts_positive lib y"
      by (rule counts_positive_element [OF _ y]) (intro counts_positive_child counts)
    with s show "objects_ok t" using \<open>0 \<le> refresh\<close> by (auto elim!: initConfigObject_ok)
  qed (simp add: objects_ok_def specs_ok_def)
qed

section \<open>Groups of the networks\<close>

lemma readRequiredValue_Inr:
  "readRequiredValue lib as p k = Inr v \<Longrightarrow> as (child lib p k) = Inr v"
  by (auto simp: readRequiredValue_def readRequiredNode_def Let_def split: if_split_asm)

text \<open>Groups of the configuration are ranges that are not polled before an object needs them.\<close>

definition idle_group :: "msg_register_poll \<Rightarrow> bool" where
  "idle_group g \<longleftrightarrow> range_wf g \<and> \<not> polling g"

lemma readModbusPollGroups_idle:
  assumes groups: "readModbusPollGroups lib net slave y = Inr polls" and counts: "counts_positive lib y"
  shows "list_all idle_group polls"
proof (cases "IsDefined lib y")
  case True
  then have "foldE (readPollGroup lib net slave) (elements lib y) [] = Inr polls"
    using groups by (simp add: readModbusPollGroups_def split: if_split_asm)
  then show ?thesis
  proof (rule foldE_keeps)
    fix x s t assume x: "x \<in> set (elements lib y)" and s: "list_all idle_group s" and "readPollGroup lib net slave x s = Inr t"
    then obtain reg :: register_name and n ty where n: "readRequiredValue lib (as_int lib) x ''count'' = Inr n"
      and t: "t = s @ [new_register_poll (rnSlaveId reg) (rnRegisterNumber reg) ty n]"
      by (auto simp: readPollGroup_def bindE_Inr_iff)
    have "0 < n"
      using counts_positiveD [OF counts_positive_element [OF counts x] readRequiredValue_Inr [OF n]] .
    then show "list_all idle_group t"
      using s by (simp add: t idle_group_def range_wf_def polling_def new_register_poll_def)
  qed simp
qed (use groups in \<open>simp add: readModbusPollGroups_def\<close>)

definition idle_spec :: "poll_spec \<Rightarrow> bool" where
  "idle_spec s \<longleftrightarrow> groups_ok (specRegisters s) \<and> list_all (\<lambda>g. \<not> polling g) (specRegisters s)"

lemma idle_spec_merge: "idle_spec s \<Longrightarrow> list_all idle_group ps \<Longrightarrow> idle_spec (spec_merge_list s ps)"
  unfolding idle_spec_def
  by (intro conjI groups_ok_spec_merge_list merge_list_idle) (auto simp: idle_group_def list_all_iff)

text \<open>Nothing to poll was sent to the thread yet.\<close>

definition no_spec_sent :: "modbus_client \<Rightarrow> bool" where
  "no_spec_sent c \<longleftrightarrow> (\<forall>spec. MessageItem (RegisterPollSpecification spec) \<notin> set (mToModbusQueue c))"

definition network_ok :: "network_init \<Rightarrow> bool" where
  "network_ok ni \<longleftrightarrow> idle_spec (niSpec ni) \<and>
     clNetworkName (niClient ni) = specNetworkName (niSpec ni) \<and> no_spec_sent (niClient ni)"

lemma initSlaveAddress_ok:
  "initSlaveAddress lib y addr ni = Inr ni' \<Longrightarrow> network_ok ni \<Longrightarrow> counts_positive lib y \<Longrightarrow> network_ok ni'"
  by (auto simp: initSlaveAddress_def Let_def bindE_Inr_iff network_ok_def client_enqueue_def
      no_spec_sent_def dest!: readModbusPollGroups_idle intro: idle_spec_merge)

lemma initSlave_ok:
  assumes slave: "initSlave lib y ni = Inr ni'" and ok: "network_ok ni" and counts: "counts_positive lib y"
  shows "network_ok ni'"
proof -
  obtain rs where "foldE (initSlaveRange lib y) rs ni = Inr ni'"
    using slave by (auto simp: initSlave_def bindE_Inr_iff)
  then show ?thesis using ok
  proof (rule foldE_keeps)
    fix r s t assume s: "network_ok s" and "initSlaveRange lib y r s = Inr t"
    then have "foldE (initSlaveAddress lib y) [fst r..snd r] s = Inr t"
      by (auto simp: initSlaveRange_def split_beta split: if_split_asm)
    then show "network_ok t"
      using s by (rule foldE_keeps) (rule initSlaveAddress_ok [OF _ _ counts])
  qed
qed

text \<open>One client for every specification, of the same network and in the same order.\<close>

definition networks_ok :: "modbus_init \<Rightarrow> bool" where
  "networks_ok mi \<longleftrightarrow> map clNetworkName (miClients mi) = map specNetworkName (mPollSpecification mi) \<and>
     list_all idle_spec (mPollSpecification mi) \<and> list_all no_spec_sent (miClients mi)"

lemma initNetwork_ok:
  assumes net: "initNetwork lib y mi = Inr mi'" and ok: "networks_ok mi" and counts: "counts_positive lib y"
  shows "networks_ok mi'"
proof -
  let ?ni = "\<lambda>cfg. \<lparr>niClient = start_client cfg, niSpec = empty_spec (ncName cfg), niNames = mSlaveNames mi\<rparr>"
  obtain cfg ni polls where
    slaves: "(if \<not> IsDefined lib (child lib y ''slaves'') then Inr (?ni cfg)
              else if \<not> IsSequence lib (child lib y ''slaves'')
              then Inl (config_exn (markLine lib (child lib y ''slaves'')) ''slaves content must be a list'')
              else foldE (initSlave lib) (elements lib (child lib y ''slaves'')) (?ni cfg)) = Inr ni"
    and groups: "(if \<not> IsDefined lib (child lib y ''poll_groups'') then Inr []
              else readModbusPollGroups lib (ncName cfg) (- 1) (child lib y ''poll_groups'')) = Inr polls"
    and mi': "mi' = \<lparr>miClients = miClients mi @ [niClient ni],
                mPollSpecification = mPollSpecification mi @ [spec_merge_list (niSpec ni) polls],
                mSlaveNames = niNames ni\<rparr>"
    using net unfolding initNetwork_def Let_def bindE_Inr_iff by (elim exE conjE) simp
  have "network_ok (?ni cfg)"
    by (simp add: network_ok_def idle_spec_def start_client_def empty_spec_def no_spec_sent_def)
  note start = this
  have ni: "network_ok ni"
  proof (cases "IsDefined lib (child lib y ''slaves'')")
    case True
    then have "foldE (initSlave lib) (elements lib (child lib y ''slaves'')) (?ni cfg) = Inr ni"
      using slaves by (simp split: if_split_asm)
    then show ?thesis using start
      by (rule foldE_keeps)
        (blast intro: initSlave_ok counts_positive_element counts_positive_child [OF counts])
  qed (use slaves start in simp)
  have "list_all idle_group polls"
    using groups readModbusPollGroups_idle [OF _ counts_positive_child [OF counts]]
    by (auto split: if_split_asm)
  then show ?thesis
    using ok ni idle_spec_merge by (simp add: networks_ok_def network_ok_def mi')
qed

lemma initModbusClients_ok:
  assumes "initModbusClients lib config = Inr mi" and counts: "counts_positive lib config"
  shows "networks_ok mi"
proof -
  have "foldE (initNetwork lib) (elements lib (child lib (child lib config ''modbus'') ''networks''))
      \<lparr>miClients = [], mPollSpecification = [], mSlaveNames = []\<rparr> = Inr mi"
    using assms(1) by (simp add: initModbusClients_def Let_def split: if_split_asm)
  then show ?thesis
    by (rule foldE_keeps) (simp add: networks_ok_def,
        blast intro: initNetwork_ok counts_positive_element counts_positive_child [OF counts])
qed

end
