(* ===== verification/Gateway_Ready.thy ===== *)
theory Gateway_Ready
  imports Gateway_Coverage Client_Properties Config_Properties
begin

text \<open>
  The state the initialisation hands over: the specifications in the queues of the Modbus threads,
  and the objects listed for every poll.
\<close>

section \<open>Merged specifications\<close>

definition all_leaves :: "mqtt_object list \<Rightarrow> reg_ident set" where
  "all_leaves objs = \<Union> (obj_leaves ` set objs)"

lemma mqtt_spec_of_Some:
  "mqtt_spec_of specs s = Some q \<Longrightarrow> q \<in> set specs \<and> specNetworkName q = specNetworkName s"
  by (auto simp: mqtt_spec_of_def find_Some_iff)

lemma mqtt_spec_of_distinct:
  assumes "distinct (map specNetworkName specs)" and "q \<in> set specs"
    and "specNetworkName q = specNetworkName s"
  shows "mqtt_spec_of specs s = Some q"
proof (cases "mqtt_spec_of specs s")
  case None
  then show ?thesis using assms(2,3) by (simp add: mqtt_spec_of_def find_None_iff)
next
  case (Some r)
  then show ?thesis
    using mqtt_spec_of_Some [OF Some] assms by (metis distinct_map inj_onD)
qed

lemma merged_groups_ok:
  assumes "idle_spec s" and "specs_ok L specs"
  shows "groups_ok (specRegisters (merge_specs specs s))"
proof (cases "mqtt_spec_of specs s")
  case (Some q)
  then have "groups_ok (specRegisters q)"
    using mqtt_spec_of_Some [OF Some] assms(2) by (simp add: specs_ok_def)
  then show ?thesis
    using Some assms(1) groups_ok_wf groups_ok_spec_merge_list
    by (auto simp: merge_specs_def idle_spec_def)
qed (use assms in \<open>simp add: merge_specs_def idle_spec_def\<close>)

lemma merged_polled:
  assumes "specs_ok L specs" and "i \<in> L" and "i \<noteq> null_ident" and "idNetworkName i = specNetworkName s"
  shows "mqtt_spec_of specs s \<noteq> None \<and> polled (specRegisters (merge_specs specs s)) i"
proof -
  obtain q where q: "q \<in> set specs" "specNetworkName q = idNetworkName i" "polled (specRegisters q) i"
    using assms(1-3) by (auto simp: specs_ok_def)
  then have "mqtt_spec_of specs s = Some q"
    using mqtt_spec_of_distinct assms(1,4) by (auto simp: specs_ok_def)
  moreover have "polled (specRegisters (spec_merge_list s (specRegisters q))) i"
    by (rule merge_list_polled) (use q(3) in \<open>auto simp: polled_def\<close>)
  ultimately show ?thesis by (simp add: merge_specs_def)
qed

lemma merged_backed:
  assumes idle: "idle_spec s" and specs: "specs_ok L specs"
    and g: "g \<in> set (specRegisters (merge_specs specs s))" "polling g"
  shows "\<exists>i \<in> L. idNetworkName i = specNetworkName s \<and> in_group g i"
proof -
  let ?L = "{i \<in> L. idNetworkName i = specNetworkName s}"
  have old: "backed ?L (specRegisters s)"
    using idle by (auto simp: backed_def idle_spec_def list_all_iff)
  have "backed ?L (specRegisters (merge_specs specs s))"
  proof (cases "mqtt_spec_of specs s")
    case (Some q)
    have "\<forall>p \<in> set (specRegisters q). \<exists>i \<in> ?L. in_group p i"
      using mqtt_spec_of_Some [OF Some] specs unfolding specs_ok_def by fastforce
    then show ?thesis using merge_list_backed [OF old] Some by (simp add: merge_specs_def)
  qed (use old in \<open>simp add: merge_specs_def\<close>)
  then show ?thesis using g by (auto simp: backed_def)
qed

section \<open>Sending the specifications\<close>

abbreviation spec_item :: "poll_spec list \<Rightarrow> poll_spec \<Rightarrow> modbus_item" where
  "spec_item specs s \<equiv> MessageItem (RegisterPollSpecification (merge_specs specs s))"

definition specs_for :: "poll_spec list \<Rightarrow> poll_spec list \<Rightarrow> string \<Rightarrow> poll_spec list" where
  "specs_for specs ss net = filter (\<lambda>s. specNetworkName s = net \<and> mqtt_spec_of specs s \<noteq> None) ss"

definition delivered :: "poll_spec list \<Rightarrow> poll_spec list \<Rightarrow> modbus_client \<Rightarrow> modbus_client" where
  "delivered specs ss c =
     c\<lparr>mToModbusQueue := mToModbusQueue c @ map (spec_item specs) (specs_for specs ss (clNetworkName c))\<rparr>"

lemma delivered_name [simp]: "clNetworkName (delivered specs ss c) = clNetworkName c"
  by (simp add: delivered_def)

lemma enqueue_first_map:
  "distinct (map clNetworkName cs) \<Longrightarrow>
   enqueue_first net item cs =
     map (\<lambda>c. if clNetworkName c = net then c\<lparr>mToModbusQueue := mToModbusQueue c @ [item]\<rparr> else c) cs"
proof (induction cs)
  case (Cons c cs)
  have "map (\<lambda>d. if clNetworkName d = clNetworkName c
      then d\<lparr>mToModbusQueue := mToModbusQueue d @ [item]\<rparr> else d) cs = cs"
    using Cons.prems by (intro map_idI) (auto simp: image_iff)
  then show ?case using Cons by auto
qed simp

lemma send_all:
  assumes "distinct (map clNetworkName (mModbusClients st))"
  shows "forC (sendSpecification specs) ss st =
    (Inr (), st\<lparr>mModbusClients := map (delivered specs ss) (mModbusClients st)\<rparr>)"
  using assms
proof (induction ss arbitrary: st)
  case Nil
  then show ?case by (simp add: returnC_def delivered_def specs_for_def map_idI)
next
  case (Cons s ss)
  let ?one = "\<lambda>c :: modbus_client. if clNetworkName c = specNetworkName s
    then c\<lparr>mToModbusQueue := mToModbusQueue c @ [spec_item specs s]\<rparr> else c"
  show ?case
  proof (cases "mqtt_spec_of specs s")
    case None
    then have "delivered specs (s # ss) = delivered specs ss"
      by (simp add: fun_eq_iff delivered_def specs_for_def)
    then show ?thesis using None Cons by (simp add: thenC_def bindC_def sendSpecification_def returnC_def)
  next
    case (Some q)
    have first: "sendSpecification specs s st =
        (Inr (), st\<lparr>mModbusClients := map ?one (mModbusClients st)\<rparr>)"
      using Some Cons.prems
      by (simp add: sendSpecification_def enqueueC_def modifyC_def enqueue_first_map)
    have "clNetworkName \<circ> ?one = clNetworkName" by (simp add: fun_eq_iff)
    then have "distinct (map clNetworkName (mModbusClients (st\<lparr>mModbusClients := map ?one (mModbusClients st)\<rparr>)))"
      using Cons.prems by simp
    from Cons.IH [OF this] first Some show ?thesis
      by (simp add: thenC_def bindC_def delivered_def specs_for_def)
  qed
qed

lemma specs_for_own:
  assumes "distinct (map specNetworkName ss)" and "s \<in> set ss" and "mqtt_spec_of specs s \<noteq> None"
  shows "specs_for specs ss (specNetworkName s) = [s]"
proof -
  obtain xs ys where ss: "ss = xs @ s # ys" using assms(2) by (meson split_list)
  then have "specNetworkName s \<notin> specNetworkName ` set (xs @ ys)" using assms(1) by auto
  then have "specs_for specs xs (specNetworkName s) = []" "specs_for specs ys (specNetworkName s) = []"
    unfolding specs_for_def filter_empty_conv set_append image_Un Un_iff
    by (metis imageI)+
  then show ?thesis using assms(3) by (simp add: ss specs_for_def)
qed

section \<open>Objects of the polls\<close>

lemma anyE_False: "anyE f xs = Inr False \<Longrightarrow> x \<in> set xs \<Longrightarrow> f x = Inr False"
  by (induction xs) (auto simp: bindE_Inr_iff split: if_split_asm)

definition register_of :: "string \<Rightarrow> 'a modbus_msg_scheme \<Rightarrow> reg_ident \<Rightarrow> bool" where
  "register_of net m i \<longleftrightarrow> idNetworkName i = net \<and> in_group m i"

lemma leaf_registerIn:
  "node_hasRegisterIn net m (DataNode name [] forced i v conv) \<longleftrightarrow> register_of net m i"
  by (auto simp: register_of_def in_group_def regs_def overlaps_def firstRegister_def lastRegister_def
      asModbusAddressRange_def)

lemma node_registerIn_False:
  "node_registerIn net m n = Inr False \<Longrightarrow> i \<in> reg_leaves n \<Longrightarrow> \<not> register_of net m i"
proof (induction net m n rule: node_registerIn.induct)
  case (1 net m name ns forced j v conv)
  show ?case
  proof (cases "ns = []")
    case True
    then show ?thesis
      using 1 leaf_registerIn [of net m name forced j v conv]
      by (auto simp del: node_hasRegisterIn.simps split: if_split_asm)
  next
    case False
    then obtain n where n: "n \<in> set ns" "i \<in> reg_leaves n" using 1(3) by auto
    have "anyE (node_registerIn net m) ns = Inr False" using 1(2) False by simp
    from anyE_False [OF this n(1)] show ?thesis using 1(1) [OF False n(1) _ n(2)] by blast
  qed
qed

lemma obj_registerIn_leaf:
  assumes "obj_registerIn net m obj = Inr b" and "i \<in> obj_leaves obj" and "register_of net m i"
  shows b
proof (rule ccontr)
  assume "\<not> b"
  then have "anyE (node_registerIn net m) (lNodes (mState obj)) = Inr False"
    "anyE (node_registerIn net m) (lNodes (mAvailability obj)) = Inr False"
    using assms(1) by (auto simp: obj_registerIn_def bindE_Inr_iff split: if_split_asm)
  then show False
    using assms(2,3) anyE_False node_registerIn_False by (fastforce simp: obj_leaves_def list_leaves_def)
qed

text \<open>The objects at a key, and what the loops over the polls and over the objects add to it.\<close>

definition at_key :: "('k, nat list) omap \<Rightarrow> 'k \<Rightarrow> nat set" where
  "at_key m k = (case map_of m k of None \<Rightarrow> {} | Some as \<Rightarrow> set as)"

lemma at_key_map_if:
  assumes "omap_ok m"
  shows "omap_ok (map_if k a m b)"
    and "at_key (map_if k a m b) = (if b then (at_key m)(k := insert a (at_key m k)) else at_key m)"
  using assms by (auto simp: map_if_def at_key_def map_of_omap_modify fun_eq_iff split: option.split)

definition has_poll :: "(string \<times> msg_register_poll) list \<Rightarrow> mqtt_object \<Rightarrow> reg_ident \<Rightarrow> bool" where
  "has_poll polls obj k \<longleftrightarrow>
     (\<exists>net g. (net, g) \<in> set polls \<and> k = ident_of net g \<and> obj_registerIn net g obj = Inr True)"

definition all_answer :: "(string \<times> msg_register_poll) list \<Rightarrow> mqtt_object \<Rightarrow> bool" where
  "all_answer polls obj \<longleftrightarrow> (\<forall>net g. (net, g) \<in> set polls \<longrightarrow> (\<exists>b. obj_registerIn net g obj = Inr b))"

lemma mapPollObjects_at_key:
  "mapPollObjects polls (a, obj) m = Inr m' \<Longrightarrow> omap_ok m \<Longrightarrow>
   omap_ok m' \<and> all_answer polls obj \<and>
   (\<forall>k. at_key m' k = at_key m k \<union> (if has_poll polls obj k then {a} else {}))"
proof (induction polls arbitrary: m)
  case Nil
  then show ?case by (simp add: mapPollObjects_def has_poll_def all_answer_def)
next
  case (Cons p polls)
  obtain net g where p: "p = (net, g)" by (cases p)
  from Cons.prems(1) obtain b where b: "obj_registerIn net g obj = Inr b"
    and rest: "mapPollObjects polls (a, obj) (map_if (ident_of net g) a m b) = Inr m'"
    by (auto simp: mapPollObjects_def p bindE_Inr_iff)
  note IH = Cons.IH [OF rest at_key_map_if(1) [OF Cons.prems(2)]]
  have "has_poll (p # polls) obj k \<longleftrightarrow> has_poll polls obj k \<or> (b \<and> k = ident_of net g)" for k
    unfolding has_poll_def p using b by (cases b) (simp_all, blast, auto)
  moreover have "all_answer (p # polls) obj"
    using IH b by (auto simp: all_answer_def p)
  ultimately show ?case using IH by (auto simp: at_key_map_if(2) [OF Cons.prems(2)])
qed

lemma mapCommandObjects_at_key:
  "mapCommandObjects cs (a, obj) m = Inr m' \<Longrightarrow> omap_ok m \<Longrightarrow>
   omap_ok m' \<and> (\<forall>k. at_key m' k \<subseteq> insert a (at_key m k))"
proof (induction cs arbitrary: m)
  case Nil
  then show ?case by (auto simp: mapCommandObjects_def)
next
  case (Cons cmd cs)
  from Cons.prems(1) obtain b where
    rest: "mapCommandObjects cs (a, obj) (map_if (mCommandId cmd) a m b) = Inr m'"
    by (auto simp: mapCommandObjects_def bindE_Inr_iff split: if_split_asm)
  from Cons.IH [OF rest at_key_map_if(1) [OF Cons.prems(2)]] show ?case
    by (auto simp: at_key_map_if(2) [OF Cons.prems(2)] split: if_split_asm)
qed

lemma mapObjects_at_key:
  "foldE (mapObjects polls cs) (enumerate n objs) (pm, cm) = Inr (pm', cm') \<Longrightarrow>
   omap_ok pm \<Longrightarrow> omap_ok cm \<Longrightarrow>
   omap_ok pm' \<and> omap_ok cm' \<and> list_all (all_answer polls) objs \<and>
   (\<forall>k. at_key pm' k = at_key pm k \<union> {a. n \<le> a \<and> a < n + length objs \<and> has_poll polls (objs ! (a - n)) k}) \<and>
   (\<forall>k. at_key cm' k \<subseteq> at_key cm k \<union> {n..<n + length objs})"
proof (induction objs arbitrary: n pm cm)
  case (Cons obj objs)
  from Cons.prems(1) obtain u where u: "mapObjects polls cs (n, obj) (pm, cm) = Inr u"
    and rest': "foldE (mapObjects polls cs) (enumerate (Suc n) objs) u = Inr (pm', cm')"
    by (auto simp: bindE_Inr_iff)
  from u obtain pm1 cm1 where pm1: "mapPollObjects polls (n, obj) pm = Inr pm1"
    and cm1: "mapCommandObjects cs (n, obj) cm = Inr cm1" and u_eq: "u = (pm1, cm1)"
    by (auto simp: mapObjects_def bindE_Inr_iff)
  note rest = rest' [unfolded u_eq]
  note one = mapPollObjects_at_key [OF pm1 Cons.prems(2)] mapCommandObjects_at_key [OF cm1 Cons.prems(3)]
  have IH: "omap_ok pm'" "omap_ok cm'" "list_all (all_answer polls) objs"
    "at_key pm' k = at_key pm1 k \<union>
      {a. Suc n \<le> a \<and> a < Suc n + length objs \<and> has_poll polls (objs ! (a - Suc n)) k}"
    "at_key cm' j \<subseteq> at_key cm1 j \<union> {Suc n..<Suc n + length objs}" for k j
    using Cons.IH [OF rest] one by blast+
  have split: "{a. n \<le> a \<and> a < n + length (obj # objs) \<and> has_poll polls ((obj # objs) ! (a - n)) k} =
      (if has_poll polls obj k then {n} else {}) \<union>
      {a. Suc n \<le> a \<and> a < Suc n + length objs \<and> has_poll polls (objs ! (a - Suc n)) k}" for k
    by (auto simp: nth_Cons' Suc_diff_le le_Suc_eq not_less_eq_eq)
  have "at_key pm' k = at_key pm k \<union>
      {a. n \<le> a \<and> a < n + length (obj # objs) \<and> has_poll polls ((obj # objs) ! (a - n)) k}" for k
    unfolding split IH(4) using one by (simp only: Un_assoc)
  moreover have "at_key cm' k \<subseteq> at_key cm k \<union> {n..<n + length (obj # objs)}" for k
    using IH(5) [of k] one by fastforce
  moreover have "list_all (all_answer polls) (obj # objs)" using IH(3) one by simp
  ultimately show ?case using IH(1,2) by blast
qed auto

section \<open>The initialised gateway\<close>

lemma enqueue_first_names [simp]:
  "map clNetworkName (enqueue_first net item cs) = map clNetworkName cs"
  by (induction cs) auto

lemma send_names:
  "forC (sendSpecification specs) ss st = (x, st') \<Longrightarrow>
   map clNetworkName (mModbusClients st') = map clNetworkName (mModbusClients st)"
proof (induction ss arbitrary: st)
  case (Cons s ss)
  obtain u where u: "sendSpecification specs s st = (Inr (), u)"
    "map clNetworkName (mModbusClients u) = map clNetworkName (mModbusClients st)"
    by (cases "mqtt_spec_of specs s")
      (auto simp: sendSpecification_def returnC_def enqueueC_def modifyC_def)
  then show ?case using Cons by (simp add: thenC_def bindC_def)
qed (simp add: returnC_def)

text \<open>What a run of \<open>init\<close> that does not throw leaves behind.\<close>

definition ready ::
  "modbus_init \<Rightarrow> objects_init \<Rightarrow> mqtt_object list \<Rightarrow> 'm mqtt_client \<Rightarrow> bool" where
  "ready mi oi objs t \<longleftrightarrow>
     networks_ok mi \<and> objects_ok oi \<and> objs = oiObjects oi \<and>
     (\<forall>a < length objs. objectStore t a = objs ! a) \<and>
     foldE (mapObjects (spec_polls (map (merge_specs (oiSpecs oi)) (mPollSpecification mi)))
         (map snd (oiCommands oi))) (enumerate 0 objs) ([], []) = Inr (mObjects t, mCommandObjects t) \<and>
     map clNetworkName (mModbusClients t) = map clNetworkName (miClients mi) \<and>
     (distinct (map clNetworkName (mModbusClients t)) \<longrightarrow>
        mModbusClients t = map (delivered (oiSpecs oi) (mPollSpecification mi)) (miClients mi))"

lemma gateway_init_ready:
  assumes init: "gateway_init env lib fs ov config s = (Inr (plugins, objs), t)"
    and counts: "counts_positive lib config"
  obtains mi oi where "ready mi oi objs t"
proof -
  obtain mi oi w v pm cm where
    mi: "initModbusClients lib config = Inr mi"
    and oi: "initObjects lib (createConverterFromString plugins) mi (mCommands w) config = Inr oi"
    and send: "forC (sendSpecification (oiSpecs oi)) (mPollSpecification mi)
      (w\<lparr>mModbusClients := miClients mi, mCommands := oiCommands oi\<rparr>) = (Inr (), v)"
    and maps: "foldE (mapObjects (spec_polls (map (merge_specs (oiSpecs oi)) (mPollSpecification mi)))
         (map snd (oiCommands oi))) (enumerate 0 (oiObjects oi)) ([], []) = Inr (pm, cm)"
    and t: "setObjects (oiObjects oi) pm cm v = (Inr (), t)" and objs: "objs = oiObjects oi"
    using init
    by (auto simp: gateway_init_def thenC_def bindC_Inr_iff liftC_def getC_def modifyC_def returnC_def)
  define u where "u = w\<lparr>mModbusClients := miClients mi, mCommands := oiCommands oi\<rparr>"
  note send = send [folded u_def]
  have u: "mModbusClients u = miClients mi" by (simp add: u_def)
  have names: "map clNetworkName (mModbusClients v) = map clNetworkName (miClients mi)"
    using send_names [OF send] u by simp
  have sent: "mModbusClients v = map (delivered (oiSpecs oi) (mPollSpecification mi)) (miClients mi)"
    if "distinct (map clNetworkName (miClients mi))"
    using send_all [of u] that send u by auto
  have "ready mi oi objs t"
    using initModbusClients_ok [OF mi counts] initObjects_ok [OF oi counts] objs maps names sent t
    by (auto simp: ready_def setObjects_def modifyC_def)
  then show ?thesis by (rule that)
qed

lemma at_key_empty [simp]: "at_key [] k = {}"
  by (simp add: at_key_def)

lemma at_keyD: "a \<in> at_key m k \<Longrightarrow> \<exists>as. map_of m k = Some as \<and> a \<in> set as"
  by (simp add: at_key_def split: option.split_asm)

lemma at_key_entry: "omap_ok m \<Longrightarrow> e \<in> set m \<Longrightarrow> at_key m (fst e) = set (snd e)"
  using omap_in_set_iff [of m "fst e" "snd e"] by (simp add: at_key_def)

text \<open>The objects listed for a poll are those with a register in it.\<close>

lemma ready_listed:
  assumes ready: "ready mi oi objs t" and s: "s \<in> set (mPollSpecification mi)"
    and g: "g \<in> set (specRegisters (merge_specs (oiSpecs oi) s))"
    and a: "a < length objs" and i: "i \<in> obj_leaves (objs ! a)" "register_of (specNetworkName s) g i"
  shows "a \<in> at_key (mObjects t) (ident_of (specNetworkName s) g)"
proof -
  let ?polls = "spec_polls (map (merge_specs (oiSpecs oi)) (mPollSpecification mi))"
  have name: "specNetworkName (merge_specs (oiSpecs oi) s) = specNetworkName s"
    by (simp add: merge_specs_def split: option.split)
  have poll: "(specNetworkName s, g) \<in> set ?polls"
    using s g name by (force simp: spec_polls_def)
  have maps: "foldE (mapObjects ?polls (map snd (oiCommands oi))) (enumerate 0 objs) ([], [])
      = Inr (mObjects t, mCommandObjects t)"
    using ready unfolding ready_def by blast
  note keys = mapObjects_at_key [OF maps]
  have "all_answer ?polls (objs ! a)" using keys a by (simp add: omap_ok_def list_all_length)
  then obtain b where b: "obj_registerIn (specNetworkName s) g (objs ! a) = Inr b"
    using poll by (auto simp: all_answer_def)
  have "b" using obj_registerIn_leaf [OF b i] .
  then have "has_poll ?polls (objs ! a) (ident_of (specNetworkName s) g)"
    using b poll by (auto simp: has_poll_def)
  then show ?thesis using keys a by (simp add: omap_ok_def)
qed

lemma ready_in_range:
  assumes "ready mi oi objs t"
  shows "at_key (mObjects t) k \<subseteq> {..<length objs}" and "at_key (mCommandObjects t) j \<subseteq> {..<length objs}"
    and "omap_ok (mObjects t)" and "omap_ok (mCommandObjects t)"
proof -
  have maps: "foldE (mapObjects (spec_polls (map (merge_specs (oiSpecs oi)) (mPollSpecification mi)))
      (map snd (oiCommands oi))) (enumerate 0 objs) ([], []) = Inr (mObjects t, mCommandObjects t)"
    using assms unfolding ready_def by blast
  note keys = mapObjects_at_key [OF maps]
  show "at_key (mObjects t) k \<subseteq> {..<length objs}" using keys by (auto simp: omap_ok_def)
  show "at_key (mCommandObjects t) j \<subseteq> {..<length objs}"
    using keys by (simp add: omap_ok_def atLeast0LessThan)
  show "omap_ok (mObjects t)" "omap_ok (mCommandObjects t)" using keys by (simp_all add: omap_ok_def)
qed

lemma in_group_clash: "in_group g i \<Longrightarrow> in_group h i \<Longrightarrow> clash g h"
  by (auto simp: in_group_def clash_def overlaps_def regs_def)

lemma ready_client:
  assumes "ready mi oi objs t" and "distinct (map clNetworkName (mModbusClients t))"
    and "c \<in> set (mModbusClients t)"
  obtains c0 s where "c0 \<in> set (miClients mi)" "no_spec_sent c0" "s \<in> set (mPollSpecification mi)"
    "clNetworkName c = specNetworkName s" "idle_spec s" "c = delivered (oiSpecs oi) (mPollSpecification mi) c0"
    "distinct (map specNetworkName (mPollSpecification mi))"
proof -
  have nets: "map clNetworkName (miClients mi) = map specNetworkName (mPollSpecification mi)"
    "list_all idle_spec (mPollSpecification mi)" "list_all no_spec_sent (miClients mi)"
    using assms(1) by (simp_all add: ready_def networks_ok_def)
  have dist: "distinct (map specNetworkName (mPollSpecification mi))"
    using assms(1,2) nets(1) unfolding ready_def by metis
  obtain c0 where c0: "c0 \<in> set (miClients mi)" "c = delivered (oiSpecs oi) (mPollSpecification mi) c0"
    using assms by (auto simp: ready_def)
  have "clNetworkName c0 \<in> set (map specNetworkName (mPollSpecification mi))"
    using c0(1) nets(1) by (metis imageI set_map)
  then obtain s where s: "s \<in> set (mPollSpecification mi)" "clNetworkName c0 = specNetworkName s"
    by auto
  show ?thesis
    by (rule that [of c0 s]) (use c0 s nets dist in \<open>auto simp: list_all_iff\<close>)
qed

text \<open>The one specification a thread was sent, if any, is that of its network.\<close>

lemma ready_sent:
  assumes "ready mi oi objs t" and "distinct (map clNetworkName (mModbusClients t))"
    and "c \<in> set (mModbusClients t)"
  obtains s where "s \<in> set (mPollSpecification mi)" "clNetworkName c = specNetworkName s" "idle_spec s"
    "\<And>spec. MessageItem (RegisterPollSpecification spec) \<in> set (mToModbusQueue c) \<longleftrightarrow>
       mqtt_spec_of (oiSpecs oi) s \<noteq> None \<and> spec = merge_specs (oiSpecs oi) s"
proof -
  obtain c0 s where c0: "no_spec_sent c0" "c = delivered (oiSpecs oi) (mPollSpecification mi) c0"
    and s: "s \<in> set (mPollSpecification mi)" "clNetworkName c = specNetworkName s" "idle_spec s"
    and dist: "distinct (map specNetworkName (mPollSpecification mi))"
    using ready_client [OF assms] by blast
  have own: "specs_for (oiSpecs oi) (mPollSpecification mi) (clNetworkName c0) =
      (if mqtt_spec_of (oiSpecs oi) s = None then [] else [s])"
  proof (cases "mqtt_spec_of (oiSpecs oi) s")
    case None
    have "mqtt_spec_of (oiSpecs oi) r = None" if "specNetworkName r = specNetworkName s" for r
      using None that by (simp add: mqtt_spec_of_def)
    then show ?thesis using None c0(2) s(2) by (auto simp: specs_for_def filter_empty_conv)
  next
    case (Some q)
    then show ?thesis using specs_for_own [OF dist s(1)] c0(2) s(2) by simp
  qed
  show ?thesis
    by (rule that [OF s]) (use c0 own in \<open>auto simp: delivered_def no_spec_sent_def\<close>)
qed

lemma c_str_append: "CHR 0x00 \<notin> set s \<Longrightarrow> c_str (s @ r) = s @ c_str r"
  by (auto simp: c_str_def takeWhile_append)

lemma availability_topics:
  assumes "parsed_object obj" and "parsed_object obj'" and "CHR 0x00 \<notin> set (mTopic obj)"
    and "CHR 0x00 \<notin> set (mTopic obj')"
  shows "c_str (mAvailabilityTopic obj) = c_str (mAvailabilityTopic obj') \<longleftrightarrow> mTopic obj = mTopic obj'"
    and "c_str (mAvailabilityTopic obj) \<noteq> c_str (mStateTopic obj')"
proof -
  have plain: "c_str ''/availability'' = ''/availability''" "c_str ''/state'' = ''/state''"
    by (simp_all add: c_str_def)
  have topics: "c_str (mAvailabilityTopic obj) = mTopic obj @ ''/availability''"
    "c_str (mAvailabilityTopic obj') = mTopic obj' @ ''/availability''"
    "c_str (mStateTopic obj') = mTopic obj' @ ''/state''"
    using assms by (simp_all add: parsed_object_def c_str_append plain)
  show "c_str (mAvailabilityTopic obj) = c_str (mAvailabilityTopic obj') \<longleftrightarrow> mTopic obj = mTopic obj'"
    by (simp add: topics)
  have "last (mTopic obj @ ''/availability'') \<noteq> last (mTopic obj' @ ''/state'')" by simp
  then show "c_str (mAvailabilityTopic obj) \<noteq> c_str (mStateTopic obj')"
    unfolding topics by metis
qed

lemma ready_client_ok:
  assumes ready: "ready mi oi objs t" and quiet: "list_all quiet_object objs"
    and nul: "list_all (\<lambda>obj. CHR 0x00 \<notin> set (mTopic obj)) objs"
  shows "client_ok {..<length objs} t" and "\<forall>a \<in> {..<length objs}. mIsAvailable (objectStore t a) = NotSet"
proof -
  have store: "objectStore t a = objs ! a" if "a < length objs" for a
    using ready that by (simp add: ready_def)
  have objs: "distinct (map mTopic objs)" "list_all parsed_object objs"
    using ready unfolding ready_def objects_ok_def by blast+
  have "topics_distinct {..<length objs} (objectStore t)"
    unfolding topics_distinct_def
  proof (intro conjI ballI impI)
    fix a b assume ab: "a \<in> {..<length objs}" "b \<in> {..<length objs}"
    then have fresh: "parsed_object (objs ! a)" "parsed_object (objs ! b)"
      "CHR 0x00 \<notin> set (mTopic (objs ! a))" "CHR 0x00 \<notin> set (mTopic (objs ! b))"
      using objs(2) nul by (simp_all add: list_all_length)
    show "c_str (mAvailabilityTopic (objectStore t a)) \<noteq> c_str (mStateTopic (objectStore t b))"
      using availability_topics(2) [OF fresh] ab store by simp
    assume "a \<noteq> b"
    then have "mTopic (objs ! a) \<noteq> mTopic (objs ! b)"
      using objs(1) ab nth_eq_iff_index_eq [of "map mTopic objs" a b] by simp
    then show "c_str (mAvailabilityTopic (objectStore t a)) \<noteq> c_str (mAvailabilityTopic (objectStore t b))"
      using availability_topics(1) [OF fresh] ab store by simp
  qed
  moreover have "\<forall>a \<in> {..<length objs}. quiet_object (objectStore t a)"
    using quiet store by (simp add: list_all_length)
  moreover have "listed t \<subseteq> {..<length objs}"
  proof -
    have "set (snd e) \<subseteq> {..<length objs}" if "e \<in> set (mObjects t)" for e
      using ready_in_range(1) [OF ready] at_key_entry [OF ready_in_range(3) [OF ready] that] by metis
    moreover have "set (snd e) \<subseteq> {..<length objs}" if "e \<in> set (mCommandObjects t)" for e
      using ready_in_range(2) [OF ready] at_key_entry [OF ready_in_range(4) [OF ready] that] by metis
    ultimately show ?thesis unfolding listed_def by blast
  qed
  ultimately show "client_ok {..<length objs} t" by (simp add: client_ok_def)
  show "\<forall>a \<in> {..<length objs}. mIsAvailable (objectStore t a) = NotSet"
    using objs(2) store by (auto simp: list_all_length parsed_object_def)
qed

section \<open>A configuration\<close>

fun doc_counts :: "doc \<Rightarrow> bool" where
  "doc_counts (Node es) \<longleftrightarrow>
     (case doc_int (doc_child (Node es) ''count'') of None \<Rightarrow> True | Some v \<Rightarrow> 0 < v) \<and>
     list_all (\<lambda>e. doc_counts (snd e)) es"
| "doc_counts (Items ds) \<longleftrightarrow> list_all doc_counts ds"
| "doc_counts _ \<longleftrightarrow> True"

lemma doc_counts_child: "doc_counts d \<Longrightarrow> doc_counts (doc_child d k)"
  by (cases d) (auto simp: list_all_iff dest!: map_of_SomeD split: option.split)

lemma doc_counts_items: "doc_counts d \<Longrightarrow> e \<in> set (doc_items d) \<Longrightarrow> doc_counts e"
  by (cases d) (auto simp: list_all_iff)

lemma doc_lib_sel [simp]:
  "child doc_lib = doc_child" "elements doc_lib = doc_items" "asInt doc_lib = doc_int"
  by (simp_all add: doc_lib_def)

lemma doc_counts_nodes: "n \<in> doc_nodes doc_lib d \<Longrightarrow> doc_counts d \<Longrightarrow> doc_counts n"
  by (induction rule: doc_nodes.induct) (simp_all add: doc_counts_child doc_counts_items)

lemma doc_counts_own: "doc_counts d \<Longrightarrow> doc_int (doc_child d ''count'') = Some v \<Longrightarrow> 0 < v"
  by (cases d) (simp_all add: doc_int_def [of Absent])

lemma doc_counts_positive: "doc_counts d \<Longrightarrow> counts_positive doc_lib d"
  unfolding counts_positive_def doc_lib_sel by (blast intro: doc_counts_own doc_counts_nodes)

lemma doc_heights_shrink: "heights_shrink doc_lib"
proof -
  have child: "size (doc_child n k) < size n \<or> doc_child n k = Absent" for n k
    by (cases n) (auto dest!: map_of_SomeD split: option.split simp: size_list_estimation' le_imp_less_Suc)
  have item: "e \<in> set (doc_items d) \<Longrightarrow> size e < size d" for e d
    by (cases d) (auto simp: size_list_estimation' le_imp_less_Suc)
  have "size e < size n" if "e \<in> set (doc_items (doc_child n k))" for e n k
    using child [of n k] item [OF that] that by auto
  then show ?thesis by (simp add: heights_shrink_def doc_lib_def)
qed

definition demo_gateway_doc :: doc where
  "demo_gateway_doc = Node
     [(''modbus'', Node [(''networks'', Items
        [Node [(''name'', Leaf ''net''), (''address'', Leaf ''h''), (''port'', Leaf ''5'')]])]),
      (''mqtt'', Node
        [(''client_id'', Leaf ''gw''), (''broker'', Node [(''host'', Leaf ''b'')]),
         (''objects'', Items [Node
           [(''topic'', Leaf ''obj''), (''network'', Leaf ''net''), (''slave'', Leaf ''1''),
            (''state'', Node [(''register'', Leaf ''2''), (''count'', Leaf ''2'')]),
            (''availability'', Node [(''register'', Leaf ''9'')])]])])]"

definition demo_fs :: init_env where
  "demo_fs = \<lparr>pathExists = (\<lambda>_. False), pathIsFile = (\<lambda>_. False), loadPlugin = (\<lambda>_. Inl (LogicError []))\<rparr>"

definition demo_start :: "mosq_state mqtt_client" where
  "demo_start = demo_client\<lparr>mModbusClients := [], mConnectionState := DISCONNECTED, mIsStarted := False,
     mObjects := []\<rparr>"

abbreviation demo_init :: "(cpp_exn + converter_plugin list \<times> mqtt_object list) \<times> mosq_state mqtt_client" where
  "demo_init \<equiv> gateway_init demo_env doc_lib demo_fs False demo_gateway_doc demo_start"

definition demo_objs :: "mqtt_object list" where
  "demo_objs = snd (projr (fst demo_init))"

definition demo_ready :: "mosq_state mqtt_client" where
  "demo_ready = snd demo_init"

lemma demo_init_ready: "demo_init = (Inr (fst (projr (fst demo_init)), demo_objs), demo_ready)"
proof -
  have "\<not> isl (fst demo_init)" by code_simp
  then show ?thesis unfolding demo_objs_def demo_ready_def by (cases "fst demo_init") (simp_all add: prod_eq_iff)
qed

lemma demo_counts: "counts_positive doc_lib demo_gateway_doc"
proof (rule doc_counts_positive)
  show "doc_counts demo_gateway_doc" by code_simp
qed

definition demo_modbus :: modbus_client where
  "demo_modbus = hd (mModbusClients demo_ready)"

definition demo_group :: msg_register_poll where
  "demo_group = (new_register_poll 1 1 HOLDING 2)\<lparr>mRefreshMsec := 5000\<rparr>"

definition demo_sent :: "poll_spec list" where
  "demo_sent = concat (map (\<lambda>i. case i of MessageItem (RegisterPollSpecification sp) \<Rightarrow> [sp] | _ \<Rightarrow> [])
     (mToModbusQueue demo_modbus))"

lemma demo_clients: "mModbusClients demo_ready = [demo_modbus]"
proof -
  have "length (mModbusClients demo_ready) = 1" by code_simp
  then show ?thesis by (cases "mModbusClients demo_ready") (simp_all add: demo_modbus_def)
qed

lemma demo_modbus_name: "clNetworkName demo_modbus = ''net''"
  by code_simp

lemma demo_sent_in: "sp \<in> set demo_sent \<Longrightarrow> MessageItem (RegisterPollSpecification sp) \<in> set (mToModbusQueue demo_modbus)"
  by (auto simp: demo_sent_def split: modbus_item.splits queue_item.splits)

fun plain_node :: "data_node \<Rightarrow> bool" where
  "plain_node (DataNode name ns forced i v conv) \<longleftrightarrow> Option.is_none conv \<and> list_all plain_node ns"

lemma plain_node_quiet: "plain_node n \<Longrightarrow> quiet_node n"
  by (induction n rule: plain_node.induct) (auto simp: list_all_iff)

definition demo_reached :: "mosq_state mqtt_client" where
  "demo_reached = snd (client_step demo_env (OperationFailed ''net'' (demo_failed 8 1))
     (snd (client_step demo_env MqttConnected demo_ready)))"

lemma demo_reaches:
  "client_reaches demo_env demo_ready [MqttConnected, OperationFailed ''net'' (demo_failed 8 1)] demo_reached"
proof -
  define u where "u = snd (client_step demo_env MqttConnected demo_ready)"
  have "fst (client_step demo_env MqttConnected demo_ready) = Inr ()" by code_simp
  then have "client_step demo_env MqttConnected demo_ready = (Inr (), u)" by (simp add: u_def prod_eq_iff)
  then have "client_reaches demo_env demo_ready [MqttConnected] u" by (rule reaches_one)
  moreover have "fst (client_step demo_env (OperationFailed ''net'' (demo_failed 8 1)) u) = Inr ()"
    unfolding u_def by code_simp
  then have "client_step demo_env (OperationFailed ''net'' (demo_failed 8 1)) u = (Inr (), demo_reached)"
    by (simp add: demo_reached_def u_def prod_eq_iff)
  ultimately show ?thesis using reaches_step by fastforce
qed

section \<open>Results\<close>

text \<open>
  C5: when the configuration was accepted, every register of an object, of its state or its
  availability, on a network that is configured is in exactly one of the groups sent to the Modbus
  thread of that network, this group is polled, and the object is listed for the answers to its
  polls. The counts in the document are positive and no two networks have the same name.
\<close>

theorem configured_registers_are_polled:
  assumes "gateway_init env lib fs ov config s = (Inr (plugins, objs), t)"
    and "counts_positive lib config" and "distinct (map clNetworkName (mModbusClients t))"
    and "a < length objs" and "i \<in> obj_leaves (objs ! a)" and "i \<noteq> null_ident"
    and "c \<in> set (mModbusClients t)" and "clNetworkName c = idNetworkName i"
  shows "\<exists>spec g as. MessageItem (RegisterPollSpecification spec) \<in> set (mToModbusQueue c) \<and>
    {h \<in> set (specRegisters spec). in_group h i} = {g} \<and> polling g \<and>
    map_of (mObjects t) (ident_of (clNetworkName c) g) = Some as \<and> a \<in> set as"
proof -
  obtain mi oi where ready: "ready mi oi objs t" using gateway_init_ready [OF assms(1,2)] .
  obtain r where r: "r \<in> set (mPollSpecification mi)" "clNetworkName c = specNetworkName r" "idle_spec r"
    and sent: "\<And>spec. MessageItem (RegisterPollSpecification spec) \<in> set (mToModbusQueue c) \<longleftrightarrow>
       mqtt_spec_of (oiSpecs oi) r \<noteq> None \<and> spec = merge_specs (oiSpecs oi) r"
    using ready_sent [OF ready assms(3,7)] by blast
  let ?spec = "merge_specs (oiSpecs oi) r"
  have ok: "specs_ok (\<Union> (obj_leaves ` set objs)) (oiSpecs oi)"
    using ready by (simp add: ready_def objects_ok_def)
  have i: "i \<in> \<Union> (obj_leaves ` set objs)" using assms(4,5) nth_mem by blast
  have "idNetworkName i = specNetworkName r" using assms(8) r(2) by simp
  from merged_polled [OF ok i assms(6) this] obtain g where
    g: "mqtt_spec_of (oiSpecs oi) r \<noteq> None" "g \<in> set (specRegisters ?spec)" "polling g" "in_group g i"
    by (auto simp: polled_def)
  have one: "{h \<in> set (specRegisters ?spec). in_group h i} = {g}"
    using g groups_ok_clash [OF merged_groups_ok [OF r(3) ok]] in_group_clash by blast
  have "register_of (specNetworkName r) g i" using g(4) assms(8) r(2) by (simp add: register_of_def)
  from at_keyD [OF ready_listed [OF ready r(1) g(2) assms(4,5) this]] obtain as where
    as: "map_of (mObjects t) (ident_of (clNetworkName c) g) = Some as" "a \<in> set as"
    unfolding r(2) by blast
  have "MessageItem (RegisterPollSpecification ?spec) \<in> set (mToModbusQueue c)"
    using sent g(1) by simp
  from this one g(3) as show ?thesis by (intro exI conjI)
qed

theorem configured_registers_are_polled_witness:
  "\<exists>plugins spec g as.
     gateway_init demo_env doc_lib demo_fs False demo_gateway_doc demo_start =
       (Inr (plugins, demo_objs), demo_ready) \<and>
     demo_ident 8 \<in> obj_leaves (demo_objs ! 0) \<and>
     MessageItem (RegisterPollSpecification spec) \<in> set (mToModbusQueue demo_modbus) \<and>
     {h \<in> set (specRegisters spec). in_group h (demo_ident 8)} = {g} \<and> polling g \<and>
     map_of (mObjects demo_ready) (ident_of ''net'' g) = Some as \<and> 0 \<in> set as"
proof -
  have leaf: "0 < length demo_objs" "demo_ident 8 \<in> obj_leaves (demo_objs ! 0)" "demo_ident 8 \<noteq> null_ident"
    by code_simp+
  have "distinct (map clNetworkName (mModbusClients demo_ready))" "demo_modbus \<in> set (mModbusClients demo_ready)"
    "clNetworkName demo_modbus = idNetworkName (demo_ident 8)"
    by (simp_all add: demo_clients demo_modbus_name demo_ident_def)
  from configured_registers_are_polled [OF demo_init_ready demo_counts this(1) leaf this(2,3)]
  show ?thesis using demo_init_ready leaf(2) unfolding demo_modbus_name by blast
qed

text \<open>
  C6: the answer to a poll of a group that was sent to a Modbus thread is given to objects: the
  lookup in \<open>processRegisterValues\<close> finds them and never runs past the end of the map.
\<close>

theorem poll_answers_find_objects:
  assumes "gateway_init env lib fs ov config s = (Inr (plugins, objs), t)"
    and "counts_positive lib config" and "distinct (map clNetworkName (mModbusClients t))"
    and "c \<in> set (mModbusClients t)"
    and "MessageItem (RegisterPollSpecification spec) \<in> set (mToModbusQueue c)"
    and "g \<in> set (specRegisters spec)" and "polling g"
    and "ident_of (clNetworkName c) m = ident_of (clNetworkName c) g" and "\<not> hasCommandId m"
  shows "\<exists>as. affectedObjects env' (clNetworkName c) m t = (Inr (Some as), t) \<and> as \<noteq> [] \<and>
    set as \<subseteq> {..<length objs}"
proof -
  obtain mi oi where ready: "ready mi oi objs t" using gateway_init_ready [OF assms(1,2)] .
  obtain r where r: "r \<in> set (mPollSpecification mi)" "clNetworkName c = specNetworkName r" "idle_spec r"
    and spec: "spec = merge_specs (oiSpecs oi) r"
    using ready_sent [OF ready assms(3,4)] assms(5) by blast
  have ok: "specs_ok (\<Union> (obj_leaves ` set objs)) (oiSpecs oi)"
    using ready by (simp add: ready_def objects_ok_def)
  obtain i where i: "i \<in> \<Union> (obj_leaves ` set objs)" "register_of (clNetworkName c) g i"
    using merged_backed [OF r(3) ok assms(6) [unfolded spec] assms(7)] r(2) by (auto simp: register_of_def)
  then obtain a where a: "a < length objs" "i \<in> obj_leaves (objs ! a)"
    by (auto simp: in_set_conv_nth)
  from at_keyD [OF ready_listed [OF ready r(1) assms(6) [unfolded spec] a]] i(2) obtain as where
    as: "map_of (mObjects t) (ident_of (clNetworkName c) g) = Some as" "a \<in> set as"
    unfolding r(2) by blast
  have "at_key (mObjects t) (ident_of (clNetworkName c) g) = set as" using as(1) by (simp add: at_key_def)
  then have "set as \<subseteq> {..<length objs}" using ready_in_range(1) [OF ready] by metis
  moreover have "affectedObjects env' (clNetworkName c) m t = (Inr (Some as), t)"
    using as(1) assms(8,9) by (simp add: affectedObjects_def bindC_def getC_def returnC_def)
  moreover have "as \<noteq> []" using as(2) by auto
  ultimately show ?thesis by blast
qed

theorem poll_answers_find_objects_witness:
  "\<exists>plugins as.
     gateway_init demo_env doc_lib demo_fs False demo_gateway_doc demo_start =
       (Inr (plugins, demo_objs), demo_ready) \<and>
     affectedObjects demo_env ''net'' (demo_msg 1 [5, 6]) demo_ready = (Inr (Some as), demo_ready) \<and>
     as \<noteq> [] \<and> set as \<subseteq> {..<length demo_objs}"
proof -
  have sent: "hd demo_sent \<in> set demo_sent" "demo_group \<in> set (specRegisters (hd demo_sent))"
    "polling demo_group" "ident_of ''net'' (demo_msg 1 [5, 6]) = ident_of ''net'' demo_group"
    "\<not> hasCommandId (demo_msg 1 [5, 6])"
    by code_simp+
  have "distinct (map clNetworkName (mModbusClients demo_ready))" "demo_modbus \<in> set (mModbusClients demo_ready)"
    by (simp_all add: demo_clients)
  from poll_answers_find_objects [OF demo_init_ready demo_counts this demo_sent_in [OF sent(1)] sent(2,3),
      unfolded demo_modbus_name, OF sent(4,5)]
  show ?thesis using demo_init_ready by blast
qed

text \<open>
  C7: an accepted configuration gives objects with different topics, so that the availability
  reporting holds for everything the client does after the initialisation: as long as the MQTT
  library has not refused a message, the last message handed over for the availability topic of an
  object tells its flag. The topics have no NUL character and converters do not throw the exception
  of the MQTT library.
\<close>

theorem configured_availability_is_reported:
  assumes "gateway_init env lib fs ov config s = (Inr (plugins, objs), t)"
    and "counts_positive lib config" and "mqttImpl env = mosquitto_impl mlib"
    and "list_all quiet_object objs" and "list_all (\<lambda>obj. CHR 0x00 \<notin> set (mTopic obj)) objs"
    and "client_reaches env t es u" and "\<not> mosq_failed (mMqttImpl u)"
    and "a < length objs" and "mIsAvailable (objectStore u a) \<noteq> NotSet"
  shows "last_on (c_str (mAvailabilityTopic (objectStore u a))) (mosq_sent (mMqttImpl u)) =
    Some (Published (c_str (mAvailabilityTopic (objectStore u a)))
      (Some (if mIsAvailable (objectStore u a) = AvTrue then ''1'' else ''0'')) True)"
proof -
  obtain mi oi where ready: "ready mi oi objs t" using gateway_init_ready [OF assms(1,2)] .
  have "flags_reported mosq_sent mosq_failed {..<length objs} {} t"
    using ready_client_ok [OF ready assms(4,5)] by (simp add: flags_reported_def reported_def)
  from mosq.reaches_keeps [OF assms(6,3) this] assms(7-9) show ?thesis
    by (simp add: flags_reported_def reported_def flag_text_def)
qed

theorem configured_availability_is_reported_witness:
  "\<exists>plugins.
     gateway_init demo_env doc_lib demo_fs False demo_gateway_doc demo_start =
       (Inr (plugins, demo_objs), demo_ready) \<and>
     mIsAvailable (objectStore demo_reached 0) = AvFalse \<and>
     last_on ''obj/availability'' (mosq_sent (mMqttImpl demo_reached)) =
       Some (Published ''obj/availability'' (Some ''0'') True)"
proof -
  have "list_all (\<lambda>obj. list_all plain_node (lNodes (mState obj)) \<and> list_all plain_node (lNodes (mAvailability obj)))
      demo_objs" by code_simp
  then have quiet: "list_all quiet_object demo_objs"
    using plain_node_quiet by (auto simp: list_all_iff quiet_object_def)
  have nul: "list_all (\<lambda>obj. CHR 0x00 \<notin> set (mTopic obj)) demo_objs" by code_simp
  have run: "\<not> mosq_failed (mMqttImpl demo_reached)" "0 < length demo_objs" by code_simp+
  have flag: "mIsAvailable (objectStore demo_reached 0) = AvFalse" by code_simp
  have topic: "c_str (mAvailabilityTopic (objectStore demo_reached 0)) = ''obj/availability''" by code_simp
  have "mqttImpl demo_env = mosquitto_impl demo_mosq_lib" by (simp add: demo_env_def)
  from configured_availability_is_reported [OF demo_init_ready demo_counts this quiet nul demo_reaches run]
  have "last_on ''obj/availability'' (mosq_sent (mMqttImpl demo_reached)) =
      Some (Published ''obj/availability'' (Some ''0'') True)"
    by (simp add: flag topic)
  then show ?thesis using demo_init_ready flag by blast
qed

end
