(* ===== verification/Gateway_Loop.thy ===== *)
theory Gateway_Loop
  imports Client_Properties
begin

text \<open>
  The main thread of \<open>modmqtt.cpp\<close>: the messages of the Modbus threads are taken from their queues
  and handled, until a signal or a stop request ends the loop. What other threads do happens while
  the main thread waits.
\<close>

section \<open>Messages of the Modbus threads\<close>

definition processModbusItem :: "'m mqtt_env \<Rightarrow> string \<Rightarrow> queue_item \<Rightarrow> ('m, unit) client_op" where
  "processModbusItem env net item =
     (case item of
        RegisterValues m \<Rightarrow> processRegisterValues env net m
      | RegisterReadFailed m \<Rightarrow>
          if isRpc m then publishRpcErrorFor env m else processRegistersOperationFailed env net m
      | RegisterWriteFailed m \<Rightarrow>
          if isRpc m then publishRpcErrorFor env m else processRegistersOperationFailed env net m
      | ModbusNetworkState name isUp \<Rightarrow> processModbusNetworkState env name isUp
      | _ \<Rightarrow> returnC ())"

definition setFromQueue :: "nat \<Rightarrow> queue_item list \<Rightarrow> 'm mqtt_client \<Rightarrow> 'm mqtt_client" where
  "setFromQueue i q s =
     s\<lparr>mModbusClients := (mModbusClients s)[i := (mModbusClients s ! i)\<lparr>mFromModbusQueue := q\<rparr>]\<rparr>"

definition try_dequeue :: "nat \<Rightarrow> ('m, queue_item option) client_op" where
  "try_dequeue i s =
     (case mFromModbusQueue (mModbusClients s ! i) of
        [] \<Rightarrow> (Inr None, s)
      | item # q \<Rightarrow> (Inr (Some item), setFromQueue i q s))"

text \<open>The number bounds the rounds of the loop; one more than the length of the queue is enough.\<close>

fun drainQueue :: "'m mqtt_env \<Rightarrow> nat \<Rightarrow> nat \<Rightarrow> ('m, unit) client_op" where
  "drainQueue env i 0 = liftC (Inl Undefined)"
| "drainQueue env i (Suc n) =
     bindC (try_dequeue i) (\<lambda>it.
       case it of
         None \<Rightarrow> returnC ()
       | Some item \<Rightarrow>
           thenC (bindC (getC (\<lambda>s. clNetworkName (mModbusClients s ! i))) (\<lambda>net.
                    processModbusItem env net item))
             (drainQueue env i n))"

definition drainClient :: "'m mqtt_env \<Rightarrow> nat \<Rightarrow> ('m, unit) client_op" where
  "drainClient env i =
     bindC (getC (\<lambda>s. length (mFromModbusQueue (mModbusClients s ! i)))) (\<lambda>k.
       drainQueue env i (Suc k))"

definition processModbusMessages :: "'m mqtt_env \<Rightarrow> ('m, unit) client_op" where
  "processModbusMessages env =
     bindC (getC (\<lambda>s. length (mModbusClients s))) (\<lambda>n. forC (drainClient env) [0..<n])"

section \<open>The main loop\<close>

text \<open>
  \<open>gSignalStatus\<close> is -1 when nothing happened, 0 for a stop request and the number of a signal
  otherwise. \<open>otherThreads\<close> gives what the signal handler, the callbacks of the MQTT library and the
  Modbus threads do during the n-th wait, \<open>lastMessages\<close> what a Modbus thread leaves in its queue
  when it ends.
\<close>

record 'm gateway =
  gwClient :: "'m mqtt_client"
  gSignalStatus :: int
  gwWaits :: nat

record 'm loop_env =
  otherThreads :: "nat \<Rightarrow> int \<times> 'm mqtt_client \<Rightarrow> int \<times> 'm mqtt_client"
  lastMessages :: "modbus_client \<Rightarrow> queue_item list"

definition SIGTERM :: int where "SIGTERM = 15"

definition waitForQueues :: "'m loop_env \<Rightarrow> 'm gateway \<Rightarrow> 'm gateway" where
  "waitForQueues lp g =
     (let (sig, c) = otherThreads lp (gwWaits g) (gSignalStatus g, gwClient g)
      in \<lparr>gwClient = c, gSignalStatus = sig, gwWaits = Suc (gwWaits g)\<rparr>)"

definition liftG :: "('m, unit) client_op \<Rightarrow> 'm gateway \<Rightarrow> (cpp_exn + unit) \<times> 'm gateway" where
  "liftG c g = (case c (gwClient g) of (r, s) \<Rightarrow> (r, g\<lparr>gwClient := s\<rparr>))"

text \<open>\<open>None\<close>: the loop has not ended after the given number of rounds.\<close>

fun connectLoop ::
  "'m mqtt_env \<Rightarrow> 'm loop_env \<Rightarrow> nat \<Rightarrow> 'm gateway \<Rightarrow> ((cpp_exn + unit) \<times> 'm gateway) option" where
  "connectLoop env lp 0 g = None"
| "connectLoop env lp (Suc n) g =
     (case liftG (mqtt_start env) g of
        (Inl e, g) \<Rightarrow> Some (Inl e, g)
      | (Inr _, g) \<Rightarrow>
          if isConnected (gwClient g) then Some (Inr (), g)
          else
            let g = waitForQueues lp g
            in if gSignalStatus g = -1 then connectLoop env lp n g else Some (Inr (), g))"

fun mainLoop ::
  "'m mqtt_env \<Rightarrow> 'm loop_env \<Rightarrow> nat \<Rightarrow> 'm gateway \<Rightarrow> ((cpp_exn + unit) \<times> 'm gateway) option" where
  "mainLoop env lp 0 g = None"
| "mainLoop env lp (Suc n) g =
     (if \<not> mIsStarted (gwClient g) then Some (Inr (), g)
      else if gSignalStatus g = -1 then
        (case liftG (processModbusMessages env) (waitForQueues lp g) of
           (Inl e, g) \<Rightarrow> Some (Inl e, g)
         | (Inr _, g) \<Rightarrow> mainLoop env lp n g)
      else if gSignalStatus g > 0 then
        (if gSignalStatus g = SIGTERM then Some (Inr (), g\<lparr>gSignalStatus := - 1\<rparr>)
         else mainLoop env lp n (g\<lparr>gSignalStatus := - 1\<rparr>))
      else if gSignalStatus g = 0 then Some (Inr (), g)
      else mainLoop env lp n g)"

definition stopClient :: "'m loop_env \<Rightarrow> modbus_client \<Rightarrow> modbus_client" where
  "stopClient lp c =
     c\<lparr>mToModbusQueue := mToModbusQueue c @ [MessageItem EndWork],
       mFromModbusQueue := mFromModbusQueue c @ lastMessages lp c\<rparr>"

definition publishUnavailable :: "'m mqtt_env \<Rightarrow> ('m, unit) client_op" where
  "publishUnavailable env =
     bindC (getC (\<lambda>s. (isConnected s, map clNetworkName (mModbusClients s)))) (\<lambda>(up, nets).
       if up then forC (\<lambda>net. processModbusNetworkState env net False) nets else returnC ())"

definition finishGateway ::
  "'m mqtt_env \<Rightarrow> 'm loop_env \<Rightarrow> 'm gateway \<Rightarrow> (cpp_exn + unit) \<times> 'm gateway" where
  "finishGateway env lp g =
     (case liftG
        (thenC (modifyC (\<lambda>s. s\<lparr>mModbusClients := map (stopClient lp) (mModbusClients s)\<rparr>))
        (thenC (processModbusMessages env)
        (thenC (publishUnavailable env) (mqtt_shutdown env)))) g of
        (Inl e, g) \<Rightarrow> (Inl e, g)
      | (Inr _, g) \<Rightarrow> (Inr (), if mIsStarted (gwClient g) then waitForQueues lp g else g))"

definition gateway_start ::
  "'m mqtt_env \<Rightarrow> 'm loop_env \<Rightarrow> nat \<Rightarrow> 'm gateway \<Rightarrow> ((cpp_exn + unit) \<times> 'm gateway) option" where
  "gateway_start env lp n g =
     (case connectLoop env lp n g of
        Some (Inr _, g) \<Rightarrow>
          (case mainLoop env lp n g of
             Some (Inr _, g) \<Rightarrow> Some (finishGateway env lp g)
           | r \<Rightarrow> r)
      | r \<Rightarrow> r)"

section \<open>Operations that do not look at the queues\<close>

abbreviation withClients :: "modbus_client list \<Rightarrow> 'm mqtt_client \<Rightarrow> 'm mqtt_client" where
  "withClients cs s \<equiv> s\<lparr>mModbusClients := cs\<rparr>"

definition blind :: "('m, 'a) client_op \<Rightarrow> bool" where
  "blind c \<longleftrightarrow> (\<forall>cs s. c (withClients cs s) = apsnd (withClients cs) (c s))"

named_theorems blind_rules \<open>operations that neither read nor change the queues\<close>

lemma blindD: "blind c \<Longrightarrow> c (withClients cs s) = apsnd (withClients cs) (c s)"
  by (simp add: blind_def)

lemma blind_return [blind_rules]: "blind (returnC x)"
  by (simp add: blind_def returnC_def)

lemma blind_lift [blind_rules]: "blind (liftC r)"
  by (simp add: blind_def liftC_def)

lemma blind_get: "(\<And>cs s. f (withClients cs s) = f s) \<Longrightarrow> blind (getC f)"
  by (simp add: blind_def getC_def)

lemma blind_bind [blind_rules]: "blind c \<Longrightarrow> (\<And>x. blind (f x)) \<Longrightarrow> blind (bindC c f)"
  unfolding blind_def bindC_def by (auto split: prod.split sum.split)

lemma blind_then [blind_rules]: "blind c \<Longrightarrow> blind d \<Longrightarrow> blind (thenC c d)"
  unfolding thenC_def by (rule blind_bind)

lemma blind_for [blind_rules]: "(\<And>x. blind (f x)) \<Longrightarrow> blind (forC f xs)"
  by (induction xs) (auto intro: blind_rules)

lemma blind_catch: "blind c \<Longrightarrow> (\<And>e d. h e = Some d \<Longrightarrow> blind d) \<Longrightarrow> blind (catchC c h)"
  unfolding blind_def catchC_def by (auto split: prod.split sum.split option.split)

lemma blind_on_mosquitto [blind_rules]: "blind c \<Longrightarrow> blind d \<Longrightarrow> blind (catchC c (on_mosquitto d))"
  by (rule blind_catch) (auto simp: on_mosquitto_def split: cpp_exn.splits)

lemma blind_on_any [blind_rules]: "blind c \<Longrightarrow> (\<And>e. blind (d e)) \<Longrightarrow> blind (catchC c (on_any d))"
  by (rule blind_catch) (auto simp: on_any_def split: if_splits)

lemma blind_primitives [blind_rules]:
  "blind (nowC env)" "blind (publishC env topic data retain)"
  "blind (publishResponseC env topic data corr props)" "blind (objectC a f)" "blind (setObjectC a g)"
  "blind (takePending cid)"
  by (simp_all add: blind_def nowC_def publishC_def publishResponseC_def objectC_def setObjectC_def
      modifyC_def takePending_def Let_def split: prod.split option.split)

lemma blind_publishState [blind_rules]: "blind (publishState env a force)"
  unfolding publishState_def by (auto intro!: blind_rules blind_get)

lemma blind_publishAvailabilityChange [blind_rules]: "blind (publishAvailabilityChange env a)"
  unfolding publishAvailabilityChange_def by (auto intro!: blind_rules blind_get)

lemma blind_publishBecameAvailable [blind_rules]: "blind (publishBecameAvailable env a old)"
  unfolding publishBecameAvailable_def by (auto intro!: blind_rules blind_get)

lemma blind_processObjectValues [blind_rules]: "blind (processObjectValues env net m a)"
  unfolding processObjectValues_def republishC_def by (auto intro!: blind_rules blind_get)

lemma blind_publishRpcError [blind_rules]: "blind (publishRpcError env topic corr msg)"
  unfolding publishRpcError_def by (intro blind_rules)

lemma blind_publishRpcResponse [blind_rules]: "blind (publishRpcResponse env m)"
  unfolding publishRpcResponse_def
  by (auto intro!: blind_rules blind_get split: option.split sum.split cpp_exn.split)

lemma blind_publishRpcErrorFor [blind_rules]: "blind (publishRpcErrorFor env m)"
  unfolding publishRpcErrorFor_def by (auto intro!: blind_rules split: option.split)

lemma blind_processRegisterValues [blind_rules]: "blind (processRegisterValues env net m)"
  unfolding processRegisterValues_def affectedObjects_def
  by (auto intro!: blind_rules blind_get simp: isConnected_def split: option.split)

lemma blind_processRegistersOperationFailed [blind_rules]:
  "blind (processRegistersOperationFailed env net m)"
  unfolding processRegistersOperationFailed_def by (auto intro!: blind_rules blind_get split: option.split)

lemma blind_processModbusNetworkState [blind_rules]: "blind (processModbusNetworkState env net up)"
  unfolding processModbusNetworkState_def by (auto intro!: blind_rules blind_get)

lemma blind_processModbusItem [blind_rules]: "blind (processModbusItem env net item)"
  unfolding processModbusItem_def by (auto intro!: blind_rules split: queue_item.split)

section \<open>Draining the queues\<close>

lemma apsnd_withClients [simp]:
  "apsnd (withClients cs) (apsnd (withClients ds) p) = apsnd (withClients cs) p"
  by (simp add: apsnd_def map_prod_def split_beta)

lemma drainQueue_spec:
  assumes "i < length (mModbusClients s)" and "mFromModbusQueue (mModbusClients s ! i) = q"
    and "length q < n"
  shows "\<exists>rest.
    drainQueue env i n s =
      apsnd (withClients ((mModbusClients s)[i := (mModbusClients s ! i)\<lparr>mFromModbusQueue := rest\<rparr>]))
        (forC (processModbusItem env (clNetworkName (mModbusClients s ! i))) q s) \<and>
    (fst (drainQueue env i n s) = Inr () \<longrightarrow> rest = [])"
  using assms
proof (induction q arbitrary: s n)
  case Nil
  then obtain k where n: "n = Suc k" by (cases n) simp_all
  have "(mModbusClients s ! i)\<lparr>mFromModbusQueue := []\<rparr> = mModbusClients s ! i" using Nil(2) by simp
  then have "withClients ((mModbusClients s)[i := (mModbusClients s ! i)\<lparr>mFromModbusQueue := []\<rparr>]) s = s"
    by simp
  then show ?case
    using Nil(2) by (intro exI [of _ "[]"]) (simp add: n bindC_def try_dequeue_def returnC_def)
next
  case (Cons item q)
  let ?c = "mModbusClients s ! i"
  let ?cs = "\<lambda>rest. (mModbusClients s)[i := ?c\<lparr>mFromModbusQueue := rest\<rparr>]"
  let ?H = "processModbusItem env (clNetworkName ?c)"
  obtain k where n: "n = Suc k" "length q < k" using Cons.prems(3) by (cases n) simp_all
  obtain r u where one: "?H item s = (r, u)" by (cases "?H item s")
  have H: "?H item (withClients (?cs q) s) = (r, withClients (?cs q) u)"
    by (simp only: blindD [OF blind_processModbusItem] one apsnd_conv)
  have step: "drainQueue env i n s =
      (case r of Inl e \<Rightarrow> (Inl e, withClients (?cs q) u)
       | Inr _ \<Rightarrow> drainQueue env i k (withClients (?cs q) u))"
    using Cons.prems(1,2) H
    by (simp add: n(1) bindC_def thenC_def try_dequeue_def setFromQueue_def getC_def split: sum.split)
  show ?case
  proof (cases r)
    case (Inl e)
    then show ?thesis
      using step one by (intro exI [of _ q]) (simp add: thenC_def bindC_def)
  next
    case (Inr x)
    let ?u = "withClients (?cs q) u"
    have i: "i < length (mModbusClients ?u)" "mFromModbusQueue (mModbusClients ?u ! i) = q"
      "clNetworkName (mModbusClients ?u ! i) = clNetworkName ?c"
      using Cons.prems(1) by simp_all
    obtain rest where rest: "drainQueue env i k ?u = apsnd (withClients (?cs rest)) (forC ?H q ?u)"
      "fst (drainQueue env i k ?u) = Inr () \<longrightarrow> rest = []"
      using Cons.IH [OF i(1,2) n(2)] Cons.prems(1) i(3) by auto
    have "forC ?H q ?u = apsnd (withClients (?cs q)) (forC ?H q u)"
      by (rule blindD) (intro blind_rules)
    then show ?thesis
      using rest step one Inr by (intro exI [of _ rest]) (simp add: thenC_def bindC_def)
  qed
qed

text \<open>The messages in the queues, with the network they come from, in the order they are handled.\<close>

definition queued_messages :: "modbus_client list \<Rightarrow> (string \<times> queue_item) list" where
  "queued_messages cs = concat (map (\<lambda>c. map (Pair (clNetworkName c)) (mFromModbusQueue c)) cs)"

definition handleAll :: "'m mqtt_env \<Rightarrow> (string \<times> queue_item) list \<Rightarrow> ('m, unit) client_op" where
  "handleAll env = forC (\<lambda>(net, item). processModbusItem env net item)"

lemma blind_handleAll: "blind (handleAll env xs)"
  unfolding handleAll_def by (auto intro!: blind_rules)

lemma handleAll_one: "handleAll env (map (Pair net) q) = forC (processModbusItem env net) q"
  by (induction q) (simp_all add: handleAll_def)

lemma handleAll_append: "handleAll env (xs @ ys) = thenC (handleAll env xs) (handleAll env ys)"
proof (induction xs)
  case Nil
  show ?case by (simp add: handleAll_def thenC_def fun_eq_iff bindC_def returnC_def)
next
  case (Cons x xs)
  then show ?case
    by (simp add: handleAll_def thenC_def fun_eq_iff bindC_def split: prod.split sum.split)
qed

lemma drainClients_spec:
  assumes "k \<le> length (mModbusClients s)" and "length (mModbusClients s) = n"
  shows "\<exists>cs. forC (drainClient env) [k..<n] s =
      apsnd (withClients cs) (handleAll env (queued_messages (drop k (mModbusClients s))) s) \<and>
    (fst (forC (drainClient env) [k..<n] s) = Inr () \<longrightarrow>
       cs = take k (mModbusClients s) @ map (mFromModbusQueue_update (\<lambda>_. [])) (drop k (mModbusClients s)))"
  using assms
proof (induction "n - k" arbitrary: k s)
  case 0
  then show ?case by (intro exI [of _ "mModbusClients s"])
      (simp add: queued_messages_def handleAll_def returnC_def)
next
  case (Suc d)
  let ?cs = "mModbusClients s"
  let ?c = "?cs ! k"
  let ?q = "mFromModbusQueue ?c"
  have k: "k < n" "[k..<n] = k # [Suc k..<n]" "drop k ?cs = ?c # drop (Suc k) ?cs"
    using Suc.hyps(2) Suc.prems by (simp_all add: upt_conv_Cons Cons_nth_drop_Suc)
  let ?set = "\<lambda>rest. ?cs[k := ?c\<lparr>mFromModbusQueue := rest\<rparr>]"
  obtain rest where one:
    "drainClient env k s = apsnd (withClients (?set rest)) (handleAll env (map (Pair (clNetworkName ?c)) ?q) s)"
    "fst (drainClient env k s) = Inr () \<longrightarrow> rest = []"
    using drainQueue_spec [of k s ?q "Suc (length ?q)" env] k(1) Suc.prems(2)
    by (auto simp: drainClient_def bindC_def getC_def handleAll_one)
  obtain r u where ru: "handleAll env (map (Pair (clNetworkName ?c)) ?q) s = (r, u)" by fastforce
  show ?case
  proof (cases r)
    case (Inl e)
    then show ?thesis
      using one ru by (intro exI [of _ "?set rest"])
        (simp add: k(2,3) queued_messages_def handleAll_append thenC_def bindC_def)
  next
    case (Inr x)
    let ?u = "withClients (?set []) u"
    have drained: "drainClient env k s = (Inr (), ?u)" using one ru Inr by simp
    have rest: "drop (Suc k) (mModbusClients ?u) = drop (Suc k) ?cs"
      "take (Suc k) (mModbusClients ?u) = take k ?cs @ [?c\<lparr>mFromModbusQueue := []\<rparr>]"
      using k(1) Suc.prems(2) by (simp_all add: take_Suc_conv_app_nth)
    have "d = n - Suc k" "Suc k \<le> length (mModbusClients ?u)" "length (mModbusClients ?u) = n"
      using Suc.hyps(2) Suc.prems k(1) by simp_all
    from Suc.hyps(1) [OF this] obtain cs where cs:
      "forC (drainClient env) [Suc k..<n] ?u =
         apsnd (withClients cs) (handleAll env (queued_messages (drop (Suc k) ?cs)) ?u)"
      "fst (forC (drainClient env) [Suc k..<n] ?u) = Inr () \<longrightarrow>
         cs = take k ?cs @ map (mFromModbusQueue_update (\<lambda>_. [])) (drop k ?cs)"
      unfolding rest by (auto simp: k(3))
    have "handleAll env (queued_messages (drop (Suc k) ?cs)) ?u =
        apsnd (withClients (?set [])) (handleAll env (queued_messages (drop (Suc k) ?cs)) u)"
      by (rule blindD [OF blind_handleAll])
    moreover have "queued_messages (drop k ?cs) = map (Pair (clNetworkName ?c)) ?q @ queued_messages (drop (Suc k) ?cs)"
      by (simp add: k(3) queued_messages_def)
    ultimately show ?thesis
      using cs drained ru Inr
      by (intro exI [of _ cs]) (simp add: k(2) handleAll_append thenC_def bindC_def)
  qed
qed

section \<open>The end of the loop\<close>

text \<open>
  Rounds that are left: while the request of the \<open>k\<close>-th wait has not arrived, every wait is followed
  by at most one round that only resets the signal.
\<close>

definition rounds_left :: "nat \<Rightarrow> 'm gateway \<Rightarrow> nat" where
  "rounds_left k g =
     (if gwWaits g \<le> k then 2 * (k - gwWaits g) + (if gSignalStatus g = -1 then 3 else 4) else 1)"

definition stop_pending :: "nat \<Rightarrow> 'm gateway \<Rightarrow> bool" where
  "stop_pending k g \<longleftrightarrow> - 1 \<le> gSignalStatus g \<and> (k < gwWaits g \<longrightarrow> gSignalStatus g \<in> {0, SIGTERM})"

lemma liftG_sel:
  "liftG c g = (r, g') \<Longrightarrow> gSignalStatus g' = gSignalStatus g \<and> gwWaits g' = gwWaits g"
  by (auto simp: liftG_def split: prod.splits)

lemma wait_pending:
  assumes "\<forall>n p. - 1 \<le> fst (otherThreads lp n p)" and "\<forall>p. fst (otherThreads lp k p) \<in> {0, SIGTERM}"
    and "gwWaits g \<le> k" and "gSignalStatus g = -1" and "liftG c (waitForQueues lp g) = (r, h)"
  shows "stop_pending k h" and "rounds_left k h < rounds_left k g"
proof -
  have h: "gwWaits h = Suc (gwWaits g)"
    "gSignalStatus h = fst (otherThreads lp (gwWaits g) (gSignalStatus g, gwClient g))"
    using liftG_sel [OF assms(5)] by (simp_all add: waitForQueues_def split_beta)
  have "gwWaits g = k" if "k < gwWaits h" using that h(1) assms(3) by simp
  then show "stop_pending k h" unfolding stop_pending_def using assms(1,2) h(2) by auto
  show "rounds_left k h < rounds_left k g"
    using assms(3,4) h(1) by (auto simp: rounds_left_def)
qed

lemma stop_request_ends_loop:
  assumes "\<forall>n p. - 1 \<le> fst (otherThreads lp n p)" and "\<forall>p. fst (otherThreads lp k p) \<in> {0, SIGTERM}"
    and "stop_pending k g" and "rounds_left k g \<le> n"
  shows "\<exists>r. mainLoop env lp n g = Some r"
  using assms(3,4)
proof (induction n arbitrary: g)
  case 0
  then show ?case by (simp add: rounds_left_def split: if_splits)
next
  case (Suc n)
  show ?case
  proof (cases "mIsStarted (gwClient g) \<and> gSignalStatus g \<notin> {0, SIGTERM}")
    case False
    then show ?thesis by (auto simp: SIGTERM_def)
  next
    case True
    then have waits: "gwWaits g \<le> k" using Suc.prems(1) by (auto simp: stop_pending_def)
    show ?thesis
    proof (cases "gSignalStatus g = -1")
      case idle: True
      obtain r h where rh: "liftG (processModbusMessages env) (waitForQueues lp g) = (r, h)" by fastforce
      note pending = wait_pending [OF assms(1,2) waits idle rh]
      have "\<exists>r. mainLoop env lp n h = Some r"
        by (rule Suc.IH [OF pending(1)]) (use pending(2) Suc.prems(2) in simp)
      then show ?thesis using True idle rh by (cases r) simp_all
    next
      case False
      then have "0 < gSignalStatus g" using True Suc.prems(1) by (auto simp: stop_pending_def)
      moreover have "\<exists>r. mainLoop env lp n (g\<lparr>gSignalStatus := - 1\<rparr>) = Some r"
        by (rule Suc.IH) (use waits False Suc.prems(2) in \<open>auto simp: stop_pending_def rounds_left_def\<close>)
      ultimately show ?thesis using True False by simp
    qed
  qed
qed

section \<open>Results\<close>

text \<open>
  C8: the loop over the queues of the Modbus threads handles all messages, those of the first
  network first and in the order they were queued, as a single sequence of the handlers does: it has
  the same result and leaves the same state, and when no handler throws all queues are empty.
\<close>

theorem messages_handled_in_order:
  "\<exists>cs. processModbusMessages env s =
      apsnd (withClients cs) (handleAll env (queued_messages (mModbusClients s)) s) \<and>
    (fst (processModbusMessages env s) = Inr () \<longrightarrow>
       cs = map (mFromModbusQueue_update (\<lambda>_. [])) (mModbusClients s))"
  using drainClients_spec [of 0 s "length (mModbusClients s)" env]
  by (simp add: processModbusMessages_def bindC_def getC_def)

definition demo_queue :: modbus_client where
  "demo_queue = \<lparr>clNetworkName = ''net'', mToModbusQueue = [],
     mFromModbusQueue = [RegisterReadFailed (demo_failed 10 2), ModbusNetworkState ''net'' False]\<rparr>"

theorem messages_handled_in_order_witness:
  "mModbusClients (snd (processModbusMessages demo_env (withClients [demo_queue] demo_client))) =
    [demo_queue\<lparr>mFromModbusQueue := []\<rparr>]"
proof -
  let ?s = "withClients [demo_queue] demo_client"
  have ok: "fst (processModbusMessages demo_env ?s) = Inr ()" by code_simp
  obtain cs where cs: "processModbusMessages demo_env ?s =
      apsnd (withClients cs) (handleAll demo_env (queued_messages (mModbusClients ?s)) ?s)"
    "cs = map (mFromModbusQueue_update (\<lambda>_. [])) (mModbusClients ?s)"
    using messages_handled_in_order [of demo_env ?s] ok by blast
  show ?thesis unfolding cs(1) by (simp add: cs(2))
qed

end
