(* ===== verification/Spec2Isabelle.thy ===== *)
theory Spec2Isabelle
  imports Thread_Commands Rpc_Properties Map_Converter Gateway_Ready Gateway_Loop
begin

text \<open>
  Verification of mqmgateway, a gateway between Modbus networks and an MQTT broker.

  \<^bold>\<open>The program.\<close> The gateway reads a YAML document, starts one thread for every Modbus network and
  polls the registers the document names. What the threads read is sent to the main thread through
  queues, kept in MQTT objects, converted and published; commands and remote calls that arrive from
  the broker are converted to registers and sent to the threads. The sources are under
  \<^verbatim>\<open>src/libmodmqttsrv\<close> (the server), \<^verbatim>\<open>src/libmodmqttconv\<close> (the interface of converters) and
  \<^verbatim>\<open>src/stdconv\<close> (the standard converters).

  \<^bold>\<open>Conventions.\<close> A class is a record and its methods are functions on it, with the names of the
  source; a class that extends another extends its record. An exception is a value of \<^typ>\<open>cpp_exn\<close> on
  the left of a sum, undefined behaviour is the value \<open>Undefined\<close> there (in the Modbus thread a value
  of \<^typ>\<open>fault\<close>), so that a theorem that something returns on the right excludes both. A \<open>std::map\<close>
  is an association list sorted by key (\<open>omap\<close> in \<open>Gateway_Prelude\<close>, with the laws of a map as the
  locale \<open>kv_store\<close>), shared pointers are addresses in a store where sharing matters, \<open>uint16_t\<close> is a
  16-bit word, and \<open>int\<close> is \<^typ>\<open>int\<close> with its bounds written where the code can reach them. A
  failed assertion is treated like undefined behaviour: no handler catches it. Signed 64-bit durations
  wrap where the thread adds or doubles them, and the answer of \<open>modbus_set_slave\<close> is ignored as the
  code ignores it. The host is little-endian and \<open>char\<close> is signed.

  \<^bold>\<open>Parameters.\<close> yaml-cpp (\<open>yaml_lib\<close>), libmodbus, libmosquitto (\<open>mosq_lib\<close>), rapidjson, the clock, the
  file system, the loading of plugins and the text of a floating-point number are arguments of the
  definitions that use them. The MQTT interface is the locale \<open>mqtt_implementation\<close>, interpreted on the
  model of \<^verbatim>\<open>mosquitto.cpp\<close>; the Modbus interface is the locale \<open>modbus_context\<close>, interpreted on the
  model of \<^verbatim>\<open>modbus_context.cpp\<close>.

  \<^bold>\<open>Theories.\<close>
  \<^item> \<open>Gateway_Prelude\<close>, \<open>Text_Numbers\<close>: shared types, faults, loops that stop at an exception, maps,
    and the number parsers of the standard library (\<^verbatim>\<open>strutils.hpp\<close>).
  \<^item> \<open>Modbus_Types\<close>, \<open>Poll_Specification\<close>, \<open>Register_Commands\<close>: \<^verbatim>\<open>modbus_types\<close>, \<^verbatim>\<open>modbus_messages\<close>,
    \<^verbatim>\<open>register_poll\<close>, \<^verbatim>\<open>queue_item\<close>. Merging polls keeps the groups disjoint and every request in one
    group.
  \<^item> \<open>Request_Queues\<close>, \<open>Modbus_Executor\<close>, \<open>Executor_Properties\<close>, \<open>Executor_Invariant\<close>,
    \<open>Executor_Adding\<close>, \<open>Executor_Reachable\<close>: \<^verbatim>\<open>modbus_request_queues\<close>, \<^verbatim>\<open>modbus_executor\<close>. In every
    reachable state commands are neither lost nor invented, work is done, retries end, and slaves
    take turns; where the code fails to do so a theorem shows the run.
  \<^item> \<open>Modbus_Scheduler\<close>, \<open>Modbus_Watchdog\<close>, \<open>Modbus_Context\<close>, \<open>Modbus_Connection\<close>: the files of the
    same names. What is due, when a reconnection is needed, and what is passed to libmodbus.
  \<^item> \<open>Gateway_Config\<close>, \<open>Config_Properties\<close>: \<^verbatim>\<open>config\<close>, \<^verbatim>\<open>yaml_converters.hpp\<close>, \<^verbatim>\<open>modbus_slave\<close>. Bounds
    of accepted configurations and round trips of durations and ranges.
  \<^item> \<open>Modbus_Thread\<close>, \<open>Thread_Invariant\<close>, \<open>Thread_Queues\<close>, \<open>Thread_Properties\<close>,
    \<open>Thread_Reporting\<close>, \<open>Thread_Commands\<close>: \<^verbatim>\<open>modbus_thread\<close>. Every iteration returns, and fails only
    for a refused network configuration or a write to a slave without a queue; the reported network state is the
    actual one, and the scheduler holds what the specification says.
  \<^item> \<open>Mqtt_Value\<close>, \<open>Mqtt_Object\<close>, \<open>Object_Properties\<close>, \<open>Mqtt_Payload\<close>: \<^verbatim>\<open>mqttvalue.hpp\<close>,
    \<^verbatim>\<open>mqttobject\<close>, \<^verbatim>\<open>mqttpayload\<close>, \<^verbatim>\<open>default_command_converter\<close>. An object mirrors the
    registers its messages name, up to the registers a failed read marks beside its range; payloads
    are well formed if the object has a state and converters stand above leaves only.
  \<^item> \<open>Mqtt_Interface\<close>, \<open>Mosquitto\<close>, \<open>Client_State\<close>, \<open>Mqtt_Rpc\<close>, \<open>Mqtt_Client\<close>: \<^verbatim>\<open>imqttimpl.hpp\<close>,
    \<^verbatim>\<open>mosquitto\<close>, \<^verbatim>\<open>mqttclient\<close>. \<open>Client_Logic\<close> has the rules to reason about its operations, and
    \<open>Client_Availability\<close>, \<open>Client_Properties\<close>, \<open>Rpc_Properties\<close> show that availability is reported,
    and that remote requests are checked and answered or, when the broker is lost, dropped.
  \<^item> \<open>Converter_Args\<close>, \<open>Standard_Converters\<close>, \<open>Map_Converter\<close>: \<^verbatim>\<open>conv_name_parser\<close>, \<^verbatim>\<open>convargs.hpp\<close>,
    \<^verbatim>\<open>convtools.hpp\<close> and the converters of \<^verbatim>\<open>stdconv\<close> on integers, bits, strings and maps. Argument
    lists and maps are read back, integer converters are lossless, and a written string is read with
    its characters exchanged in pairs.
  \<^item> \<open>Gateway_Objects\<close>, \<open>Gateway_Init\<close>: \<open>ModMqtt::init\<close> of \<^verbatim>\<open>modmqtt.cpp\<close> with everything it calls.
    \<open>Gateway_Coverage\<close> and \<open>Gateway_Ready\<close> show what an accepted configuration establishes: every
    register of an object is polled by one group of the right thread, every answer finds its objects,
    and the client starts in a state from which availability reporting is correct.
  \<^item> \<open>Gateway_Loop\<close>: \<open>ModMqtt::start\<close> and \<open>processModbusMessages\<close>. All queued messages are handled in
    order, and a stop request ends the loop.

  \<^bold>\<open>Bounds.\<close> The nesting of \<open>parseObjectDataNode\<close> is bounded by the height of the node plus one, which a
  finite document does not exceed (\<open>parse_depth_irrelevant\<close>: more depth gives the same result). The loop over a queue takes one round more than the queue has
  messages, and the theorem on \<open>processModbusMessages\<close> shows that this is enough. The loops of
  \<open>ModMqtt::start\<close> take a number of rounds and give \<open>None\<close> when it is used up; \<open>rounds_left\<close> is a number
  that is enough once a stop request is certain. Other loops are structural or have a termination
  proof; those that may not end, in the executor and in the request queues, are partial functions.

  \<^bold>\<open>Hypotheses.\<close> The theorems on an accepted configuration take positive register counts in the document
  and different names of networks; the code checks neither, which is noted among the findings.

  \<^bold>\<open>Not modelled.\<close> Threads run one at a time: what other threads do happens between the operations of a
  thread, and the lock-free queue (\<^verbatim>\<open>readerwriterqueue\<close>, a copy of a third-party library) is a list.
  The converters that compute with floating-point numbers (\<^verbatim>\<open>float32.hpp\<close>, \<^verbatim>\<open>scale.hpp\<close>,
  \<^verbatim>\<open>single_arg_ops.hpp\<close>, \<^verbatim>\<open>exprconv\<close>) need IEEE arithmetic and, for expressions, a third-party library;
  \<^verbatim>\<open>debug.hpp\<close> and the table of converters in \<^verbatim>\<open>stdconv/plugin.cpp\<close> collect all converters, these
  included. Logging, the loading of shared libraries (\<^verbatim>\<open>dll_import.hpp\<close>), thread names
  (\<^verbatim>\<open>threadutils.hpp\<close>), \<^verbatim>\<open>main.cpp\<close> with its command line and the unit tests are input and output or
  call what is modelled.
\<close>

end
